(* ===== verification/Go_Prelude.thy ===== *)
theory Go_Prelude
  imports Main "HOL-Library.Char_ord" "HOL-Library.List_Lexorder" "HOL-Library.AList"
    "HOL-Library.Multiset"
begin

text \<open>
  Shared notions of the model: the parts of Go and of its standard library that the
  components use, and the generic lemmas their proofs share.

  \<^item> Go's \<open>int\<close>, \<open>int64\<close> and \<open>time.Duration\<close> (all 64 bits wide) are integers kept in range by
    \<open>wrap64\<close> wherever the code computes; \<open>uint64\<close> values are converted by the same function.
  \<^item> Go strings are byte strings; \<open>HasPrefix\<close>, \<open>TrimPrefix\<close>, \<open>Index\<close>, \<open>Contains\<close>, \<open>ToLower\<close>,
    \<open>TrimSpace\<close>, \<open>Join\<close> and the decimal verb of \<open>fmt\<close> are defined as the library documents them
    for ASCII text. Lists of strings are ordered byte-wise, as \<open>sort.Strings\<close> does.
  \<^item> A Go map is the association list of its entries with distinct keys (\<open>wf_gmap\<close>). The list
    order stands for the order in which \<open>range\<close> visits the entries, which Go leaves open: a
    fact proved for every such list holds for every order.
  \<^item> A call that may fail returns \<open>goerror + 'a\<close>; a call that also touches the outside world
    passes a world value of type \<open>'w\<close> along.
\<close>

named_theorems str_defs \<open>definitions of the string library\<close>
named_theorems gmap_simps \<open>facts on maps held as association lists\<close>

section \<open>Fixed-width integers\<close>

definition wrap64 :: "int \<Rightarrow> int" where
  "wrap64 x = (x + 2 ^ 63) mod 2 ^ 64 - 2 ^ 63"

definition in_int64 :: "int \<Rightarrow> bool" where
  "in_int64 x \<longleftrightarrow> - (2 ^ 63) \<le> x \<and> x < 2 ^ 63"

lemma wrap64_in_range [simp, intro]: "in_int64 (wrap64 x)"
  by (simp add: in_int64_def wrap64_def)

lemma wrap64_id: "in_int64 x \<Longrightarrow> wrap64 x = x"
  by (simp add: in_int64_def wrap64_def)

lemma wrap64_small [simp]: "0 \<le> x \<Longrightarrow> x < 9223372036854775808 \<Longrightarrow> wrap64 x = x"
  by (simp add: wrap64_id in_int64_def)

lemma wrap64_idem [simp]: "wrap64 (wrap64 x) = wrap64 x"
  by (simp add: wrap64_id)

text \<open>Wrapped additions commute: the sum of a list does not depend on its order.\<close>

lemma wrap64_add_left: "wrap64 (wrap64 a + b) = wrap64 (a + b)"
proof -
  have "(wrap64 a + b + 2 ^ 63) = ((a + 2 ^ 63) mod 2 ^ 64 + b)"
    by (simp add: wrap64_def)
  moreover have "((a + 2 ^ 63) mod 2 ^ 64 + b) mod 2 ^ 64 = (a + 2 ^ 63 + b) mod (2 ^ 64 :: int)"
    by (rule mod_add_left_eq)
  ultimately have "(wrap64 a + b + 2 ^ 63) mod 2 ^ 64 = (a + b + 2 ^ 63) mod (2 ^ 64 :: int)"
    by (simp add: ac_simps)
  then show ?thesis unfolding wrap64_def by (rule arg_cong [where f = "\<lambda>x. x - 2 ^ 63"])
qed

section \<open>Times\<close>

text \<open>
  A \<open>time.Time\<close> is the number of nanoseconds since Go's zero time, so \<open>IsZero\<close> is \<open>= 0\<close>; the
  difference of two times is cut to the range of \<open>time.Duration\<close>.
\<close>

type_synonym gotime = int

definition time_Sub :: "gotime \<Rightarrow> gotime \<Rightarrow> int" where
  "time_Sub t u = max (- (2 ^ 63)) (min (2 ^ 63 - 1) (t - u))"

text \<open>Go's integer division cuts towards zero.\<close>

definition go_div :: "int \<Rightarrow> int \<Rightarrow> int" where
  "go_div a b = (if (a < 0) = (b < 0) then \<bar>a\<bar> div \<bar>b\<bar> else - (\<bar>a\<bar> div \<bar>b\<bar>))"

section \<open>Strings\<close>

definition HasPrefix :: "string \<Rightarrow> string \<Rightarrow> bool" where
  "HasPrefix s p \<longleftrightarrow> take (length p) s = p"

definition TrimPrefix :: "string \<Rightarrow> string \<Rightarrow> string" where
  "TrimPrefix s p = (if HasPrefix s p then drop (length p) s else s)"

fun str_index :: "string \<Rightarrow> string \<Rightarrow> nat option" where
  "str_index [] p = (if p = [] then Some 0 else None)"
| "str_index (c # s) p =
     (if HasPrefix (c # s) p then Some 0 else map_option Suc (str_index s p))"

definition Contains :: "string \<Rightarrow> string \<Rightarrow> bool" where
  "Contains s p \<longleftrightarrow> str_index s p \<noteq> None"

definition lower_char :: "char \<Rightarrow> char" where
  "lower_char c = (let n = (of_char c :: nat) in
     if 65 \<le> n \<and> n \<le> 90 then char_of (n + 32) else c)"

definition ToLower :: "string \<Rightarrow> string" where
  "ToLower s = map lower_char s"

definition space_char :: "char \<Rightarrow> bool" where
  "space_char c = (let n = (of_char c :: nat) in (9 \<le> n \<and> n \<le> 13) \<or> n = 32)"

definition TrimSpace :: "string \<Rightarrow> string" where
  "TrimSpace s = rev (dropWhile space_char (rev (dropWhile space_char s)))"

fun Join :: "string list \<Rightarrow> string \<Rightarrow> string" where
  "Join [] sep = []"
| "Join [s] sep = s"
| "Join (s # t # ts) sep = s @ sep @ Join (t # ts) sep"

fun show_nat :: "nat \<Rightarrow> string" where
  "show_nat n = (if n < 10 then [char_of (48 + n)]
     else show_nat (n div 10) @ [char_of (48 + n mod 10)])"

declare show_nat.simps [simp del]

definition itoa :: "int \<Rightarrow> string" where
  "itoa i = (if i < 0 then ''-'' @ show_nat (nat (- i)) else show_nat (nat i))"

lemmas [str_defs] = HasPrefix_def TrimPrefix_def Contains_def ToLower_def lower_char_def
  TrimSpace_def space_char_def itoa_def Let_def

lemma HasPrefix_append [simp]: "HasPrefix (p @ s) p"
  by (simp add: HasPrefix_def)

lemma HasPrefix_iff: "HasPrefix s p \<longleftrightarrow> (\<exists>t. s = p @ t)"
  by (metis HasPrefix_append HasPrefix_def append_take_drop_id)

lemma TrimPrefix_append [simp]: "TrimPrefix (p @ s) p = s"
  by (simp add: TrimPrefix_def)

text \<open>\<open>strings.Index\<close> returns the first position at which the pattern occurs.\<close>

lemma str_index_Some:
  "str_index s p = Some i \<longleftrightarrow>
     i \<le> length s \<and> HasPrefix (drop i s) p \<and> (\<forall>j < i. \<not> HasPrefix (drop j s) p)"
proof (induction s arbitrary: i)
  case Nil
  then show ?case by (auto simp: HasPrefix_def)
next
  case (Cons c s)
  show ?case
  proof (cases i)
    case 0
    then show ?thesis by (auto simp: HasPrefix_def)
  next
    case (Suc k)
    have "(\<forall>j < Suc k. \<not> HasPrefix (drop j (c # s)) p) \<longleftrightarrow>
        \<not> HasPrefix (c # s) p \<and> (\<forall>j < k. \<not> HasPrefix (drop j s) p)"
      by (auto simp: less_Suc_eq_0_disj)
    with Suc Cons.IH [of k] show ?thesis by auto
  qed
qed

lemma str_index_None:
  "str_index s p = None \<longleftrightarrow> (\<forall>j \<le> length s. \<not> HasPrefix (drop j s) p)"
proof (induction s)
  case Nil
  then show ?case by (auto simp: HasPrefix_def)
next
  case (Cons c s)
  have "(\<forall>j \<le> length (c # s). \<not> HasPrefix (drop j (c # s)) p) \<longleftrightarrow>
      \<not> HasPrefix (c # s) p \<and> (\<forall>j \<le> length s. \<not> HasPrefix (drop j s) p)"
    by (metis (no_types, lifting) Suc_le_mono drop0 drop_Suc_Cons le0 length_Cons not0_implies_Suc)
  with Cons.IH show ?case by auto
qed

lemma Contains_iff: "Contains s p \<longleftrightarrow> (\<exists>u v. s = u @ p @ v)"
proof
  assume "Contains s p"
  then obtain i where "HasPrefix (drop i s) p"
    unfolding Contains_def by (auto simp: str_index_Some)
  then obtain t where "drop i s = p @ t" by (auto simp: HasPrefix_iff)
  then have "s = take i s @ p @ t" by (metis append_take_drop_id)
  then show "\<exists>u v. s = u @ p @ v" by blast
next
  assume "\<exists>u v. s = u @ p @ v"
  then obtain u v where s: "s = u @ p @ v" by blast
  then have "HasPrefix (drop (length u) s) p" and "length u \<le> length s" by simp_all
  then show "Contains s p" unfolding Contains_def by (auto simp: str_index_None)
qed

section \<open>Sorted lists of strings\<close>

text \<open>
  A Go set is a \<open>map[string]struct{}\<close>; collecting its keys visits them in an order Go leaves
  open, and \<open>sort.Strings\<close> makes the result independent of it.
\<close>

definition strictly_sorted :: "'a::linorder list \<Rightarrow> bool" where
  "strictly_sorted xs \<longleftrightarrow> sorted xs \<and> distinct xs"

lemma strictly_sorted_sort [simp]: "distinct xs \<Longrightarrow> strictly_sorted (sort xs)"
  by (simp add: strictly_sorted_def)

lemma strictly_sorted_unique:
  "strictly_sorted xs \<Longrightarrow> strictly_sorted ys \<Longrightarrow> set xs = set ys \<Longrightarrow> xs = ys"
  unfolding strictly_sorted_def by (blast intro: sorted_distinct_set_unique)

lemma sort_distinct_cong:
  "distinct xs \<Longrightarrow> distinct ys \<Longrightarrow> set xs = set ys \<Longrightarrow> sort xs = sort ys"
  by (rule strictly_sorted_unique) simp_all

section \<open>Maps\<close>

type_synonym 'v gmap = "(string \<times> 'v) list"

definition wf_gmap :: "'v gmap \<Rightarrow> bool" where
  "wf_gmap m \<longleftrightarrow> distinct (map fst m)"

abbreviation mget :: "'v gmap \<Rightarrow> string \<Rightarrow> 'v option" where
  "mget m k \<equiv> map_of m k"

abbreviation mput :: "string \<Rightarrow> 'v \<Rightarrow> 'v gmap \<Rightarrow> 'v gmap" where
  "mput k v m \<equiv> AList.update k v m"

abbreviation mkeys :: "'v gmap \<Rightarrow> string list" where
  "mkeys m \<equiv> map fst m"

text \<open>A nil map reads like an empty one.\<close>

definition nilmap :: "'v gmap option \<Rightarrow> 'v gmap" where
  "nilmap m = (case m of None \<Rightarrow> [] | Some m' \<Rightarrow> m')"

lemma nilmap_simps [simp]: "nilmap None = []" "nilmap (Some m) = m"
  by (simp_all add: nilmap_def)

lemma mget_mput [simp, gmap_simps]: "mget (mput k v m) k' = (if k' = k then Some v else mget m k')"
  by (simp add: update_conv')

lemma mget_mput_fun: "map_of (mput k v m) = (map_of m)(k \<mapsto> v)"
  by (rule update_conv')

lemma wf_gmap_mput [simp, intro]: "wf_gmap m \<Longrightarrow> wf_gmap (mput k v m)"
  by (simp add: wf_gmap_def distinct_update)

lemma wf_gmap_Nil [simp, intro]: "wf_gmap []"
  by (simp add: wf_gmap_def)

lemma wf_gmap_Cons: "wf_gmap ((k, v) # m) \<longleftrightarrow> mget m k = None \<and> wf_gmap m"
  by (auto simp: wf_gmap_def map_of_eq_None_iff)

lemma mkeys_dom: "set (mkeys m) = dom (mget m)"
  by (simp add: dom_map_of_conv_image_fst)

lemma mget_in_set: "mget m k = Some v \<Longrightarrow> (k, v) \<in> set m"
  by (rule map_of_SomeD)

lemma wf_gmap_mget [simp]: "wf_gmap m \<Longrightarrow> (k, v) \<in> set m \<Longrightarrow> mget m k = Some v"
  by (simp add: wf_gmap_def)

lemma wf_gmap_mget_iff: "wf_gmap m \<Longrightarrow> (k, v) \<in> set m \<longleftrightarrow> mget m k = Some v"
  by (auto dest: mget_in_set)

lemma mput_fresh: "mget m k = None \<Longrightarrow> mput k v m = m @ [(k, v)]"
  by (induction m) (auto split: if_splits)

text \<open>
  Two well-formed lists that agree as maps hold the same entries: they are two orders in which
  \<open>range\<close> may visit one map.
\<close>

definition same_map :: "'v gmap \<Rightarrow> 'v gmap \<Rightarrow> bool" where
  "same_map m m' \<longleftrightarrow> map_of m = map_of m'"

lemma same_map_mset:
  assumes "wf_gmap m" "wf_gmap m'" "same_map m m'"
  shows "mset m = mset m'"
proof -
  have "(k, v) \<in> set m \<longleftrightarrow> (k, v) \<in> set m'" for k v
    using assms(3) wf_gmap_mget_iff [OF assms(1)] wf_gmap_mget_iff [OF assms(2)]
    by (simp only: same_map_def)
  then have "set m = set m'" by (simp add: set_eq_iff split_paired_all)
  moreover have "distinct m" "distinct m'"
    using assms by (auto simp: wf_gmap_def distinct_map)
  ultimately show ?thesis by (simp add: set_eq_iff_mset_eq_distinct)
qed

lemma mset_same_map:
  assumes "wf_gmap m" "mset m = mset m'"
  shows "wf_gmap m'" "same_map m m'"
proof -
  have "mset (map fst m) = mset (map fst m')" using assms(2) by simp
  then have "distinct (map fst m) = distinct (map fst m')" by (rule mset_eq_imp_distinct_iff)
  with assms(1) show wf: "wf_gmap m'" by (simp add: wf_gmap_def)
  have eq: "set m = set m'" using assms(2) by (rule mset_eq_setD)
  have "mget m k = Some v \<longleftrightarrow> mget m' k = Some v" for k v
    using wf_gmap_mget_iff [OF assms(1)] wf_gmap_mget_iff [OF wf] eq by simp
  then have "mget m k = mget m' k" for k
    by (metis not_None_eq)
  then show "same_map m m'" by (auto simp: same_map_def)
qed

text \<open>A loop whose bodies commute gives the same result in every order of the entries.\<close>

lemma fold_order_irrelevant:
  assumes "mset xs = mset ys"
    and "\<And>x y. x \<in> set xs \<Longrightarrow> y \<in> set xs \<Longrightarrow> f x \<circ> f y = f y \<circ> f x"
  shows "fold f xs s = fold f ys s"
  using assms by (simp add: fold_multiset_equiv [OF assms(2) assms(1)])

text \<open>Writing a list of entries into a map: later entries win.\<close>

lemma mget_fold_mput:
  "mget (fold (\<lambda>(k, v). mput k v) xs m) k =
     (case mget (rev xs) k of None \<Rightarrow> mget m k | Some v \<Rightarrow> Some v)"
  by (induction xs arbitrary: m) (auto simp: map_add_def split: option.splits)

lemma wf_fold_mput [simp, intro]: "wf_gmap m \<Longrightarrow> wf_gmap (fold (\<lambda>(k, v). mput k v) xs m)"
  by (induction xs arbitrary: m) auto

end
