(* ===== verification/Go_Errors.thy ===== *)
theory Go_Errors
  imports Go_Prelude
begin

text \<open>
  Go error values. An error that the code of the repository builds is a constructor of its own;
  an error that a library returns is a record of the answers to the questions the code asks
  about it (\<open>errors.Is\<close>, \<open>errors.As\<close>, the predicates of \<open>errdefs\<close>, \<open>Error()\<close>). \<open>err_chain\<close> is
  the chain that \<open>errors.Is\<close> and \<open>errors.As\<close> walk by \<open>Unwrap\<close>.
\<close>

record lib_error =
  le_msg :: string
  le_canceled :: bool
  le_deadline :: bool
  le_timeout :: "bool option"
  le_net :: "(bool \<times> bool) option"
  le_unauthorized :: bool
  le_forbidden :: bool
  le_notexist :: bool

definition plain_lib :: "string \<Rightarrow> lib_error" where
  "plain_lib msg = \<lparr>le_msg = msg, le_canceled = False, le_deadline = False, le_timeout = None,
     le_net = None, le_unauthorized = False, le_forbidden = False, le_notexist = False\<rparr>"

datatype goerror =
    CtxCanceled
  | CtxDeadline
  | PlainErr string
  | WrapErr string goerror
  | LibErr lib_error
  | FetchError (fe_StatusCode: int) (fe_URL: string) (fe_Err: goerror)
  | NonRetryableError goerror
  | RuntimeError (re_Op: string) (re_Err: goerror)
  | RetryableError goerror
  | RetryAfterError (ra_Duration: int) (ra_Err: goerror)

text \<open>
  \<open>time.Duration.String\<close>: the largest unit below one second, else hours, minutes and seconds;
  fractions without trailing zeros.
\<close>

definition pad_left :: "nat \<Rightarrow> string \<Rightarrow> string" where
  "pad_left n s = replicate (n - length s) (CHR ''0'') @ s"

definition fraction :: "nat \<Rightarrow> nat \<Rightarrow> string" where
  "fraction prec v =
     (let digits = rev (dropWhile (\<lambda>c. c = CHR ''0'') (rev (pad_left prec (show_nat v))))
      in if digits = [] then [] else ''.'' @ digits)"

definition micro_sign :: string where
  "micro_sign = map char_of [194, 181 :: nat]"

definition duration_magnitude :: "nat \<Rightarrow> string" where
  "duration_magnitude u =
     (if u = 0 then ''0s''
      else if u < 1000 then show_nat u @ ''ns''
      else if u < 1000000 then show_nat (u div 1000) @ fraction 3 (u mod 1000) @ micro_sign @ ''s''
      else if u < 1000000000 then show_nat (u div 1000000) @ fraction 6 (u mod 1000000) @ ''ms''
      else
        let secs = u div 1000000000; mins = secs div 60; hours = mins div 60;
            tail = show_nat (secs mod 60) @ fraction 9 (u mod 1000000000) @ ''s''
        in if hours > 0 then show_nat hours @ ''h'' @ show_nat (mins mod 60) @ ''m'' @ tail
           else if mins > 0 then show_nat mins @ ''m'' @ tail else tail)"

definition duration_string :: "int \<Rightarrow> string" where
  "duration_string d = (if d < 0 then ''-'' else '''') @ duration_magnitude (nat \<bar>d\<bar>)"

text \<open>\<open>%q\<close> of a string: quotes, backslashes and control characters are escaped.\<close>

definition hex_digit :: "nat \<Rightarrow> char" where
  "hex_digit n = (if n < 10 then char_of (48 + n) else char_of (87 + n))"

definition quote_char :: "char \<Rightarrow> string" where
  "quote_char c = (let n = (of_char c :: nat) in
     if n = 34 then [char_of (92 :: nat), c]
     else if n = 92 then [char_of (92 :: nat), c]
     else if n = 7 then [char_of (92 :: nat), CHR ''a'']
     else if n = 8 then [char_of (92 :: nat), CHR ''b'']
     else if n = 12 then [char_of (92 :: nat), CHR ''f'']
     else if n = 10 then [char_of (92 :: nat), CHR ''n'']
     else if n = 13 then [char_of (92 :: nat), CHR ''r'']
     else if n = 9 then [char_of (92 :: nat), CHR ''t'']
     else if n = 11 then [char_of (92 :: nat), CHR ''v'']
     else if n < 32 \<or> n = 127
       then [char_of (92 :: nat), CHR ''x'', hex_digit (n div 16), hex_digit (n mod 16)]
     else [c])"

definition go_quote :: "string \<Rightarrow> string" where
  "go_quote s = char_of (34 :: nat) # concat (map quote_char s) @ [char_of (34 :: nat)]"

fun err_msg :: "goerror \<Rightarrow> string" where
  "err_msg CtxCanceled = ''context canceled''"
| "err_msg CtxDeadline = ''context deadline exceeded''"
| "err_msg (PlainErr s) = s"
| "err_msg (WrapErr p e) = p @ err_msg e"
| "err_msg (LibErr l) = le_msg l"
| "err_msg (FetchError code url e) =
     (if code > 0 then ''compose fetch failed: HTTP '' @ itoa code @ '' from '' @ url
      else ''compose fetch failed: '' @ err_msg e)"
| "err_msg (NonRetryableError e) = err_msg e"
| "err_msg (RuntimeError op e) = op @ '': '' @ err_msg e"
| "err_msg (RetryableError e) = err_msg e"
| "err_msg (RetryAfterError d e) = ''rate limited; retry after '' @ duration_string d"

fun err_unwrap :: "goerror \<Rightarrow> goerror option" where
  "err_unwrap (WrapErr p e) = Some e"
| "err_unwrap (FetchError code url e) = Some e"
| "err_unwrap (NonRetryableError e) = Some e"
| "err_unwrap (RuntimeError op e) = Some e"
| "err_unwrap (RetryAfterError d e) = Some e"
| "err_unwrap e = None"

lemma err_unwrap_size [termination_simp]: "err_unwrap e = Some e' \<Longrightarrow> size e' < size e"
  by (cases e) auto

fun err_chain :: "goerror \<Rightarrow> goerror list" where
  "err_chain e = e # (case err_unwrap e of None \<Rightarrow> [] | Some e' \<Rightarrow> err_chain e')"

declare err_chain.simps [simp del]

lemma err_chain_simps [simp]:
  "err_chain CtxCanceled = [CtxCanceled]"
  "err_chain CtxDeadline = [CtxDeadline]"
  "err_chain (PlainErr s) = [PlainErr s]"
  "err_chain (WrapErr p e) = WrapErr p e # err_chain e"
  "err_chain (LibErr l) = [LibErr l]"
  "err_chain (FetchError c u e) = FetchError c u e # err_chain e"
  "err_chain (NonRetryableError e) = NonRetryableError e # err_chain e"
  "err_chain (RuntimeError op e) = RuntimeError op e # err_chain e"
  "err_chain (RetryableError e) = [RetryableError e]"
  "err_chain (RetryAfterError d e) = RetryAfterError d e # err_chain e"
  by (simp_all add: err_chain.simps)

lemma err_chain_self [simp, intro]: "e \<in> set (err_chain e)"
  by (cases e) simp_all

text \<open>The questions the code asks about an error.\<close>

fun node_is_canceled :: "goerror \<Rightarrow> bool" where
  "node_is_canceled CtxCanceled = True"
| "node_is_canceled (LibErr l) = le_canceled l"
| "node_is_canceled e = False"

fun node_is_deadline :: "goerror \<Rightarrow> bool" where
  "node_is_deadline CtxDeadline = True"
| "node_is_deadline (LibErr l) = le_deadline l"
| "node_is_deadline e = False"

fun node_timeout :: "goerror \<Rightarrow> bool option" where
  "node_timeout CtxDeadline = Some True"
| "node_timeout (LibErr l) = le_timeout l"
| "node_timeout e = None"

fun node_net :: "goerror \<Rightarrow> (bool \<times> bool) option" where
  "node_net CtxDeadline = Some (True, True)"
| "node_net (LibErr l) = le_net l"
| "node_net e = None"

fun first_some :: "('a \<Rightarrow> 'b option) \<Rightarrow> 'a list \<Rightarrow> 'b option" where
  "first_some f [] = None"
| "first_some f (x # xs) = (case f x of None \<Rightarrow> first_some f xs | Some y \<Rightarrow> Some y)"

definition is_canceled :: "goerror \<Rightarrow> bool" where
  "is_canceled e \<longleftrightarrow> list_ex node_is_canceled (err_chain e)"

definition is_deadline :: "goerror \<Rightarrow> bool" where
  "is_deadline e \<longleftrightarrow> list_ex node_is_deadline (err_chain e)"

definition as_timeout :: "goerror \<Rightarrow> bool option" where
  "as_timeout e = first_some node_timeout (err_chain e)"

definition as_net :: "goerror \<Rightarrow> (bool \<times> bool) option" where
  "as_net e = first_some node_net (err_chain e)"

fun node_fetch :: "goerror \<Rightarrow> goerror option" where
  "node_fetch (FetchError c u e) = Some (FetchError c u e)"
| "node_fetch e = None"

fun is_nonretryable_node :: "goerror \<Rightarrow> bool" where
  "is_nonretryable_node (NonRetryableError e) = True"
| "is_nonretryable_node e = False"

definition as_nonretryable :: "goerror \<Rightarrow> bool" where
  "as_nonretryable e \<longleftrightarrow> list_ex is_nonretryable_node (err_chain e)"

definition as_fetch :: "goerror \<Rightarrow> goerror option" where
  "as_fetch e = first_some node_fetch (err_chain e)"

fun node_runtime :: "goerror \<Rightarrow> goerror option" where
  "node_runtime (RuntimeError op e) = Some (RuntimeError op e)"
| "node_runtime e = None"

definition as_runtime :: "goerror \<Rightarrow> goerror option" where
  "as_runtime e = first_some node_runtime (err_chain e)"

fun node_retry_after :: "goerror \<Rightarrow> int option" where
  "node_retry_after (RetryAfterError d e) = Some d"
| "node_retry_after e = None"

definition as_retry_after :: "goerror \<Rightarrow> int option" where
  "as_retry_after e = first_some node_retry_after (err_chain e)"

fun is_retryable_node :: "goerror \<Rightarrow> bool" where
  "is_retryable_node (RetryableError e) = True"
| "is_retryable_node e = False"

definition as_retryable :: "goerror \<Rightarrow> bool" where
  "as_retryable e \<longleftrightarrow> list_ex is_retryable_node (err_chain e)"

definition is_not_exist :: "goerror \<Rightarrow> bool" where
  "is_not_exist e \<longleftrightarrow> list_ex (\<lambda>n. case n of LibErr l \<Rightarrow> le_notexist l | _ \<Rightarrow> False) (err_chain e)"

definition is_unauthorized :: "goerror \<Rightarrow> bool" where
  "is_unauthorized e \<longleftrightarrow>
     list_ex (\<lambda>n. case n of LibErr l \<Rightarrow> le_unauthorized l | _ \<Rightarrow> False) (err_chain e)"

definition is_forbidden :: "goerror \<Rightarrow> bool" where
  "is_forbidden e \<longleftrightarrow>
     list_ex (\<lambda>n. case n of LibErr l \<Rightarrow> le_forbidden l | _ \<Rightarrow> False) (err_chain e)"

section \<open>Parsing numbers\<close>

text \<open>\<open>strconv.ParseBool\<close> and \<open>strconv.Atoi\<close>; their errors carry the text.\<close>

definition ParseBool :: "string \<Rightarrow> goerror + bool" where
  "ParseBool s =
     (if s \<in> {''1'', ''t'', ''T'', ''TRUE'', ''true'', ''True''} then Inr True
      else if s \<in> {''0'', ''f'', ''F'', ''FALSE'', ''false'', ''False''} then Inr False
      else Inl (PlainErr (''strconv.ParseBool: parsing '' @ go_quote s @ '': invalid syntax'')))"

definition is_digit :: "char \<Rightarrow> bool" where
  "is_digit c = (let n = (of_char c :: nat) in 48 \<le> n \<and> n \<le> 57)"

definition digits_value :: "string \<Rightarrow> int" where
  "digits_value s = fold (\<lambda>c v. 10 * v + (of_char c - 48)) s 0"

definition Atoi :: "string \<Rightarrow> goerror + int" where
  "Atoi s =
     (let (neg, digits) = (case s of
          c # rest \<Rightarrow> if c = CHR ''-'' then (True, rest) else if c = CHR ''+'' then (False, rest) else (False, s)
        | [] \<Rightarrow> (False, []));
          v = (if neg then - digits_value digits else digits_value digits)
      in if digits = [] \<or> \<not> list_all is_digit digits
         then Inl (PlainErr (''strconv.Atoi: parsing '' @ go_quote s @ '': invalid syntax''))
         else if \<not> in_int64 v
         then Inl (PlainErr (''strconv.Atoi: parsing '' @ go_quote s @ '': value out of range''))
         else Inr v)"

lemma Atoi_range: "Atoi s = Inr n \<Longrightarrow> in_int64 n"
  by (auto simp: Atoi_def Let_def split: prod.splits if_splits)

section \<open>Contexts, timers and parsed URLs\<close>

text \<open>
  What the code sees of a \<open>context.Context\<close> and of timers, in a world of type \<open>'w\<close>: \<open>ctx.Err()\<close>,
  the \<open>select\<close> between \<open>ctx.Done()\<close> and a timer of the given duration (\<open>Some err\<close> with \<open>ctx.Err()\<close>
  when the context is done first), and entering and leaving a context derived by
  \<open>context.WithTimeout\<close>. Durations are nanoseconds.
\<close>

record 'w ctx_env =
  ce_err :: "'w \<Rightarrow> goerror option"
  ce_wait :: "int \<Rightarrow> 'w \<Rightarrow> goerror option \<times> 'w"
  ce_with_timeout :: "int \<Rightarrow> 'w \<Rightarrow> 'w"
  ce_cancel :: "'w \<Rightarrow> 'w"

definition Second :: int where
  "Second = 1000000000"

definition Millisecond :: int where
  "Millisecond = 1000000"

record go_url =
  u_Scheme :: string
  u_Host :: string
  u_Hostname :: string

end
