(* ===== verification/Compose_State.thy ===== *)
theory Compose_State
  imports Go_Errors
begin

text \<open>
  \<open>internal/compose/parse.go\<close> and \<open>fingerprint.go\<close>: from the bytes of a compose file to the
  desired state. The compose loader is a parameter \<open>load\<close> from the bytes to a project, of which
  the records hold the fields the code reads; so is SHA-256. A reference to a config or a secret
  is its \<open>Source\<close>, a top-level config or secret its \<open>Name\<close>.
\<close>

section \<open>Data\<close>

record desired_service =
  ds_Image :: string
  ds_Mode :: string
  ds_Replicas :: int
  ds_Configs :: "string list"
  ds_Secrets :: "string list"

record desired_state =
  dst_Services :: "desired_service gmap"

record deploy_config =
  dp_Mode :: string
  dp_Replicas :: "int option"

record compose_service =
  cps_Image :: string
  cps_Deploy :: "deploy_config option"
  cps_Scale :: "int option"
  cps_Configs :: "string list"
  cps_Secrets :: "string list"

record compose_project =
  cp_Services :: "compose_service gmap"
  cp_Configs :: "string gmap"
  cp_Secrets :: "string gmap"

definition defaultDeployMode :: string where
  "defaultDeployMode = ''replicated''"

definition globalDeployMode :: string where
  "globalDeployMode = ''global''"

definition defaultServiceScale :: int where
  "defaultServiceScale = 1"

section \<open>Names of configs and secrets\<close>

text \<open>Consecutive repetitions are skipped, starting from the empty string.\<close>

fun skip_repeats :: "string list \<Rightarrow> string \<Rightarrow> string list" where
  "skip_repeats [] prev = []"
| "skip_repeats (v # vs) prev = (if v = prev then skip_repeats vs prev else v # skip_repeats vs v)"

definition compose_normalizeNames :: "string list \<Rightarrow> string list" where
  "compose_normalizeNames values = (if values = [] then [] else skip_repeats (sort values) '''')"

fun resolve_loop ::
  "string \<Rightarrow> string gmap \<Rightarrow> string list \<Rightarrow> string list \<Rightarrow> goerror + string list" where
  "resolve_loop kind table [] names = Inr (compose_normalizeNames names)"
| "resolve_loop kind table (source # refs) names =
     (if source = '''' then Inl (PlainErr (kind @ '' reference missing source''))
      else case mget table source of
        None \<Rightarrow> Inl (PlainErr (''undefined '' @ kind @ '' '' @ go_quote source))
      | Some name \<Rightarrow>
          resolve_loop kind table refs (names @ [if name = '''' then source else name]))"

definition resolveConfigNames :: "string list \<Rightarrow> string gmap \<Rightarrow> goerror + string list" where
  "resolveConfigNames refs configs =
     (if refs = [] then Inr [] else resolve_loop ''config'' configs refs [])"

definition resolveSecretNames :: "string list \<Rightarrow> string gmap \<Rightarrow> goerror + string list" where
  "resolveSecretNames refs secrets =
     (if refs = [] then Inr [] else resolve_loop ''secret'' secrets refs [])"

section \<open>The desired state\<close>

definition service_deploy_mode :: "compose_service \<Rightarrow> string" where
  "service_deploy_mode service =
     (case cps_Deploy service of
        Some deploy \<Rightarrow> (if dp_Mode deploy \<noteq> '''' then dp_Mode deploy else defaultDeployMode)
      | None \<Rightarrow> defaultDeployMode)"

definition service_replicas :: "compose_service \<Rightarrow> int" where
  "service_replicas service =
     (if service_deploy_mode service = globalDeployMode then 0
      else case (case cps_Deploy service of Some deploy \<Rightarrow> dp_Replicas deploy | None \<Rightarrow> None) of
        Some replicas \<Rightarrow> replicas
      | None \<Rightarrow>
          (case cps_Scale service of Some scale \<Rightarrow> scale | None \<Rightarrow> defaultServiceScale))"

definition parse_service ::
  "compose_project \<Rightarrow> string \<Rightarrow> compose_service \<Rightarrow> goerror + desired_service" where
  "parse_service project name service =
     (if cps_Image service = '''' then
        Inl (PlainErr (''service '' @ go_quote name @ '' missing image''))
      else
        case resolveConfigNames (cps_Configs service) (cp_Configs project) of
          Inl err \<Rightarrow> Inl (WrapErr (''service '' @ go_quote name @ '' configs: '') err)
        | Inr configs \<Rightarrow>
            (case resolveSecretNames (cps_Secrets service) (cp_Secrets project) of
               Inl err \<Rightarrow> Inl (WrapErr (''service '' @ go_quote name @ '' secrets: '') err)
             | Inr secrets \<Rightarrow>
                 Inr \<lparr>ds_Image = cps_Image service, ds_Mode = service_deploy_mode service,
                      ds_Replicas = service_replicas service, ds_Configs = configs,
                      ds_Secrets = secrets\<rparr>))"

fun parse_loop ::
  "compose_project \<Rightarrow> (string \<times> compose_service) list \<Rightarrow> desired_service gmap \<Rightarrow>
   goerror + desired_service gmap" where
  "parse_loop project [] services = Inr services"
| "parse_loop project ((name, service) # rest) services =
     (case parse_service project name service of
        Inl err \<Rightarrow> Inl err
      | Inr desired \<Rightarrow> parse_loop project rest (mput name desired services))"

definition ParseDesiredState ::
  "(string \<Rightarrow> goerror + compose_project) \<Rightarrow> string \<Rightarrow> goerror + desired_state" where
  "ParseDesiredState load body =
     (if body = [] then Inl (PlainErr ''compose body is empty'')
      else case load body of
        Inl err \<Rightarrow> Inl (WrapErr ''load compose: '' err)
      | Inr project \<Rightarrow>
          if cp_Services project = [] then Inl (PlainErr ''compose has no services'')
          else case parse_loop project (cp_Services project) [] of
            Inl err \<Rightarrow> Inl err
          | Inr services \<Rightarrow> Inr \<lparr>dst_Services = services\<rparr>)"

section \<open>Fingerprints\<close>

definition hex_encode :: "string \<Rightarrow> string" where
  "hex_encode bytes =
     concat (map (\<lambda>c. [hex_digit (of_char c div 16), hex_digit (of_char c mod 16)]) bytes)"

definition Fingerprint :: "(string \<Rightarrow> string) \<Rightarrow> string \<Rightarrow> goerror + string" where
  "Fingerprint sha256 body =
     (if body = [] then Inl (PlainErr ''compose body is empty'')
      else Inr (hex_encode (sha256 body)))"

section \<open>Lemmas\<close>

lemma skip_repeats_set: "sorted (prev # vs) \<Longrightarrow> set (skip_repeats vs prev) = set vs - {prev}"
proof (induction vs prev rule: skip_repeats.induct)
  case (2 v vs prev)
  then show ?case by (cases "v = prev") (auto dest: order_antisym)
qed simp

lemma skip_repeats_sorted:
  "sorted (prev # vs) \<Longrightarrow> sorted (prev # skip_repeats vs prev) \<and> distinct (prev # skip_repeats vs prev)"
proof (induction vs prev rule: skip_repeats.induct)
  case (2 v vs prev)
  show ?case
  proof (cases "v = prev")
    case True
    with 2 show ?thesis by simp
  next
    case False
    with "2.prems" have "sorted (v # vs)" "prev < v" by auto
    with 2 False show ?thesis by (auto dest: order_less_le_trans)
  qed
qed simp

lemma compose_normalizeNames_eq:
  "compose_normalizeNames values = sorted_list_of_set (set values - {''''})"
proof -
  have srt: "sorted ('''' # sort values)" by simp
  have "strictly_sorted (skip_repeats (sort values) '''')"
    using skip_repeats_sorted [OF srt] by (simp add: strictly_sorted_def)
  moreover have "set (skip_repeats (sort values) '''') = set values - {''''}"
    using skip_repeats_set [OF srt] by simp
  ultimately have "skip_repeats (sort values) '''' = sorted_list_of_set (set values - {''''})"
    by (intro strictly_sorted_unique) (simp_all add: strictly_sorted_def)
  then show ?thesis by (simp add: compose_normalizeNames_def)
qed

text \<open>What a reference resolves to, and when it does.\<close>

definition ref_ok :: "string gmap \<Rightarrow> string \<Rightarrow> bool" where
  "ref_ok table source \<longleftrightarrow> source \<noteq> '''' \<and> mget table source \<noteq> None"

definition resolved :: "string gmap \<Rightarrow> string \<Rightarrow> string" where
  "resolved table source =
     (case mget table source of
        Some name \<Rightarrow> (if name = '''' then source else name)
      | None \<Rightarrow> source)"

lemma resolve_loop_ok:
  "list_all (ref_ok table) refs \<Longrightarrow>
     resolve_loop kind table refs names = Inr (compose_normalizeNames (names @ map (resolved table) refs))"
  by (induction refs arbitrary: names) (auto simp: ref_ok_def resolved_def)

lemma resolve_loop_bad:
  "\<not> list_all (ref_ok table) refs \<Longrightarrow> \<exists>err. resolve_loop kind table refs names = Inl err"
  by (induction refs arbitrary: names) (auto simp: ref_ok_def split: option.splits)

lemma resolved_nonempty: "ref_ok table source \<Longrightarrow> resolved table source \<noteq> ''''"
  by (auto simp: ref_ok_def resolved_def split: option.splits)

definition resolved_names :: "string gmap \<Rightarrow> string list \<Rightarrow> string list" where
  "resolved_names table refs = sorted_list_of_set (resolved table ` set refs)"

lemma normalize_resolved:
  assumes "list_all (ref_ok table) refs"
  shows "compose_normalizeNames (map (resolved table) refs) = resolved_names table refs"
proof -
  have "'''' \<notin> resolved table ` set refs"
    using assms resolved_nonempty by (fastforce simp: list_all_iff)
  then show ?thesis by (simp add: compose_normalizeNames_eq resolved_names_def)
qed

lemma resolveNames_ok:
  assumes "list_all (ref_ok table) refs"
  shows "resolveConfigNames refs table = Inr (resolved_names table refs)"
    and "resolveSecretNames refs table = Inr (resolved_names table refs)"
  using resolve_loop_ok [OF assms, of _ "[]"] normalize_resolved [OF assms]
  by (auto simp: resolveConfigNames_def resolveSecretNames_def resolved_names_def)

lemma resolveNames_bad:
  assumes "\<not> list_all (ref_ok table) refs"
  shows "\<exists>err. resolveConfigNames refs table = Inl err"
    and "\<exists>err. resolveSecretNames refs table = Inl err"
  using resolve_loop_bad [OF assms] assms
  by (auto simp: resolveConfigNames_def resolveSecretNames_def)

text \<open>The specification of one service: when it is accepted, and the desired service it gives.\<close>

definition service_ok :: "compose_project \<Rightarrow> compose_service \<Rightarrow> bool" where
  "service_ok project service \<longleftrightarrow> cps_Image service \<noteq> '''' \<and>
     list_all (ref_ok (cp_Configs project)) (cps_Configs service) \<and>
     list_all (ref_ok (cp_Secrets project)) (cps_Secrets service)"

definition desired_of :: "compose_project \<Rightarrow> compose_service \<Rightarrow> desired_service" where
  "desired_of project service =
     \<lparr>ds_Image = cps_Image service, ds_Mode = service_deploy_mode service,
      ds_Replicas = service_replicas service,
      ds_Configs = resolved_names (cp_Configs project) (cps_Configs service),
      ds_Secrets = resolved_names (cp_Secrets project) (cps_Secrets service)\<rparr>"

lemma parse_service_ok: "service_ok p s \<Longrightarrow> parse_service p n s = Inr (desired_of p s)"
  by (simp add: service_ok_def parse_service_def resolveNames_ok desired_of_def)

lemma parse_service_bad: "\<not> service_ok p s \<Longrightarrow> \<exists>err. parse_service p n s = Inl err"
  using resolveNames_bad by (fastforce simp: service_ok_def parse_service_def split: sum.splits)

lemma parse_loop_ok:
  assumes "list_all (service_ok p \<circ> snd) entries" "wf_gmap (m @ map (\<lambda>(n, s). (n, desired_of p s)) entries)"
  shows "parse_loop p entries m = Inr (m @ map (\<lambda>(n, s). (n, desired_of p s)) entries)"
  using assms
proof (induction entries arbitrary: m)
  case (Cons entry entries)
  obtain n s where entry: "entry = (n, s)" by fastforce
  with Cons.prems(2) have "mget m n = None"
    by (auto simp: wf_gmap_def map_of_eq_None_iff)
  with Cons entry show ?case by (simp add: parse_service_ok mput_fresh)
qed simp

lemma parse_loop_bad:
  "\<not> list_all (service_ok p \<circ> snd) entries \<Longrightarrow> \<exists>err. parse_loop p entries m = Inl err"
proof (induction entries arbitrary: m)
  case (Cons entry entries)
  obtain n s where entry: "entry = (n, s)" by fastforce
  show ?case
  proof (cases "service_ok p s")
    case True
    with Cons entry show ?thesis by (simp add: parse_service_ok)
  next
    case False
    then obtain err where "parse_service p n s = Inl err" using parse_service_bad by blast
    with entry show ?thesis by simp
  qed
qed simp

lemma hex_digit_inject: "m < 16 \<Longrightarrow> n < 16 \<Longrightarrow> hex_digit m = hex_digit n \<Longrightarrow> m = n"
proof -
  assume "m < 16" "n < 16" "hex_digit m = hex_digit n"
  then have "(of_char (hex_digit m) :: nat) = of_char (hex_digit n)" by simp
  with \<open>m < 16\<close> \<open>n < 16\<close> show "m = n" by (auto simp: hex_digit_def split: if_splits)
qed

lemma hex_encode_inject: "hex_encode a = hex_encode b \<Longrightarrow> a = b"
proof (induction a arbitrary: b)
  case Nil
  then show ?case by (cases b) (auto simp: hex_encode_def)
next
  case (Cons c cs)
  then obtain d ds where b: "b = d # ds" by (cases b) (auto simp: hex_encode_def)
  have lt: "(of_char x :: nat) div 16 < 16" for x :: char
    using nat_of_char_less_256 [of x] by linarith
  have "hex_digit (of_char c div 16) = hex_digit (of_char d div 16)"
    "hex_digit (of_char c mod 16) = hex_digit (of_char d mod 16)" and tl: "hex_encode cs = hex_encode ds"
    using Cons.prems b by (auto simp: hex_encode_def)
  then have "(of_char c :: nat) div 16 = of_char d div 16" "(of_char c :: nat) mod 16 = of_char d mod 16"
    using lt [of c] lt [of d] by (auto intro!: hex_digit_inject)
  then have "(of_char c :: nat) = of_char d" by (metis div_mult_mod_eq)
  then have "c = d" by simp
  with b tl Cons.IH show ?case by blast
qed

section \<open>Properties\<close>

text \<open>
  C29. \<open>ParseDesiredState\<close> is exact on what the loader returns. It succeeds exactly when there is a
  service and every service has an image and only references with a source that is declared; then
  each service keeps its image, its deploy mode defaults to \<open>replicated\<close>, its replicas are 0 for
  global mode and otherwise the deploy count, the scale or 1, and its configs and secrets are the
  declared names (the source where a declaration has no name), sorted and without duplicates. So
  neither success nor the result depends on the order in which Go visits the services.
\<close>

theorem ParseDesiredState_spec:
  assumes "load body = Inr project" and "body \<noteq> []" and "wf_gmap (cp_Services project)"
  shows "if cp_Services project \<noteq> [] \<and> list_all (service_ok project \<circ> snd) (cp_Services project)
    then ParseDesiredState load body =
      Inr \<lparr>dst_Services = map (\<lambda>(n, s). (n, desired_of project s)) (cp_Services project)\<rparr>
    else \<exists>err. ParseDesiredState load body = Inl err"
proof -
  have "wf_gmap ([] @ map (\<lambda>(n, s). (n, desired_of project s)) (cp_Services project))"
    using assms(3) by (simp add: wf_gmap_def case_prod_beta comp_def)
  note ok = parse_loop_ok [OF _ this]
  show ?thesis
    using ok parse_loop_bad [of project "cp_Services project" "[]"] assms(1,2)
    by (auto simp: ParseDesiredState_def)
qed

theorem ParseDesiredState_spec_witness:
  "\<exists>st. ParseDesiredState (\<lambda>body. Inr \<lparr>cp_Services =
       [(''web'', \<lparr>cps_Image = ''nginx:1'', cps_Deploy = None, cps_Scale = Some 3,
                    cps_Configs = [''c2'', ''c1'', ''c2''], cps_Secrets = []\<rparr>)],
       cp_Configs = [(''c1'', ''''), (''c2'', ''conf'')], cp_Secrets = []\<rparr>) ''yaml'' = Inr st \<and>
     dst_Services st = [(''web'', \<lparr>ds_Image = ''nginx:1'', ds_Mode = ''replicated'',
       ds_Replicas = 3, ds_Configs = [''c1'', ''conf''], ds_Secrets = []\<rparr>)]"
  using ParseDesiredState_spec [where body = "''yaml''" and load = "\<lambda>body. Inr \<lparr>cp_Services =
       [(''web'', \<lparr>cps_Image = ''nginx:1'', cps_Deploy = None, cps_Scale = Some 3,
                    cps_Configs = [''c2'', ''c1'', ''c2''], cps_Secrets = []\<rparr>)],
       cp_Configs = [(''c1'', ''''), (''c2'', ''conf'')], cp_Secrets = []\<rparr>", OF refl]
  by (simp add: wf_gmap_def service_ok_def ref_ok_def desired_of_def resolved_names_def resolved_def
      service_deploy_mode_def service_replicas_def defaultDeployMode_def globalDeployMode_def
      insert_Diff_if)

text \<open>
  \<open>Fingerprint\<close> refuses an empty body and otherwise loses nothing of the digest: two bodies
  have the same fingerprint exactly when they have the same SHA-256 digest, whatever the hash.
\<close>

theorem Fingerprint_faithful:
  "(Fingerprint sha256 a = Fingerprint sha256 b) =
     (if a = [] \<or> b = [] then a = [] \<and> b = [] else sha256 a = sha256 b)"
  using hex_encode_inject [of "sha256 a" "sha256 b"] by (auto simp: Fingerprint_def)

end
