(* ===== verification/Swarm_State.thy ===== *)
theory Swarm_State
  imports Go_Errors "HOL-Library.Word"
begin

text \<open>
  The actual state of a stack as \<open>internal/swarm\<close> collects it: the types of \<open>client.go\<close>,
  \<open>NormalizeImage\<close> of \<open>image.go\<close>, and the pure parts of \<open>docker_client.go\<close> (service names, mode
  and replica count, the summary of a service's tasks). The records for services and tasks hold
  the fields of the Docker SDK's structs that the code reads; a pointer that may be nil is an
  option, and a \<open>uint64\<close> is a 64-bit word.
\<close>

section \<open>Data\<close>

record actual_service =
  as_Name :: string
  as_Image :: string
  as_Mode :: string
  as_DesiredReplicas :: int
  as_RunningReplicas :: int
  as_Configs :: "string list"
  as_Secrets :: "string list"
  as_UpdateState :: string

record actual_state =
  act_Services :: "actual_service gmap option"

record container_spec =
  cs_Image :: string
  cs_Configs :: "string option list"
  cs_Secrets :: "string option list"

record service_mode =
  sm_Replicated :: "64 word option option"
  sm_Global :: bool
  sm_ReplicatedJob :: bool
  sm_GlobalJob :: bool

record swarm_service =
  svc_ID :: string
  svc_Name :: string
  svc_Mode :: service_mode
  svc_Container :: "container_spec option"
  svc_DesiredTasks :: "64 word option"
  svc_UpdateState :: "string option"

record swarm_task =
  task_ID :: string
  task_State :: string
  task_Container :: "container_spec option"

section \<open>Image references\<close>

definition digest_mark :: string where
  "digest_mark = ''@sha256:''"

definition NormalizeImage :: "string \<Rightarrow> string" where
  "NormalizeImage img =
     (case str_index img digest_mark of
        Some idx \<Rightarrow> take idx img
      | None \<Rightarrow> img)"

lemma NormalizeImage_no_digest [simp]:
  "\<not> Contains img digest_mark \<Longrightarrow> NormalizeImage img = img"
  by (simp add: NormalizeImage_def Contains_def)

text \<open>The mark starts with a character that does not occur in its rest, so two occurrences
  never overlap.\<close>

lemma digest_mark_no_overlap:
  assumes "HasPrefix (drop j (base @ digest_mark @ d)) digest_mark" "j < length base"
  shows "Contains base digest_mark"
proof -
  let ?s = "base @ digest_mark @ d"
  obtain t where t: "drop j ?s = digest_mark @ t" using assms(1) by (auto simp: HasPrefix_iff)
  have eq: "drop j base @ digest_mark @ d = digest_mark @ t" using t assms(2) by simp
  then obtain us where "drop j base @ us = digest_mark \<and> digest_mark @ d = us @ t \<or>
      drop j base = digest_mark @ us \<and> us @ digest_mark @ d = t"
    by (auto simp: append_eq_append_conv2)
  then show ?thesis
  proof
    assume "drop j base = digest_mark @ us \<and> us @ digest_mark @ d = t"
    then have "base = take j base @ digest_mark @ us" by (metis append_take_drop_id)
    then show ?thesis unfolding Contains_iff by blast
  next
    assume a: "drop j base @ us = digest_mark \<and> digest_mark @ d = us @ t"
    from assms(2) obtain c cs where base: "drop j base = c # cs"
      by (cases "drop j base") auto
    show ?thesis
    proof (cases us)
      case Nil
      with a have "drop j base = digest_mark" by simp
      then have "base = take j base @ digest_mark @ []" by (metis append_take_drop_id append_Nil2)
      then show ?thesis unfolding Contains_iff by blast
    next
      case (Cons u us')
      with a have "u = CHR ''@''" by (simp add: digest_mark_def)
      moreover from a base Cons have "u \<in> set (tl digest_mark)"
        by (metis append_Cons in_set_conv_decomp list.sel(3))
      ultimately show ?thesis by (simp add: digest_mark_def)
    qed
  qed
qed

lemma NormalizeImage_digest:
  assumes "\<not> Contains base digest_mark"
  shows "NormalizeImage (base @ digest_mark @ d) = base"
proof -
  have "\<not> HasPrefix (drop j (base @ digest_mark @ d)) digest_mark" if "j < length base" for j
    using digest_mark_no_overlap [OF _ that] assms by blast
  then have "str_index (base @ digest_mark @ d) digest_mark = Some (length base)"
    by (simp add: str_index_Some)
  then show ?thesis by (simp add: NormalizeImage_def)
qed

lemma NormalizeImage_clean: "\<not> Contains (NormalizeImage img) digest_mark"
proof (cases "str_index img digest_mark")
  case None
  then show ?thesis by (simp add: NormalizeImage_def Contains_def)
next
  case (Some i)
  show ?thesis
  proof
    assume "Contains (NormalizeImage img) digest_mark"
    then obtain u v where uv: "take i img = u @ digest_mark @ v"
      using Some by (auto simp: NormalizeImage_def Contains_iff)
    then have "img = u @ digest_mark @ v @ drop i img"
      by (metis append_assoc append_take_drop_id)
    then have "drop (length u) img = digest_mark @ v @ drop i img"
      by (metis append_eq_conv_conj)
    then have "HasPrefix (drop (length u) img) digest_mark" by simp
    moreover have "length u < i"
    proof -
      have "length u + length digest_mark \<le> length (take i img)" using uv by simp
      then show ?thesis by (simp add: digest_mark_def)
    qed
    ultimately show False using Some by (auto simp: str_index_Some)
  qed
qed

section \<open>Names, mode and replicas\<close>

definition normalizeServiceName :: "string \<Rightarrow> string \<Rightarrow> string" where
  "normalizeServiceName name stackName =
     (if stackName = '''' then name
      else let prefix = stackName @ ''_'' in
        if HasPrefix name prefix then TrimPrefix name prefix else name)"

definition desired_tasks :: "swarm_service \<Rightarrow> int" where
  "desired_tasks service = (case svc_DesiredTasks service of None \<Rightarrow> 0 | Some n \<Rightarrow> sint n)"

definition serviceModeAndReplicas :: "swarm_service \<Rightarrow> string \<times> int" where
  "serviceModeAndReplicas service =
     (let m = svc_Mode service in
      case sm_Replicated m of
        Some (Some replicas) \<Rightarrow> (''replicated'', sint replicas)
      | Some None \<Rightarrow> (''replicated'', desired_tasks service)
      | None \<Rightarrow>
          if sm_Global m then (''global'', desired_tasks service)
          else if sm_ReplicatedJob m then (''replicated-job'', desired_tasks service)
          else if sm_GlobalJob m then (''global-job'', desired_tasks service)
          else (''unknown'', desired_tasks service))"

lemma serviceModeAndReplicas_bounds: "in_int64 (snd (serviceModeAndReplicas service))"
proof -
  have "in_int64 (sint (n :: 64 word))" for n
    using sint_greater_eq [of n] sint_lt [of n] by (simp add: in_int64_def)
  then show ?thesis
    by (auto simp: serviceModeAndReplicas_def desired_tasks_def Let_def in_int64_def
        split: option.splits)
qed

section \<open>The tasks of a service\<close>

text \<open>\<open>normalizeNames\<close> of \<open>docker_client.go\<close>: the keys of a Go set, sorted.\<close>

definition swarm_normalizeNames :: "unit gmap \<Rightarrow> string list" where
  "swarm_normalizeNames values = (if values = [] then [] else sort (mkeys values))"

text \<open>The inner loops: nil references and empty names are skipped.\<close>

fun add_names :: "string option list \<Rightarrow> unit gmap \<Rightarrow> unit gmap" where
  "add_names [] names = names"
| "add_names (None # refs) names = add_names refs names"
| "add_names (Some n # refs) names =
     (if n = '''' then add_names refs names else add_names refs (mput n () names))"

fun summarize_loop ::
  "swarm_task list \<Rightarrow> int \<Rightarrow> unit gmap \<Rightarrow> unit gmap \<Rightarrow> int \<times> unit gmap \<times> unit gmap" where
  "summarize_loop [] running configs secrets = (running, configs, secrets)"
| "summarize_loop (task # tasks) running configs secrets =
     (if task_State task \<noteq> ''running'' then summarize_loop tasks running configs secrets
      else case task_Container task of
        None \<Rightarrow> summarize_loop tasks (running + 1) configs secrets
      | Some spec \<Rightarrow> summarize_loop tasks (running + 1)
          (add_names (cs_Configs spec) configs) (add_names (cs_Secrets spec) secrets))"

definition summarizeTasks :: "swarm_task list \<Rightarrow> int \<times> string list \<times> string list" where
  "summarizeTasks tasks =
     (case summarize_loop tasks 0 [] [] of
        (running, configs, secrets) \<Rightarrow>
          (running, swarm_normalizeNames configs, swarm_normalizeNames secrets))"

text \<open>What the summary promises: the names that running tasks carry.\<close>

definition running_names :: "(container_spec \<Rightarrow> string option list) \<Rightarrow> swarm_task list \<Rightarrow> string set"
  where
  "running_names field tasks =
     {n. n \<noteq> '''' \<and> (\<exists>t spec. t \<in> set tasks \<and> task_State t = ''running'' \<and>
          task_Container t = Some spec \<and> Some n \<in> set (field spec))}"

lemma swarm_normalizeNames_eq:
  assumes "wf_gmap m"
  shows "swarm_normalizeNames m = sorted_list_of_set (dom (mget m))"
proof -
  have "sort (mkeys m) = sorted_list_of_set (set (mkeys m))"
    using assms by (simp add: wf_gmap_def sorted_list_of_set_sort_remdups distinct_remdups_id
        del: set_map)
  then show ?thesis by (simp add: swarm_normalizeNames_def mkeys_dom del: set_map)
qed

lemma add_names_wf [simp, intro]: "wf_gmap m \<Longrightarrow> wf_gmap (add_names refs m)"
  by (induction refs m rule: add_names.induct) auto

lemma add_names_dom:
  "dom (mget (add_names refs m)) = dom (mget m) \<union> {n. n \<noteq> '''' \<and> Some n \<in> set refs}"
  by (induction refs m rule: add_names.induct) (auto simp: mget_mput_fun)

lemma running_names_Nil [simp]: "running_names field [] = {}"
  by (simp add: running_names_def)

lemma running_names_skip [simp]:
  "task_State t \<noteq> ''running'' \<Longrightarrow> running_names field (t # ts) = running_names field ts"
  "task_Container t = None \<Longrightarrow> running_names field (t # ts) = running_names field ts"
  by (auto simp: running_names_def)

lemma running_names_step [simp]:
  "task_State t = ''running'' \<Longrightarrow> task_Container t = Some spec \<Longrightarrow>
     running_names field (t # ts) =
       {n. n \<noteq> '''' \<and> Some n \<in> set (field spec)} \<union> running_names field ts"
  by (auto simp: running_names_def)

lemma summarize_loop_spec:
  assumes "wf_gmap configs" "wf_gmap secrets"
    and "summarize_loop tasks running configs secrets = (running', configs', secrets')"
  shows "running' = running + int (length (filter (\<lambda>t. task_State t = ''running'') tasks)) \<and>
    wf_gmap configs' \<and> wf_gmap secrets' \<and>
    dom (mget configs') = dom (mget configs) \<union> running_names cs_Configs tasks \<and>
    dom (mget secrets') = dom (mget secrets) \<union> running_names cs_Secrets tasks"
  using assms
proof (induction tasks running configs secrets rule: summarize_loop.induct)
  case (2 task tasks running configs secrets)
  show ?case
  proof (cases "task_State task = ''running''")
    case False
    with 2 show ?thesis by simp
  next
    case running: True
    show ?thesis
    proof (cases "task_Container task")
      case None
      with 2 running show ?thesis by simp
    next
      case (Some spec)
      with 2 running show ?thesis by (simp add: add_names_dom Un_assoc)
    qed
  qed
qed simp_all

lemma summarizeTasks_eq:
  "summarizeTasks tasks =
     (int (length (filter (\<lambda>t. task_State t = ''running'') tasks)),
      sorted_list_of_set (running_names cs_Configs tasks),
      sorted_list_of_set (running_names cs_Secrets tasks))"
proof -
  obtain r c s where loop: "summarize_loop tasks 0 [] [] = (r, c, s)"
    by (metis prod_cases3)
  note spec = summarize_loop_spec [OF wf_gmap_Nil wf_gmap_Nil loop]
  then show ?thesis by (simp add: summarizeTasks_def loop swarm_normalizeNames_eq)
qed

section \<open>Properties\<close>

text \<open>
  \<open>NormalizeImage\<close> returns the reference without its digest: the result carries no
  \<open>@sha256:\<close> mark, and the reference is either the result itself or the result followed by a
  mark and a digest. Since a reference splits in this way in one manner only, two references
  compare equal after normalisation exactly when they differ in the digest alone.
\<close>

theorem NormalizeImage_strips_digest:
  "\<not> Contains (NormalizeImage img) digest_mark \<and>
   (img = NormalizeImage img \<or> (\<exists>digest. img = NormalizeImage img @ digest_mark @ digest))"
proof (cases "str_index img digest_mark")
  case None
  then show ?thesis by (simp add: NormalizeImage_def Contains_def)
next
  case (Some i)
  then obtain t where "drop i img = digest_mark @ t" by (auto simp: str_index_Some HasPrefix_iff)
  then have "img = take i img @ digest_mark @ t" by (metis append_take_drop_id)
  moreover from Some have "NormalizeImage img = take i img" by (simp add: NormalizeImage_def)
  ultimately show ?thesis using NormalizeImage_clean [of img] by metis
qed

text \<open>
  \<open>summarizeTasks\<close> counts exactly the tasks in state \<open>running\<close> and returns the names of the
  configs and of the secrets those tasks carry, each sorted and without duplicates; tasks in
  another state, nil references and empty names contribute nothing. Nothing depends on the order
  in which Go visits the two sets.
\<close>

theorem summarizeTasks_spec:
  "summarizeTasks tasks =
     (int (length (filter (\<lambda>t. task_State t = ''running'') tasks)),
      sorted_list_of_set (running_names cs_Configs tasks),
      sorted_list_of_set (running_names cs_Secrets tasks))"
  by (rule summarizeTasks_eq)

end
