(* ===== verification/Health.thy ===== *)
theory Health
  imports Compose_State Swarm_State
begin

text \<open>
  \<open>internal/health\<close>: the health of each service and of a stack, from the desired and the actual
  state. \<open>ServiceStatus\<close> and \<open>DriftKind\<close> are string types in Go, and their values here are the same
  strings, the empty one (no status) included.
\<close>

section \<open>Data\<close>

definition StatusOK :: string where
  "StatusOK = ''OK''"

definition StatusDegraded :: string where
  "StatusDegraded = ''DEGRADED''"

definition StatusFailed :: string where
  "StatusFailed = ''FAILED''"

definition DriftMissing :: string where
  "DriftMissing = ''MISSING''"

definition DriftExtra :: string where
  "DriftExtra = ''EXTRA''"

definition DriftExtraService :: string where
  "DriftExtraService = ''EXTRA_SERVICE''"

lemma status_distinct [simp]:
  "StatusOK \<noteq> StatusDegraded" "StatusDegraded \<noteq> StatusOK"
  "StatusOK \<noteq> StatusFailed" "StatusFailed \<noteq> StatusOK"
  "StatusDegraded \<noteq> StatusFailed" "StatusFailed \<noteq> StatusDegraded"
  "StatusOK \<noteq> ''''" "StatusDegraded \<noteq> ''''" "StatusFailed \<noteq> ''''"
  "'''' \<noteq> StatusOK" "'''' \<noteq> StatusDegraded" "'''' \<noteq> StatusFailed"
  by (simp_all add: StatusOK_def StatusDegraded_def StatusFailed_def)

lemma drift_distinct [simp]: "DriftMissing \<noteq> DriftExtra" "DriftExtra \<noteq> DriftMissing"
  by (simp_all add: DriftMissing_def DriftExtra_def)

record drift_detail =
  dd_Kind :: string
  dd_Resource :: string
  dd_Name :: string

record service_health =
  sh_Name :: string
  sh_Status :: string
  sh_Reasons :: "string list"
  sh_Drift :: "drift_detail list"
  sh_DesiredImage :: string
  sh_ActualImage :: string
  sh_DesiredReplicas :: int
  sh_RunningReplicas :: int
  sh_ConsecutiveCycles :: int
  sh_LastNotifiedStatus :: string

text \<open>The zero value of the struct, which a failed map lookup yields.\<close>

definition zero_health :: service_health where
  "zero_health = \<lparr>sh_Name = '''', sh_Status = '''', sh_Reasons = [], sh_Drift = [],
     sh_DesiredImage = '''', sh_ActualImage = '''', sh_DesiredReplicas = 0,
     sh_RunningReplicas = 0, sh_ConsecutiveCycles = 0, sh_LastNotifiedStatus = ''''\<rparr>"

record stack_health =
  stk_Status :: string
  stk_Services :: "service_health gmap"

section \<open>Severity\<close>

definition severity :: "string \<Rightarrow> nat" where
  "severity status =
     (if status = StatusFailed then 2 else if status = StatusDegraded then 1 else 0)"

definition worsenStatus :: "string \<Rightarrow> string \<Rightarrow> string" where
  "worsenStatus current nxt = (if severity nxt > severity current then nxt else current)"

section \<open>Drift\<close>

definition diffNames :: "string list \<Rightarrow> string list \<Rightarrow> string list \<times> string list" where
  "diffNames desired actual =
     (if desired = [] \<and> actual = [] then ([], [])
      else (sort (filter (\<lambda>name. name \<notin> set actual) desired),
            sort (filter (\<lambda>name. name \<notin> set desired) actual)))"

fun drift_loop ::
  "string \<Rightarrow> string \<Rightarrow> string \<Rightarrow> string list \<Rightarrow> string list \<times> drift_detail list \<Rightarrow>
   string list \<times> drift_detail list" where
  "drift_loop kind label resource [] acc = acc"
| "drift_loop kind label resource (name # names) (reasons, drift) =
     drift_loop kind label resource names
       (reasons @ [label @ '' '' @ resource @ '': '' @ name],
        drift @ [\<lparr>dd_Kind = kind, dd_Resource = resource, dd_Name = name\<rparr>])"

definition applyDrift ::
  "string list \<times> drift_detail list \<Rightarrow> string \<Rightarrow> string list \<Rightarrow> string list \<Rightarrow>
   string list \<times> drift_detail list" where
  "applyDrift acc resource desired actual =
     (case diffNames desired actual of
        (missing, extra) \<Rightarrow>
          drift_loop DriftExtra ''extra'' resource extra
            (drift_loop DriftMissing ''missing'' resource missing acc))"

section \<open>One service\<close>

definition check_image :: "desired_service \<Rightarrow> actual_service \<Rightarrow> service_health \<Rightarrow> service_health" where
  "check_image desired actual health =
     (let desiredImage = NormalizeImage (ds_Image desired);
          actualImage = NormalizeImage (as_Image actual);
          health = health\<lparr>sh_DesiredImage := desiredImage, sh_ActualImage := actualImage\<rparr>
      in if desiredImage \<noteq> actualImage then
           health\<lparr>sh_Status := worsenStatus (sh_Status health) StatusDegraded,
             sh_Reasons := sh_Reasons health @
               [''image mismatch: want '' @ desiredImage @ '' got '' @ actualImage]\<rparr>
         else health)"

definition desired_count :: "desired_service \<Rightarrow> actual_service \<Rightarrow> int" where
  "desired_count desired actual =
     (if ds_Mode desired = ''global'' then as_DesiredReplicas actual else ds_Replicas desired)"

definition update_in_progress :: "actual_service \<Rightarrow> bool" where
  "update_in_progress actual \<longleftrightarrow>
     as_UpdateState actual = ''updating'' \<or> as_UpdateState actual = ''rollback_started''"

definition worsen :: "string \<Rightarrow> string \<Rightarrow> service_health \<Rightarrow> service_health" where
  "worsen status reason health =
     health\<lparr>sh_Status := worsenStatus (sh_Status health) status,
       sh_Reasons := sh_Reasons health @ [reason]\<rparr>"

definition check_replicas :: "desired_service \<Rightarrow> actual_service \<Rightarrow> service_health \<Rightarrow> service_health" where
  "check_replicas desired actual health =
     (let desiredReplicas = desired_count desired actual;
          running = as_RunningReplicas actual;
          health = health\<lparr>sh_DesiredReplicas := desiredReplicas, sh_RunningReplicas := running\<rparr>
      in if desiredReplicas > 0 then
           (if running = 0 then
              worsen StatusFailed (''no running replicas (desired '' @ itoa desiredReplicas @ '')'') health
            else if update_in_progress actual then health
            else if running < desiredReplicas then
              worsen StatusDegraded
                (''replicas running '' @ itoa running @ ''/'' @ itoa desiredReplicas) health
            else if running > desiredReplicas then
              worsen StatusDegraded
                (''replicas running '' @ itoa running @ ''/'' @ itoa desiredReplicas) health
            else health)
         else health)"

definition check_drift :: "desired_service \<Rightarrow> actual_service \<Rightarrow> service_health \<Rightarrow> service_health" where
  "check_drift desired actual health =
     (let acc1 = applyDrift (sh_Reasons health, sh_Drift health) ''config''
            (ds_Configs desired) (as_Configs actual);
          acc2 = applyDrift acc1 ''secret'' (ds_Secrets desired) (as_Secrets actual)
      in health\<lparr>sh_Reasons := fst acc2, sh_Drift := snd acc2\<rparr>)"

fun drift_status :: "drift_detail list \<Rightarrow> string \<Rightarrow> string" where
  "drift_status [] status = status"
| "drift_status (drift # rest) status =
     drift_status rest
       (if dd_Kind drift = DriftMissing then worsenStatus status StatusFailed
        else if dd_Kind drift = DriftExtra then worsenStatus status StatusDegraded
        else status)"

definition evaluateService :: "string \<Rightarrow> desired_service \<Rightarrow> actual_service \<Rightarrow> service_health" where
  "evaluateService name desired actual =
     (let health = zero_health\<lparr>sh_Name := name, sh_Status := StatusOK\<rparr>;
          health = check_image desired actual health;
          health = check_replicas desired actual health;
          health = check_drift desired actual health
      in health\<lparr>sh_Status := drift_status (sh_Drift health) (sh_Status health)\<rparr>)"

section \<open>The stack\<close>

definition missing_service :: "string \<Rightarrow> desired_service \<Rightarrow> service_health" where
  "missing_service name desired =
     zero_health\<lparr>sh_Name := name, sh_Status := StatusFailed, sh_Reasons := [''missing service''],
       sh_DesiredImage := NormalizeImage (ds_Image desired),
       sh_DesiredReplicas := ds_Replicas desired\<rparr>"

definition extra_service :: "string \<Rightarrow> actual_service \<Rightarrow> service_health" where
  "extra_service name actual =
     zero_health\<lparr>sh_Name := name, sh_Status := StatusDegraded, sh_Reasons := [''extra service''],
       sh_ActualImage := NormalizeImage (as_Image actual),
       sh_DesiredReplicas := as_DesiredReplicas actual,
       sh_RunningReplicas := as_RunningReplicas actual,
       sh_Drift := [\<lparr>dd_Kind = DriftExtraService, dd_Resource = ''service'',
         dd_Name = as_Name actual\<rparr>]\<rparr>"

definition put_health :: "string \<Rightarrow> service_health \<Rightarrow> stack_health \<Rightarrow> stack_health" where
  "put_health name health result =
     \<lparr>stk_Status = worsenStatus (stk_Status result) (sh_Status health),
      stk_Services = mput name health (stk_Services result)\<rparr>"

fun desired_loop ::
  "actual_service gmap \<Rightarrow> (string \<times> desired_service) list \<Rightarrow> stack_health \<Rightarrow> stack_health" where
  "desired_loop actual [] result = result"
| "desired_loop actual ((name, desiredService) # rest) result =
     desired_loop actual rest
       (put_health name
         (case mget actual name of
            None \<Rightarrow> missing_service name desiredService
          | Some actualService \<Rightarrow> evaluateService name desiredService actualService) result)"

fun extra_loop ::
  "desired_service gmap \<Rightarrow> (string \<times> actual_service) list \<Rightarrow> stack_health \<Rightarrow> stack_health" where
  "extra_loop desired [] result = result"
| "extra_loop desired ((name, actualService) # rest) result =
     extra_loop desired rest
       (if mget desired name \<noteq> None then result
        else put_health name (extra_service name actualService) result)"

definition actual_services :: "actual_state option \<Rightarrow> actual_service gmap" where
  "actual_services actual = (case actual of None \<Rightarrow> [] | Some a \<Rightarrow> nilmap (act_Services a))"

definition EvaluateStackHealth ::
  "desired_state \<Rightarrow> actual_state option \<Rightarrow> bool \<Rightarrow> stack_health" where
  "EvaluateStackHealth desired actual stackScoped =
     (let services = actual_services actual;
          result = desired_loop services (dst_Services desired)
                     \<lparr>stk_Status = StatusOK, stk_Services = []\<rparr>
      in if stackScoped then extra_loop (dst_Services desired) services result else result)"

section \<open>Levels\<close>

text \<open>
  The specification's view of a status: a level in a linear order, of which \<open>worsenStatus\<close> takes
  the maximum.
\<close>

datatype health_level = LevelOK | LevelDegraded | LevelFailed

fun level_rank :: "health_level \<Rightarrow> nat" where
  "level_rank LevelOK = 0"
| "level_rank LevelDegraded = 1"
| "level_rank LevelFailed = 2"

instantiation health_level :: linorder
begin

definition less_eq_health_level :: "health_level \<Rightarrow> health_level \<Rightarrow> bool" where
  "less_eq_health_level a b \<longleftrightarrow> level_rank a \<le> level_rank b"

definition less_health_level :: "health_level \<Rightarrow> health_level \<Rightarrow> bool" where
  "less_health_level a b \<longleftrightarrow> level_rank a < level_rank b"

instance
proof
  fix a b :: health_level
  assume "a \<le> b" "b \<le> a"
  then show "a = b" by (cases a; cases b) (simp_all add: less_eq_health_level_def)
qed (auto simp: less_eq_health_level_def less_health_level_def)

end

lemmas level_order = less_eq_health_level_def less_health_level_def

definition level :: "string \<Rightarrow> health_level" where
  "level status =
     (if status = StatusFailed then LevelFailed
      else if status = StatusDegraded then LevelDegraded else LevelOK)"

fun status_of :: "health_level \<Rightarrow> string" where
  "status_of LevelOK = StatusOK"
| "status_of LevelDegraded = StatusDegraded"
| "status_of LevelFailed = StatusFailed"

lemma level_status_of [simp]: "level (status_of l) = l"
  by (cases l) (simp_all add: level_def)

lemma level_StatusOK [simp]: "level StatusOK = LevelOK" "level StatusDegraded = LevelDegraded"
  "level StatusFailed = LevelFailed"
  by (simp_all add: level_def)

lemma status_of_inject [simp]: "status_of a = status_of b \<longleftrightarrow> a = b"
  by (metis level_status_of)

lemma status_of_OK_iff [simp]: "status_of l = StatusOK \<longleftrightarrow> l = LevelOK"
  by (cases l) simp_all

lemma LevelOK_least [simp]: "LevelOK \<le> l" "max LevelOK l = l" "max l LevelOK = l"
  by (cases l; simp add: level_order max_def)+

lemma LevelFailed_greatest [simp]: "l \<le> LevelFailed" "max LevelFailed l = LevelFailed"
    "max l LevelFailed = LevelFailed"
  by (cases l; simp add: level_order max_def)+

lemma max_OK_iff [simp]: "max a b = LevelOK \<longleftrightarrow> a = LevelOK \<and> b = LevelOK"
  by (cases a; cases b) (simp_all add: level_order max_def)

lemma severity_rank: "severity s = level_rank (level s)"
  by (simp add: severity_def level_def)

lemma level_rank_inject [simp]: "level_rank a = level_rank b \<longleftrightarrow> a = b"
  by (cases a; cases b) simp_all

lemma worsenStatus_level: "level (worsenStatus a b) = max (level a) (level b)"
  by (auto simp: worsenStatus_def severity_rank max_def level_order)

lemma worsenStatus_status_of: "worsenStatus (status_of a) (status_of b) = status_of (max a b)"
  by (auto simp: worsenStatus_def severity_rank max_def level_order)

lemma worsenStatus_consts [simp]:
  "worsenStatus (status_of l) StatusDegraded = status_of (max l LevelDegraded)"
  "worsenStatus (status_of l) StatusFailed = status_of LevelFailed"
  using worsenStatus_status_of [of l LevelDegraded] worsenStatus_status_of [of l LevelFailed]
  by simp_all

section \<open>Drift\<close>

lemma diffNames_sets:
  "set (fst (diffNames desired actual)) = set desired - set actual"
  "set (snd (diffNames desired actual)) = set actual - set desired"
  by (auto simp: diffNames_def)

definition drift_entry :: "string \<Rightarrow> string \<Rightarrow> string \<Rightarrow> drift_detail" where
  "drift_entry kind resource name = \<lparr>dd_Kind = kind, dd_Resource = resource, dd_Name = name\<rparr>"

lemma drift_loop_eq:
  "drift_loop kind label resource names (reasons, drift) =
     (reasons @ map (\<lambda>name. label @ '' '' @ resource @ '': '' @ name) names,
      drift @ map (drift_entry kind resource) names)"
  by (induction names arbitrary: reasons drift) (simp_all add: drift_entry_def)

definition resource_drift :: "string \<Rightarrow> string list \<Rightarrow> string list \<Rightarrow> drift_detail list" where
  "resource_drift resource desired actual =
     map (drift_entry DriftMissing resource) (fst (diffNames desired actual)) @
     map (drift_entry DriftExtra resource) (snd (diffNames desired actual))"

definition drift_reason :: "drift_detail \<Rightarrow> string" where
  "drift_reason d = (if dd_Kind d = DriftMissing then ''missing'' else ''extra'') @ '' '' @
     dd_Resource d @ '': '' @ dd_Name d"

lemma applyDrift_eq:
  "applyDrift (reasons, drift) resource desired actual =
     (reasons @ map drift_reason (resource_drift resource desired actual),
      drift @ resource_drift resource desired actual)"
  by (simp add: applyDrift_def case_prod_beta drift_loop_eq resource_drift_def drift_reason_def
      drift_entry_def comp_def)

definition drift_level :: "drift_detail list \<Rightarrow> health_level" where
  "drift_level drift =
     (if list_ex (\<lambda>d. dd_Kind d = DriftMissing) drift then LevelFailed
      else if list_ex (\<lambda>d. dd_Kind d = DriftExtra) drift then LevelDegraded else LevelOK)"

lemma drift_level_Cons: "drift_level (d # ds) =
    max (if dd_Kind d = DriftMissing then LevelFailed
         else if dd_Kind d = DriftExtra then LevelDegraded else LevelOK) (drift_level ds)"
  by (auto simp: drift_level_def)

lemma drift_status_level: "drift_status drift (status_of l) = status_of (max l (drift_level drift))"
proof (induction drift arbitrary: l)
  case (Cons d ds)
  show ?case
    using Cons.IH [of LevelFailed] Cons.IH [of "max l LevelDegraded"] Cons.IH [of l]
    by (auto simp: drift_level_Cons max.assoc)
qed (simp add: drift_level_def)

definition service_drift :: "desired_service \<Rightarrow> actual_service \<Rightarrow> drift_detail list" where
  "service_drift desired actual =
     resource_drift ''config'' (ds_Configs desired) (as_Configs actual) @
     resource_drift ''secret'' (ds_Secrets desired) (as_Secrets actual)"

lemma check_drift_eq:
  "check_drift desired actual h =
     h\<lparr>sh_Reasons := sh_Reasons h @ map drift_reason (service_drift desired actual),
       sh_Drift := sh_Drift h @ service_drift desired actual\<rparr>"
  by (simp add: check_drift_def applyDrift_eq service_drift_def)

lemma resource_drift_kinds:
  "list_ex (\<lambda>d. dd_Kind d = DriftMissing) (resource_drift r desired actual) \<longleftrightarrow>
     \<not> set desired \<subseteq> set actual"
  "list_ex (\<lambda>d. dd_Kind d = DriftExtra) (resource_drift r desired actual) \<longleftrightarrow>
     \<not> set actual \<subseteq> set desired"
  unfolding list_ex_iff resource_drift_def drift_entry_def
  by (simp_all add: bex_Un diffNames_sets) blast+

section \<open>The specification of one service's level\<close>

definition replica_level :: "desired_service \<Rightarrow> actual_service \<Rightarrow> health_level" where
  "replica_level desired actual =
     (let n = desired_count desired actual; running = as_RunningReplicas actual in
      if n > 0 \<and> running = 0 then LevelFailed
      else if n > 0 \<and> \<not> update_in_progress actual \<and> running \<noteq> n then LevelDegraded
      else LevelOK)"

definition image_level :: "desired_service \<Rightarrow> actual_service \<Rightarrow> health_level" where
  "image_level desired actual =
     (if NormalizeImage (ds_Image desired) = NormalizeImage (as_Image actual) then LevelOK
      else LevelDegraded)"

definition service_level :: "desired_service \<Rightarrow> actual_service \<Rightarrow> health_level" where
  "service_level desired actual =
     (if \<not> set (ds_Configs desired) \<subseteq> set (as_Configs actual) \<or>
         \<not> set (ds_Secrets desired) \<subseteq> set (as_Secrets actual) \<or>
         (desired_count desired actual > 0 \<and> as_RunningReplicas actual = 0)
      then LevelFailed
      else if NormalizeImage (ds_Image desired) \<noteq> NormalizeImage (as_Image actual) \<or>
         \<not> set (as_Configs actual) \<subseteq> set (ds_Configs desired) \<or>
         \<not> set (as_Secrets actual) \<subseteq> set (ds_Secrets desired) \<or>
         (desired_count desired actual > 0 \<and> \<not> update_in_progress actual \<and>
          as_RunningReplicas actual \<noteq> desired_count desired actual)
      then LevelDegraded
      else LevelOK)"

lemma service_drift_level:
  "drift_level (service_drift desired actual) =
     (if \<not> set (ds_Configs desired) \<subseteq> set (as_Configs actual) \<or>
         \<not> set (ds_Secrets desired) \<subseteq> set (as_Secrets actual) then LevelFailed
      else if \<not> set (as_Configs actual) \<subseteq> set (ds_Configs desired) \<or>
         \<not> set (as_Secrets actual) \<subseteq> set (ds_Secrets desired) then LevelDegraded
      else LevelOK)"
  by (simp add: drift_level_def service_drift_def resource_drift_kinds)

lemma service_level_parts:
  "service_level desired actual =
     max (max (image_level desired actual) (replica_level desired actual))
       (drift_level (service_drift desired actual))"
  by (auto simp: service_level_def image_level_def replica_level_def service_drift_level Let_def)

lemma check_image_status:
  "sh_Status h = StatusOK \<Longrightarrow> sh_Status (check_image d a h) = status_of (image_level d a)"
  using worsenStatus_status_of [of LevelOK LevelDegraded]
  by (auto simp: check_image_def image_level_def Let_def)

lemma check_replicas_status:
  "sh_Status h = status_of l \<Longrightarrow>
     sh_Status (check_replicas d a h) = status_of (max l (replica_level d a))"
  by (auto simp: check_replicas_def replica_level_def worsen_def Let_def)

lemma check_frames [simp]:
  "sh_Drift (check_image d a h) = sh_Drift h" "sh_Drift (check_replicas d a h) = sh_Drift h"
  by (auto simp: check_image_def check_replicas_def worsen_def Let_def)

lemma evaluateService_status:
  "sh_Status (evaluateService name d a) = status_of (service_level d a)"
proof -
  let ?h = "check_replicas d a (check_image d a (zero_health\<lparr>sh_Name := name, sh_Status := StatusOK\<rparr>))"
  have "sh_Status ?h = status_of (max (image_level d a) (replica_level d a))"
    by (intro check_replicas_status check_image_status) simp
  moreover have "sh_Drift ?h = []" by (simp add: zero_health_def)
  ultimately show ?thesis
    by (simp add: evaluateService_def check_drift_eq drift_status_level service_level_parts Let_def)
qed

lemma evaluateService_drift: "sh_Drift (evaluateService name d a) = service_drift d a"
  by (simp add: evaluateService_def check_drift_eq zero_health_def Let_def)

lemma check_image_reasons:
  "sh_Reasons (check_image d a h) = [] \<longleftrightarrow> sh_Reasons h = [] \<and> image_level d a = LevelOK"
  by (auto simp: check_image_def image_level_def Let_def)

lemma check_replicas_reasons:
  "sh_Reasons (check_replicas d a h) = [] \<longleftrightarrow> sh_Reasons h = [] \<and> replica_level d a = LevelOK"
  by (auto simp: check_replicas_def replica_level_def worsen_def Let_def)

lemma service_drift_OK: "drift_level (service_drift d a) = LevelOK \<longleftrightarrow> service_drift d a = []"
proof -
  have "dd_Kind x = DriftMissing \<or> dd_Kind x = DriftExtra" if "x \<in> set (service_drift d a)" for x
    using that by (auto simp: service_drift_def resource_drift_def drift_entry_def)
  then show ?thesis by (cases "service_drift d a") (auto simp: drift_level_def)
qed

lemma evaluateService_reasons:
  "sh_Reasons (evaluateService name d a) = [] \<longleftrightarrow> service_level d a = LevelOK"
  by (simp add: evaluateService_def check_drift_eq check_replicas_reasons check_image_reasons
      service_level_parts service_drift_OK zero_health_def Let_def)

section \<open>The stack\<close>

definition verdict :: "actual_service gmap \<Rightarrow> string \<Rightarrow> desired_service \<Rightarrow> service_health" where
  "verdict actual name desired =
     (case mget actual name of
        None \<Rightarrow> missing_service name desired
      | Some a \<Rightarrow> evaluateService name desired a)"

definition worst :: "service_health gmap \<Rightarrow> health_level" where
  "worst services = fold max (map (\<lambda>(name, h). level (sh_Status h)) services) LevelOK"

lemma worst_append: "worst (m @ m') = fold max (map (\<lambda>(name, h). level (sh_Status h)) m') (worst m)"
  by (simp add: worst_def)

lemma worst_eq_Max: "worst services = Max (insert LevelOK ((\<lambda>(name, h). level (sh_Status h)) ` set services))"
  by (metis Max.set_eq_fold list.simps(15) set_map worst_def)

definition canonical :: "string \<Rightarrow> bool" where
  "canonical status \<longleftrightarrow> status = status_of (level status)"

lemma canonical_status_of [simp]: "canonical (status_of l)"
  by (simp add: canonical_def)

lemma canonical_consts [simp]: "canonical StatusOK" "canonical StatusDegraded" "canonical StatusFailed"
  by (simp_all add: canonical_def)

lemma verdict_canonical [simp]: "canonical (sh_Status (verdict actual name d))"
  by (simp add: verdict_def evaluateService_status missing_service_def split: option.split)

lemma extra_canonical [simp]: "canonical (sh_Status (extra_service name a))"
  by (simp add: extra_service_def)

text \<open>What the two loops keep: the status is the worst one collected so far.\<close>

definition stack_inv :: "stack_health \<Rightarrow> bool" where
  "stack_inv r \<longleftrightarrow> stk_Status r = status_of (worst (stk_Services r))"

lemma put_health_fresh:
  assumes "stack_inv r" "mget (stk_Services r) name = None" "canonical (sh_Status h)"
  shows "stack_inv (put_health name h r)"
    and "stk_Services (put_health name h r) = stk_Services r @ [(name, h)]"
proof -
  show services: "stk_Services (put_health name h r) = stk_Services r @ [(name, h)]"
    using assms(2) by (simp add: put_health_def mput_fresh)
  have "worsenStatus (status_of (worst (stk_Services r))) (sh_Status h) =
      status_of (max (level (sh_Status h)) (worst (stk_Services r)))"
    using assms(3) worsenStatus_status_of unfolding canonical_def by (metis max.commute)
  with assms(1) services show "stack_inv (put_health name h r)"
    by (simp add: stack_inv_def worst_append) (simp add: put_health_def)
qed

lemma desired_loop_spec:
  assumes "stack_inv r" "wf_gmap (stk_Services r @ map (\<lambda>(n, d). (n, verdict actual n d)) entries)"
  shows "stack_inv (desired_loop actual entries r) \<and>
    stk_Services (desired_loop actual entries r) =
      stk_Services r @ map (\<lambda>(n, d). (n, verdict actual n d)) entries"
  using assms
proof (induction entries arbitrary: r)
  case (Cons entry entries)
  obtain n d where entry: "entry = (n, d)" by fastforce
  with Cons.prems(2) have "mget (stk_Services r) n = None"
    by (auto simp: wf_gmap_def map_of_eq_None_iff)
  note put = put_health_fresh [OF Cons.prems(1) this verdict_canonical [of actual n d]]
  from Cons.IH [OF put(1)] Cons.prems(2) entry put(2) show ?case by (simp add: verdict_def)
qed simp

definition extras :: "desired_service gmap \<Rightarrow> actual_service gmap \<Rightarrow> service_health gmap" where
  "extras desired actual =
     map (\<lambda>(n, a). (n, extra_service n a)) (filter (\<lambda>e. mget desired (fst e) = None) actual)"

lemma extra_loop_spec:
  assumes "stack_inv r" "wf_gmap (stk_Services r @ extras desired entries)"
  shows "stack_inv (extra_loop desired entries r) \<and>
    stk_Services (extra_loop desired entries r) = stk_Services r @ extras desired entries"
  using assms
proof (induction entries arbitrary: r)
  case (Cons entry entries)
  obtain n a where entry: "entry = (n, a)" by fastforce
  show ?case
  proof (cases "mget desired n")
    case (Some d)
    with Cons entry show ?thesis by (simp add: extras_def)
  next
    case None
    with Cons.prems(2) entry have "mget (stk_Services r) n = None"
      by (auto simp: wf_gmap_def map_of_eq_None_iff extras_def)
    note put = put_health_fresh [OF Cons.prems(1) this extra_canonical [of n a]]
    from Cons.IH [OF put(1)] Cons.prems(2) entry None put(2) show ?thesis
      by (simp add: extras_def)
  qed
qed (simp add: extras_def)

lemma EvaluateStackHealth_eq:
  assumes "wf_gmap (dst_Services desired)" "wf_gmap (actual_services actual)"
  shows "stack_inv (EvaluateStackHealth desired actual scoped) \<and>
    wf_gmap (stk_Services (EvaluateStackHealth desired actual scoped)) \<and>
    stk_Services (EvaluateStackHealth desired actual scoped) =
      map (\<lambda>(n, d). (n, verdict (actual_services actual) n d)) (dst_Services desired) @
      (if scoped then extras (dst_Services desired) (actual_services actual) else [])"
proof -
  let ?a = "actual_services actual" and ?d = "dst_Services desired"
  let ?V = "map (\<lambda>(n, d). (n, verdict ?a n d)) ?d"
  let ?r = "desired_loop ?a ?d \<lparr>stk_Status = StatusOK, stk_Services = []\<rparr>"
  have keys: "mkeys ?V = mkeys ?d" by (simp add: case_prod_beta comp_def)
  then have V: "wf_gmap ?V" using assms(1) by (simp only: wf_gmap_def)
  have "mkeys (extras ?d ?a) = filter (\<lambda>n. mget ?d n = None) (mkeys ?a)"
    by (simp add: extras_def case_prod_beta comp_def filter_map)
  then have VE: "wf_gmap (?V @ extras ?d ?a)"
    using V assms(2) keys unfolding wf_gmap_def
    by (auto simp: map_of_eq_None_iff simp del: map_map)
  have "stack_inv \<lparr>stk_Status = StatusOK, stk_Services = []\<rparr>" by (simp add: stack_inv_def worst_def)
  from desired_loop_spec [OF this] V have r: "stack_inv ?r" "stk_Services ?r = ?V" by simp_all
  with extra_loop_spec [OF r(1), of ?d ?a] VE V show ?thesis
    by (simp add: EvaluateStackHealth_def Let_def)
qed

section \<open>Properties\<close>

text \<open>
  The status that the rules of \<open>TASKS.md\<close> give (SS-009, with the suppression of replica counts
  during updates of SS-013.7): among them \<open>Running > desired\<close> is \<open>DEGRADED\<close>, whatever the
  desired count is.
\<close>

definition documented_status :: "desired_service \<Rightarrow> actual_service \<Rightarrow> string" where
  "documented_status desired actual =
     (let n = desired_count desired actual;
          running = as_RunningReplicas actual;
          counts_differ = (running < n \<and> running > 0 \<or> running > n)
      in if \<not> set (ds_Configs desired) \<subseteq> set (as_Configs actual) \<or>
            \<not> set (ds_Secrets desired) \<subseteq> set (as_Secrets actual) \<or> (running = 0 \<and> n > 0)
         then StatusFailed
         else if NormalizeImage (ds_Image desired) \<noteq> NormalizeImage (as_Image actual) \<or>
            \<not> set (as_Configs actual) \<subseteq> set (ds_Configs desired) \<or>
            \<not> set (as_Secrets actual) \<subseteq> set (ds_Secrets desired) \<or>
            (counts_differ \<and> \<not> update_in_progress actual)
         then StatusDegraded
         else StatusOK)"

text \<open>
  C13. What \<open>evaluateService\<close> decides, and where that is not what \<open>TASKS.md\<close> says. A service is
  \<open>FAILED\<close> exactly when a desired config or secret is not attached or replicas are desired and
  none runs; otherwise it is \<open>DEGRADED\<close> exactly when the images differ after normalisation, an
  undesired config or secret is attached, or replicas are desired, no update or rollback is in
  progress, and the running count differs from the desired one; otherwise it is \<open>OK\<close>. For global
  mode the desired count is Swarm's own. The verdict differs from the documented one in one case
  only: when the desired count is zero (or less) and more replicas than that run, no update is in
  progress and nothing else is wrong, the code says \<open>OK\<close> where SS-009 says \<open>DEGRADED\<close>. (A count
  of running tasks is never negative.)
\<close>

theorem evaluateService_classification:
  "(sh_Status (evaluateService name desired actual) =
    (if \<not> set (ds_Configs desired) \<subseteq> set (as_Configs actual) \<or>
        \<not> set (ds_Secrets desired) \<subseteq> set (as_Secrets actual) \<or>
        (desired_count desired actual > 0 \<and> as_RunningReplicas actual = 0)
     then StatusFailed
     else if NormalizeImage (ds_Image desired) \<noteq> NormalizeImage (as_Image actual) \<or>
        \<not> set (as_Configs actual) \<subseteq> set (ds_Configs desired) \<or>
        \<not> set (as_Secrets actual) \<subseteq> set (ds_Secrets desired) \<or>
        (desired_count desired actual > 0 \<and> \<not> update_in_progress actual \<and>
         as_RunningReplicas actual \<noteq> desired_count desired actual)
     then StatusDegraded
     else StatusOK)) \<and>
   (as_RunningReplicas actual \<ge> 0 \<longrightarrow>
     (sh_Status (evaluateService name desired actual) \<noteq> documented_status desired actual) =
     (desired_count desired actual \<le> 0 \<and> as_RunningReplicas actual > desired_count desired actual \<and>
      \<not> update_in_progress actual \<and> sh_Status (evaluateService name desired actual) = StatusOK \<and>
      documented_status desired actual = StatusDegraded))"
proof
  show closed: "sh_Status (evaluateService name desired actual) =
    (if \<not> set (ds_Configs desired) \<subseteq> set (as_Configs actual) \<or>
        \<not> set (ds_Secrets desired) \<subseteq> set (as_Secrets actual) \<or>
        (desired_count desired actual > 0 \<and> as_RunningReplicas actual = 0)
     then StatusFailed
     else if NormalizeImage (ds_Image desired) \<noteq> NormalizeImage (as_Image actual) \<or>
        \<not> set (as_Configs actual) \<subseteq> set (ds_Configs desired) \<or>
        \<not> set (as_Secrets actual) \<subseteq> set (ds_Secrets desired) \<or>
        (desired_count desired actual > 0 \<and> \<not> update_in_progress actual \<and>
         as_RunningReplicas actual \<noteq> desired_count desired actual)
     then StatusDegraded
     else StatusOK)" (is "_ = ?code")
    by (simp add: evaluateService_status service_level_def)
  show "(as_RunningReplicas actual \<ge> 0 \<longrightarrow>
     (sh_Status (evaluateService name desired actual) \<noteq> documented_status desired actual) =
     (desired_count desired actual \<le> 0 \<and> as_RunningReplicas actual > desired_count desired actual \<and>
      \<not> update_in_progress actual \<and> sh_Status (evaluateService name desired actual) = StatusOK \<and>
      documented_status desired actual = StatusDegraded))"
    unfolding closed documented_status_def Let_def by auto
qed

lemma evaluateService_classification_witness:
  "sh_Status (evaluateService ''web''
     \<lparr>ds_Image = ''nginx:1@sha256:ab'', ds_Mode = ''replicated'', ds_Replicas = 2,
      ds_Configs = [''c''], ds_Secrets = []\<rparr>
     \<lparr>as_Name = ''web'', as_Image = ''nginx:1'', as_Mode = ''replicated'', as_DesiredReplicas = 2,
      as_RunningReplicas = 1, as_Configs = [''c''], as_Secrets = [], as_UpdateState = ''updating''\<rparr>)
   = StatusOK"
proof -
  have "NormalizeImage ''nginx:1@sha256:ab'' = NormalizeImage ''nginx:1''"
    by (simp add: NormalizeImage_def digest_mark_def HasPrefix_def)
  then show ?thesis
    using evaluateService_classification [of "''web''"
      "\<lparr>ds_Image = ''nginx:1@sha256:ab'', ds_Mode = ''replicated'', ds_Replicas = 2,
        ds_Configs = [''c''], ds_Secrets = []\<rparr>"
      "\<lparr>as_Name = ''web'', as_Image = ''nginx:1'', as_Mode = ''replicated'', as_DesiredReplicas = 2,
        as_RunningReplicas = 1, as_Configs = [''c''], as_Secrets = [], as_UpdateState = ''updating''\<rparr>"]
    by (simp add: desired_count_def update_in_progress_def)
qed

text \<open>
  Every verdict is explained: \<open>evaluateService\<close> gives a reason exactly when the status is not
  \<open>OK\<close>, and its drift list holds one \<open>MISSING\<close> entry for each desired config and secret that is
  not attached, one \<open>EXTRA\<close> entry for each attached one that is not desired, and nothing else.
\<close>

theorem evaluateService_explained:
  "(sh_Reasons (evaluateService name desired actual) = []) =
     (sh_Status (evaluateService name desired actual) = StatusOK) \<and>
   set (sh_Drift (evaluateService name desired actual)) =
     drift_entry DriftMissing ''config'' ` (set (ds_Configs desired) - set (as_Configs actual)) \<union>
     drift_entry DriftExtra ''config'' ` (set (as_Configs actual) - set (ds_Configs desired)) \<union>
     drift_entry DriftMissing ''secret'' ` (set (ds_Secrets desired) - set (as_Secrets actual)) \<union>
     drift_entry DriftExtra ''secret'' ` (set (as_Secrets actual) - set (ds_Secrets desired))"
  by (simp add: evaluateService_reasons evaluateService_status evaluateService_drift
      service_drift_def resource_drift_def diffNames_sets Un_assoc)

text \<open>
  C6. \<open>EvaluateStackHealth\<close> judges every desired service: by \<open>evaluateService\<close> when Swarm runs it,
  as \<open>FAILED\<close> (missing) otherwise; a service that only Swarm has is \<open>DEGRADED\<close> (extra) when the
  evaluation is scoped to a stack and ignored otherwise; no other name occurs. The stack's status
  is the worst of its services' statuses, \<open>OK\<close> when there is none. The right-hand sides depend
  on the maps only, so the order in which Go visits them does not matter.
\<close>

theorem EvaluateStackHealth_spec:
  assumes "wf_gmap (dst_Services desired)" and "wf_gmap (actual_services actual)"
    and "result = EvaluateStackHealth desired actual scoped"
  shows "wf_gmap (stk_Services result) \<and>
    mget (stk_Services result) name =
      (case mget (dst_Services desired) name of
         Some d \<Rightarrow> Some (case mget (actual_services actual) name of
                         Some a \<Rightarrow> evaluateService name d a
                       | None \<Rightarrow> missing_service name d)
       | None \<Rightarrow> if scoped then map_option (extra_service name) (mget (actual_services actual) name)
                 else None) \<and>
    stk_Status result =
      status_of (Max (insert LevelOK ((\<lambda>h. level (sh_Status h)) ` ran (mget (stk_Services result)))))"
proof -
  let ?a = "actual_services actual" and ?d = "dst_Services desired"
  note eq = EvaluateStackHealth_eq [OF assms(1,2), of scoped, folded assms(3)]
  have V: "mget (map (\<lambda>(n, d). (n, verdict ?a n d)) m) name =
      map_option (verdict ?a name) (mget m name)" for m
    by (induction m) auto
  have E: "mget (extras ?d m) name =
      (if mget ?d name = None then map_option (extra_service name) (mget m name) else None)" for m
    by (induction m) (auto simp: extras_def)
  from eq have "distinct (mkeys (stk_Services result))" unfolding wf_gmap_def by blast
  then have "ran (mget (stk_Services result)) = snd ` set (stk_Services result)"
    by (rule ran_distinct)
  then have "(\<lambda>h. level (sh_Status h)) ` ran (mget (stk_Services result)) =
      (\<lambda>(n, h). level (sh_Status h)) ` set (stk_Services result)"
    by (simp add: image_image case_prod_beta)
  with eq have "stk_Status result =
      status_of (Max (insert LevelOK ((\<lambda>h. level (sh_Status h)) ` ran (mget (stk_Services result)))))"
    by (simp add: stack_inv_def worst_eq_Max)
  with eq V E show ?thesis
    by (auto simp: verdict_def map_add_def split: option.splits)
qed

theorem EvaluateStackHealth_spec_witness:
  "stk_Status (EvaluateStackHealth
      \<lparr>dst_Services = [(''web'', \<lparr>ds_Image = ''nginx:1'', ds_Mode = ''replicated'', ds_Replicas = 2,
         ds_Configs = [], ds_Secrets = []\<rparr>)]\<rparr> None True) = StatusFailed"
proof -
  let ?d = "\<lparr>dst_Services = [(''web'', \<lparr>ds_Image = ''nginx:1'', ds_Mode = ''replicated'',
    ds_Replicas = 2, ds_Configs = [], ds_Secrets = []\<rparr>)]\<rparr>"
  let ?r = "EvaluateStackHealth ?d None True"
  have "wf_gmap (dst_Services ?d)" "wf_gmap (actual_services None)"
    by (simp_all add: wf_gmap_def actual_services_def)
  note spec = EvaluateStackHealth_spec [OF this refl, of True]
  have "mget (stk_Services ?r) n = (if n = ''web'' then
      Some (missing_service n (snd (hd (dst_Services ?d)))) else None)" for n
    using spec [of n] by (auto simp: actual_services_def split: if_splits)
  then have "ran (mget (stk_Services ?r)) = {missing_service ''web'' (snd (hd (dst_Services ?d)))}"
    by (auto simp: ran_def)
  with spec show ?thesis by (simp add: missing_service_def)
qed

end
