(* ===== verification/Go_Json.thy ===== *)
theory Go_Json
  imports Go_Errors
begin

text \<open>
  What the code relies on of \<open>encoding/json\<close>: JSON values and the rules by which a value is
  decoded into a Go struct, map, slice, string or integer. A type error anywhere makes
  \<open>json.Unmarshal\<close> fail, here \<open>None\<close>. A struct field is found by its exact name or else by a name
  that differs in case only; unknown names are ignored; \<open>null\<close> leaves a field as it is, except
  that it empties a slice and makes a map nil. A nil slice and an empty one are both the empty
  list, written as \<open>null\<close>, and strings are valid UTF-8.
\<close>

datatype json =
    JNull
  | JBool bool
  | JNum int
  | JDec string
  | JStr string
  | JArr "json list"
  | JObj "(string \<times> json) list"

fun dec_string :: "json \<Rightarrow> string \<Rightarrow> string option" where
  "dec_string JNull s = Some s"
| "dec_string (JStr s') s = Some s'"
| "dec_string v s = None"

fun dec_int :: "json \<Rightarrow> int \<Rightarrow> int option" where
  "dec_int JNull n = Some n"
| "dec_int (JNum n') n = (if in_int64 n' then Some n' else None)"
| "dec_int v n = None"

fun map_opt :: "('a \<Rightarrow> 'b option) \<Rightarrow> 'a list \<Rightarrow> 'b list option" where
  "map_opt f [] = Some []"
| "map_opt f (x # xs) =
     (case f x of None \<Rightarrow> None
      | Some y \<Rightarrow> (case map_opt f xs of None \<Rightarrow> None | Some ys \<Rightarrow> Some (y # ys)))"

fun dec_slice :: "(json \<Rightarrow> 'a option) \<Rightarrow> json \<Rightarrow> 'a list option" where
  "dec_slice f JNull = Some []"
| "dec_slice f (JArr vs) = map_opt f vs"
| "dec_slice f v = None"

fun dec_entries ::
  "(json \<Rightarrow> 'a option) \<Rightarrow> (string \<times> json) list \<Rightarrow> 'a gmap \<Rightarrow> 'a gmap option" where
  "dec_entries f [] m = Some m"
| "dec_entries f ((k, v) # es) m =
     (case f v of None \<Rightarrow> None | Some x \<Rightarrow> dec_entries f es (mput k x m))"

fun dec_map :: "(json \<Rightarrow> 'a option) \<Rightarrow> json \<Rightarrow> 'a gmap option \<Rightarrow> 'a gmap option option" where
  "dec_map f JNull m = Some None"
| "dec_map f (JObj es) m = map_option Some (dec_entries f es (nilmap m))"
| "dec_map f v m = None"

definition match_field :: "string list \<Rightarrow> string \<Rightarrow> string option" where
  "match_field names key =
     (if key \<in> set names then Some key else find (\<lambda>n. ToLower n = ToLower key) names)"

fun dec_fields ::
  "(string \<Rightarrow> json \<Rightarrow> 's \<Rightarrow> 's option) \<Rightarrow> string list \<Rightarrow> (string \<times> json) list \<Rightarrow> 's \<Rightarrow> 's option"
  where
  "dec_fields setf names [] s = Some s"
| "dec_fields setf names ((key, v) # es) s =
     (case match_field names key of
        None \<Rightarrow> dec_fields setf names es s
      | Some name \<Rightarrow>
          (case setf name v s of None \<Rightarrow> None | Some s' \<Rightarrow> dec_fields setf names es s'))"

fun dec_struct ::
  "(string \<Rightarrow> json \<Rightarrow> 's \<Rightarrow> 's option) \<Rightarrow> string list \<Rightarrow> json \<Rightarrow> 's \<Rightarrow> 's option" where
  "dec_struct setf names JNull s = Some s"
| "dec_struct setf names (JObj es) s = dec_fields setf names es s"
| "dec_struct setf names v s = None"

section \<open>Encoding slices and maps\<close>

definition enc_slice :: "('a \<Rightarrow> json) \<Rightarrow> 'a list \<Rightarrow> json" where
  "enc_slice f xs = (if xs = [] then JNull else JArr (map f xs))"

text \<open>Maps are written with their keys in order.\<close>

definition sort_map :: "'v gmap \<Rightarrow> 'v gmap" where
  "sort_map m = sort_key fst m"

definition enc_map :: "('a \<Rightarrow> json) \<Rightarrow> 'a gmap option \<Rightarrow> json" where
  "enc_map f m =
     (case m of None \<Rightarrow> JNull | Some es \<Rightarrow> JObj (map (\<lambda>(k, x). (k, f x)) (sort_map es)))"

section \<open>Round trips\<close>

lemma match_field_exact [simp]: "key \<in> set names \<Longrightarrow> match_field names key = Some key"
  by (simp add: match_field_def)

lemma map_opt_roundtrip:
  "(\<And>x. x \<in> set xs \<Longrightarrow> f (g x) = Some (h x)) \<Longrightarrow> map_opt f (map g xs) = Some (map h xs)"
  by (induction xs) auto

lemma dec_slice_roundtrip:
  "(\<And>x. x \<in> set xs \<Longrightarrow> f (g x) = Some x) \<Longrightarrow> dec_slice f (enc_slice g xs) = Some xs"
  using map_opt_roundtrip [of xs f g "\<lambda>x. x"] by (simp add: enc_slice_def)

lemma sort_map_mset [simp]: "mset (sort_map m) = mset m"
  by (simp add: sort_map_def)

lemma sort_map_set [simp]: "set (sort_map m) = set m"
  by (simp add: sort_map_def)

lemma sort_map_wf [simp]: "wf_gmap (sort_map m) = wf_gmap m"
  by (metis mset_same_map(1) sort_map_mset)

lemma sort_map_mget [simp]: "wf_gmap m \<Longrightarrow> map_of (sort_map m) = map_of m"
  using mset_same_map(2) [of m "sort_map m"] by (simp add: same_map_def)

lemma dec_entries_roundtrip:
  assumes "\<And>k x. (k, x) \<in> set es \<Longrightarrow> f (g x) = Some (h x)" "wf_gmap (m @ map (\<lambda>(k, x). (k, h x)) es)"
  shows "dec_entries f (map (\<lambda>(k, x). (k, g x)) es) m = Some (m @ map (\<lambda>(k, x). (k, h x)) es)"
  using assms
proof (induction es arbitrary: m)
  case (Cons e es)
  obtain k x where e: "e = (k, x)" by fastforce
  have fx: "f (g x) = Some (h x)" using Cons.prems(1) e by auto
  from Cons.prems(2) e have "mget m k = None" by (auto simp: wf_gmap_def map_of_eq_None_iff)
  then have fresh: "mput k (h x) m = m @ [(k, h x)]" by (rule mput_fresh)
  have "dec_entries f (map (\<lambda>(k, x). (k, g x)) es) (m @ [(k, h x)])
      = Some ((m @ [(k, h x)]) @ map (\<lambda>(k, x). (k, h x)) es)"
    by (rule Cons.IH) (use Cons.prems e in auto)
  then show ?case by (simp add: e fx fresh)
qed simp

lemma dec_map_roundtrip:
  assumes "\<And>es k x. m = Some es \<Longrightarrow> (k, x) \<in> set es \<Longrightarrow> f (g x) = Some (h x)"
    and "\<And>es. m = Some es \<Longrightarrow> wf_gmap es"
  shows "dec_map f (enc_map g m) None = Some (map_option (\<lambda>es. map (\<lambda>(k, x). (k, h x)) (sort_map es)) m)"
proof (cases m)
  case (Some es)
  have "mkeys (map (\<lambda>(k, x). (k, h x)) (sort_map es)) = mkeys (sort_map es)"
    by (simp add: case_prod_beta comp_def)
  moreover have "wf_gmap (sort_map es)" using assms(2) Some by simp
  ultimately have "wf_gmap ([] @ map (\<lambda>(k, x). (k, h x)) (sort_map es))"
    by (simp only: wf_gmap_def append_Nil)
  with dec_entries_roundtrip [of "sort_map es" f g h "[]"] assms(1) Some show ?thesis
    by (simp add: enc_map_def)
qed (simp add: enc_map_def)

end
