(* ===== verification/State_Store.thy ===== *)
theory State_Store
  imports Health Go_Json
begin

text \<open>
  \<open>internal/state\<close>: the persisted state and the JSON file store. A file holds either the text of
  a JSON value or bytes that are not JSON; the operating system answers each call of one
  operation from a record of answers, so that every error path of the code is a branch. Besides
  its result, \<open>Save\<close> returns the states the file system goes through, which is what a crash of the
  program or another process can see. Directories are not modelled (\<open>MkdirAll\<close> and the opening of
  the directory answer, but create and flush nothing), nor is what survives a crash of the machine:
  \<open>Sync\<close> only answers. Strings are encoded as they are (\<open>Go_Json\<close> on invalid UTF-8).
\<close>

section \<open>Data\<close>

record stack_snapshot =
  sn_DesiredFingerprint :: string
  sn_Services :: "service_health gmap option"
  sn_EvaluatedAt :: string

definition zero_time :: string where
  "zero_time = ''0001-01-01T00:00:00Z''"

definition zero_snapshot :: stack_snapshot where
  "zero_snapshot = \<lparr>sn_DesiredFingerprint = '''', sn_Services = None, sn_EvaluatedAt = zero_time\<rparr>"

definition CurrentStateVersion :: int where
  "CurrentStateVersion = 1"

record gostate =
  gs_Version :: int
  gs_Stacks :: "stack_snapshot gmap option"

definition zero_state :: gostate where
  "zero_state = \<lparr>gs_Version = 0, gs_Stacks = None\<rparr>"

definition fresh_state :: gostate where
  "fresh_state = \<lparr>gs_Version = CurrentStateVersion, gs_Stacks = Some []\<rparr>"

section \<open>JSON encoding of the state\<close>

definition enc_drift :: "drift_detail \<Rightarrow> json" where
  "enc_drift d = JObj [(''Kind'', JStr (dd_Kind d)), (''Resource'', JStr (dd_Resource d)),
     (''Name'', JStr (dd_Name d))]"

definition enc_health :: "service_health \<Rightarrow> json" where
  "enc_health h = JObj
     [(''Name'', JStr (sh_Name h)), (''Status'', JStr (sh_Status h)),
      (''Reasons'', enc_slice JStr (sh_Reasons h)), (''Drift'', enc_slice enc_drift (sh_Drift h)),
      (''DesiredImage'', JStr (sh_DesiredImage h)), (''ActualImage'', JStr (sh_ActualImage h)),
      (''DesiredReplicas'', JNum (sh_DesiredReplicas h)),
      (''RunningReplicas'', JNum (sh_RunningReplicas h)),
      (''ConsecutiveCycles'', JNum (sh_ConsecutiveCycles h)),
      (''LastNotifiedStatus'', JStr (sh_LastNotifiedStatus h))]"

definition enc_snapshot :: "stack_snapshot \<Rightarrow> json" where
  "enc_snapshot s = JObj
     [(''desired_fingerprint'', JStr (sn_DesiredFingerprint s)),
      (''services'', enc_map enc_health (sn_Services s)),
      (''evaluated_at'', JStr (sn_EvaluatedAt s))]"

definition enc_state :: "gostate \<Rightarrow> json" where
  "enc_state s = JObj
     [(''version'', JNum (gs_Version s)), (''stacks'', enc_map enc_snapshot (gs_Stacks s))]"

section \<open>JSON decoding of the state\<close>

definition set_drift :: "string \<Rightarrow> json \<Rightarrow> drift_detail \<Rightarrow> drift_detail option" where
  "set_drift name v d =
     (if name = ''Kind'' then map_option (\<lambda>x. d\<lparr>dd_Kind := x\<rparr>) (dec_string v (dd_Kind d))
      else if name = ''Resource'' then map_option (\<lambda>x. d\<lparr>dd_Resource := x\<rparr>) (dec_string v (dd_Resource d))
      else map_option (\<lambda>x. d\<lparr>dd_Name := x\<rparr>) (dec_string v (dd_Name d)))"

definition dec_drift :: "json \<Rightarrow> drift_detail option" where
  "dec_drift v = dec_struct set_drift [''Kind'', ''Resource'', ''Name''] v
     \<lparr>dd_Kind = '''', dd_Resource = '''', dd_Name = ''''\<rparr>"

definition set_health :: "string \<Rightarrow> json \<Rightarrow> service_health \<Rightarrow> service_health option" where
  "set_health name v h =
     (if name = ''Name'' then map_option (\<lambda>x. h\<lparr>sh_Name := x\<rparr>) (dec_string v (sh_Name h))
      else if name = ''Status'' then map_option (\<lambda>x. h\<lparr>sh_Status := x\<rparr>) (dec_string v (sh_Status h))
      else if name = ''Reasons'' then
        map_option (\<lambda>x. h\<lparr>sh_Reasons := x\<rparr>) (dec_slice (\<lambda>j. dec_string j '''') v)
      else if name = ''Drift'' then map_option (\<lambda>x. h\<lparr>sh_Drift := x\<rparr>) (dec_slice dec_drift v)
      else if name = ''DesiredImage'' then
        map_option (\<lambda>x. h\<lparr>sh_DesiredImage := x\<rparr>) (dec_string v (sh_DesiredImage h))
      else if name = ''ActualImage'' then
        map_option (\<lambda>x. h\<lparr>sh_ActualImage := x\<rparr>) (dec_string v (sh_ActualImage h))
      else if name = ''DesiredReplicas'' then
        map_option (\<lambda>x. h\<lparr>sh_DesiredReplicas := x\<rparr>) (dec_int v (sh_DesiredReplicas h))
      else if name = ''RunningReplicas'' then
        map_option (\<lambda>x. h\<lparr>sh_RunningReplicas := x\<rparr>) (dec_int v (sh_RunningReplicas h))
      else if name = ''ConsecutiveCycles'' then
        map_option (\<lambda>x. h\<lparr>sh_ConsecutiveCycles := x\<rparr>) (dec_int v (sh_ConsecutiveCycles h))
      else map_option (\<lambda>x. h\<lparr>sh_LastNotifiedStatus := x\<rparr>) (dec_string v (sh_LastNotifiedStatus h)))"

definition dec_health :: "json \<Rightarrow> service_health option" where
  "dec_health v = dec_struct set_health
     [''Name'', ''Status'', ''Reasons'', ''Drift'', ''DesiredImage'', ''ActualImage'',
      ''DesiredReplicas'', ''RunningReplicas'', ''ConsecutiveCycles'', ''LastNotifiedStatus'']
     v zero_health"

text \<open>\<open>time.Time\<close> is kept as its RFC 3339 text; \<open>time_ok\<close> says which strings \<open>time\<close> accepts.\<close>

fun dec_time :: "(string \<Rightarrow> bool) \<Rightarrow> json \<Rightarrow> string \<Rightarrow> string option" where
  "dec_time time_ok JNull t = Some t"
| "dec_time time_ok (JStr s) t = (if time_ok s then Some s else None)"
| "dec_time time_ok v t = None"

definition set_snapshot ::
  "(string \<Rightarrow> bool) \<Rightarrow> string \<Rightarrow> json \<Rightarrow> stack_snapshot \<Rightarrow> stack_snapshot option" where
  "set_snapshot time_ok name v s =
     (if name = ''desired_fingerprint'' then
        map_option (\<lambda>x. s\<lparr>sn_DesiredFingerprint := x\<rparr>) (dec_string v (sn_DesiredFingerprint s))
      else if name = ''services'' then
        map_option (\<lambda>x. s\<lparr>sn_Services := x\<rparr>) (dec_map dec_health v (sn_Services s))
      else map_option (\<lambda>x. s\<lparr>sn_EvaluatedAt := x\<rparr>) (dec_time time_ok v (sn_EvaluatedAt s)))"

definition dec_snapshot :: "(string \<Rightarrow> bool) \<Rightarrow> json \<Rightarrow> stack_snapshot option" where
  "dec_snapshot time_ok v = dec_struct (set_snapshot time_ok)
     [''desired_fingerprint'', ''services'', ''evaluated_at''] v zero_snapshot"

definition set_state :: "(string \<Rightarrow> bool) \<Rightarrow> string \<Rightarrow> json \<Rightarrow> gostate \<Rightarrow> gostate option" where
  "set_state time_ok name v s =
     (if name = ''version'' then map_option (\<lambda>x. s\<lparr>gs_Version := x\<rparr>) (dec_int v (gs_Version s))
      else map_option (\<lambda>x. s\<lparr>gs_Stacks := x\<rparr>) (dec_map (dec_snapshot time_ok) v (gs_Stacks s)))"

definition dec_state :: "(string \<Rightarrow> bool) \<Rightarrow> json \<Rightarrow> gostate option" where
  "dec_state time_ok v =
     dec_struct (set_state time_ok) [''version'', ''stacks''] v zero_state"

section \<open>The JSON round trip\<close>

text \<open>
  \<open>health_ok\<close>, \<open>snapshot_ok\<close> and \<open>state_ok\<close> say that a value of the model is one of Go: its integers
  fit, its maps have distinct keys, its times are times. Encoding and decoding it puts its maps
  in key order and changes nothing else.
\<close>

definition health_ok :: "service_health \<Rightarrow> bool" where
  "health_ok h \<longleftrightarrow> in_int64 (sh_DesiredReplicas h) \<and> in_int64 (sh_RunningReplicas h)
     \<and> in_int64 (sh_ConsecutiveCycles h)"

definition snapshot_ok :: "(string \<Rightarrow> bool) \<Rightarrow> stack_snapshot \<Rightarrow> bool" where
  "snapshot_ok time_ok s \<longleftrightarrow> wf_gmap (nilmap (sn_Services s))
     \<and> list_all (\<lambda>(k, h). health_ok h) (nilmap (sn_Services s)) \<and> time_ok (sn_EvaluatedAt s)"

definition state_ok :: "(string \<Rightarrow> bool) \<Rightarrow> gostate \<Rightarrow> bool" where
  "state_ok time_ok s \<longleftrightarrow> in_int64 (gs_Version s) \<and> wf_gmap (nilmap (gs_Stacks s))
     \<and> list_all (\<lambda>(k, sn). snapshot_ok time_ok sn) (nilmap (gs_Stacks s))"

definition norm_snapshot :: "stack_snapshot \<Rightarrow> stack_snapshot" where
  "norm_snapshot s = s\<lparr>sn_Services := map_option sort_map (sn_Services s)\<rparr>"

definition norm_state :: "gostate \<Rightarrow> gostate" where
  "norm_state s = s\<lparr>gs_Stacks :=
     map_option (\<lambda>m. map (\<lambda>(k, sn). (k, norm_snapshot sn)) (sort_map m)) (gs_Stacks s)\<rparr>"

lemma dec_drift_enc [simp]: "dec_drift (enc_drift d) = Some d"
  by (cases d) (simp add: dec_drift_def enc_drift_def set_drift_def)

lemma dec_health_enc: "health_ok h \<Longrightarrow> dec_health (enc_health h) = Some h"
proof -
  assume ok: "health_ok h"
  have [simp]: "dec_slice (\<lambda>j. dec_string j '''') (enc_slice JStr xs) = Some xs" for xs
    by (rule dec_slice_roundtrip) simp
  have [simp]: "dec_slice dec_drift (enc_slice enc_drift xs) = Some xs" for xs
    by (rule dec_slice_roundtrip) simp
  show ?thesis using ok
    by (cases h) (simp add: dec_health_def enc_health_def set_health_def zero_health_def health_ok_def)
qed

lemma dec_snapshot_enc:
  assumes "snapshot_ok time_ok s"
  shows "dec_snapshot time_ok (enc_snapshot s) = Some (norm_snapshot s)"
proof -
  have "dec_map dec_health (enc_map enc_health (sn_Services s)) None
      = Some (map_option (\<lambda>es. map (\<lambda>(k, x). (k, x)) (sort_map es)) (sn_Services s))"
    using assms by (intro dec_map_roundtrip) (auto simp: snapshot_ok_def list_all_iff intro!: dec_health_enc)
  with assms show ?thesis
    by (cases s) (simp add: dec_snapshot_def enc_snapshot_def set_snapshot_def zero_snapshot_def
        norm_snapshot_def snapshot_ok_def)
qed

lemma dec_state_enc:
  assumes "state_ok time_ok s"
  shows "dec_state time_ok (enc_state s) = Some (norm_state s)"
proof -
  have "dec_map (dec_snapshot time_ok) (enc_map enc_snapshot (gs_Stacks s)) None
      = Some (map_option (\<lambda>es. map (\<lambda>(k, x). (k, norm_snapshot x)) (sort_map es)) (gs_Stacks s))"
    using assms by (intro dec_map_roundtrip) (auto simp: state_ok_def list_all_iff intro!: dec_snapshot_enc)
  with assms show ?thesis
    by (cases s) (simp add: dec_state_def enc_state_def set_state_def zero_state_def
        norm_state_def state_ok_def)
qed

section \<open>The file store\<close>

datatype file_content = JsonText json | NotJson string

record disk_file =
  fl_content :: file_content
  fl_mode :: nat

type_synonym fs = "string \<Rightarrow> disk_file option"

text \<open>
  The answers of the operating system during one call: \<open>os_create\<close> is the name \<open>os.CreateTemp\<close>
  picks given the files there are, \<open>os_writes\<close> the contents the temporary file goes through while
  it is written, \<open>os_remove\<close> whether a removal works.
\<close>

record os_answers =
  os_ctx :: "goerror option"
  os_read :: "goerror option"
  os_mkdir :: "goerror option"
  os_create :: "fs \<Rightarrow> goerror + string"
  os_chmod :: "goerror option"
  os_writes :: "string list"
  os_encode :: "goerror option"
  os_sync :: "goerror option"
  os_close :: "goerror option"
  os_rename :: "goerror option"
  os_remove :: bool

definition temp_file :: "file_content \<Rightarrow> disk_file" where
  "temp_file c = \<lparr>fl_content = c, fl_mode = 384\<rparr>"

definition not_exist :: goerror where
  "not_exist = LibErr ((plain_lib ''file does not exist'')\<lparr>le_notexist := True\<rparr>)"

text \<open>\<open>os.ReadFile\<close>: a missing file is \<open>os.ErrNotExist\<close>.\<close>

definition ReadFile :: "os_answers \<Rightarrow> string \<Rightarrow> fs \<Rightarrow> goerror + file_content" where
  "ReadFile os path fs =
     (case os_read os of Some e \<Rightarrow> Inl e
      | None \<Rightarrow> (case fs path of None \<Rightarrow> Inl not_exist | Some f \<Rightarrow> Inr (fl_content f)))"

definition Load_migrate :: "gostate \<Rightarrow> gostate" where
  "Load_migrate s0 =
     (let s1 = (if gs_Version s0 = 0 then s0\<lparr>gs_Version := CurrentStateVersion\<rparr> else s0)
      in if gs_Version s1 > CurrentStateVersion then fresh_state
         else if gs_Stacks s1 = None then s1\<lparr>gs_Stacks := Some []\<rparr> else s1)"

definition Load ::
  "(string \<Rightarrow> bool) \<Rightarrow> os_answers \<Rightarrow> string \<Rightarrow> fs \<Rightarrow> goerror + gostate" where
  "Load time_ok os path fs =
     (case os_ctx os of
        Some e \<Rightarrow> Inl e
      | None \<Rightarrow>
          (case ReadFile os path fs of
             Inl e \<Rightarrow> if is_not_exist e then Inr fresh_state else Inl e
           | Inr (NotJson _) \<Rightarrow> Inr fresh_state
           | Inr (JsonText j) \<Rightarrow>
               (case dec_state time_ok j of
                  None \<Rightarrow> Inr fresh_state
                | Some s0 \<Rightarrow> Inr (Load_migrate s0))))"

definition Save_prepare :: "gostate \<Rightarrow> gostate" where
  "Save_prepare s =
     (let s1 = (if gs_Version s = 0 then s\<lparr>gs_Version := CurrentStateVersion\<rparr> else s)
      in if gs_Stacks s1 = None then s1\<lparr>gs_Stacks := Some []\<rparr> else s1)"

definition cleanup :: "os_answers \<Rightarrow> string \<Rightarrow> fs \<Rightarrow> fs" where
  "cleanup os temp fs = (if os_remove os then fs(temp := None) else fs)"

text \<open>\<open>temp_writes\<close>: the file systems while the temporary file is being written.\<close>

definition temp_writes :: "string \<Rightarrow> fs \<Rightarrow> string list \<Rightarrow> fs list" where
  "temp_writes temp fs1 ws = fs1 # map (\<lambda>w. fs1(temp \<mapsto> temp_file (NotJson w))) ws"

text \<open>\<open>Save\<close> returns its error and the file systems that exist one after the other.\<close>

definition Save ::
  "os_answers \<Rightarrow> string \<Rightarrow> gostate \<Rightarrow> fs \<Rightarrow> goerror option \<times> fs list" where
  "Save os path s fs =
     (case os_ctx os of
        Some e \<Rightarrow> (Some e, [fs])
      | None \<Rightarrow>
          (let s' = Save_prepare s in
           case os_mkdir os of
             Some e \<Rightarrow> (Some e, [fs])
           | None \<Rightarrow>
               (case os_create os fs of
                  Inl e \<Rightarrow> (Some e, [fs])
                | Inr temp \<Rightarrow>
                    (let fs1 = fs(temp \<mapsto> temp_file (NotJson '''')) in
                     case os_chmod os of
                       Some e \<Rightarrow> (Some e, [fs, fs1, cleanup os temp fs1])
                     | None \<Rightarrow>
                         (let ws = temp_writes temp fs1 (os_writes os) in
                          case os_encode os of
                            Some e \<Rightarrow> (Some e, fs # ws @ [cleanup os temp (last ws)])
                          | None \<Rightarrow>
                              (let fs2 = fs1(temp \<mapsto> temp_file (JsonText (enc_state s'))) in
                               case os_sync os of
                                 Some e \<Rightarrow> (Some e, fs # ws @ [fs2, cleanup os temp fs2])
                               | None \<Rightarrow>
                                   (case os_close os of
                                      Some e \<Rightarrow> (Some e, fs # ws @ [fs2, cleanup os temp fs2])
                                    | None \<Rightarrow>
                                        (case os_rename os of
                                           Some e \<Rightarrow>
                                             (Some e, fs # ws @ [fs2, cleanup os temp fs2])
                                         | None \<Rightarrow>
                                             (None, fs # ws
                                                @ [fs2, fs2(temp := None, path := fs2 temp)])))))))))"

definition Save_result :: "os_answers \<Rightarrow> string \<Rightarrow> gostate \<Rightarrow> fs \<Rightarrow> goerror option \<times> fs" where
  "Save_result os path s fs = (let (r, tr) = Save os path s fs in (r, last tr))"

section \<open>Correctness of the file store\<close>

text \<open>\<open>os.CreateTemp\<close> opens with \<open>O_EXCL\<close>: the name is that of no file, and not the state file's.\<close>

definition fresh_temp :: "os_answers \<Rightarrow> string \<Rightarrow> bool" where
  "fresh_temp os path \<longleftrightarrow> (\<forall>fs temp. os_create os fs = Inr temp \<longrightarrow> fs temp = None \<and> temp \<noteq> path)"

lemma fresh_tempD:
  "fresh_temp os path \<Longrightarrow> os_create os fs = Inr temp \<Longrightarrow> fs temp = None \<and> temp \<noteq> path"
  by (simp add: fresh_temp_def)

abbreviation new_file :: "gostate \<Rightarrow> disk_file" where
  "new_file s \<equiv> temp_file (JsonText (enc_state (Save_prepare s)))"

lemma temp_writes_other: "f \<in> set (temp_writes temp fs1 ws) \<Longrightarrow> x \<noteq> temp \<Longrightarrow> f x = fs1 x"
  by (auto simp: temp_writes_def)

lemma last_temp_writes: "last (temp_writes temp fs1 ws) \<in> set (temp_writes temp fs1 ws)"
  by (rule last_in_set) (simp add: temp_writes_def)

lemma last_temp_writes_upd [simp]: "(last (temp_writes temp fs1 ws))(temp := c) = fs1(temp := c)"
  using temp_writes_other [OF last_temp_writes] by (auto simp: fun_eq_iff)

lemmas last_temp_writes_other [simp] = temp_writes_other [OF last_temp_writes]

lemmas save_cases = option.splits sum.splits if_splits

lemma Save_error:
  assumes "fresh_temp os path" "Save os path s fs = (Some e, tr)" "f \<in> set tr"
  shows "f path = fs path"
  using assms(2,3) fresh_tempD [OF assms(1), of fs]
  by (auto simp: Save_def Let_def cleanup_def temp_writes_other split: save_cases)

lemma Save_ok:
  assumes "fresh_temp os path" "Save os path s fs = (None, tr)" "f \<in> set tr"
  shows "f path = fs path \<or> f path = Some (new_file s)"
  using assms(2,3) fresh_tempD [OF assms(1), of fs]
  by (auto simp: Save_def Let_def temp_writes_other split: save_cases)

lemma Save_ok_last:
  assumes "fresh_temp os path" "Save os path s fs = (None, tr)"
  shows "last tr = fs(path \<mapsto> new_file s)"
  using assms(2) fresh_tempD [OF assms(1), of fs]
  by (auto simp: Save_def Let_def fun_eq_iff split: save_cases)

lemma Save_nonempty: "snd (Save os path s fs) \<noteq> []"
  by (simp add: Save_def Let_def split: option.splits sum.splits)

lemma Save_error_last:
  assumes "fresh_temp os path" "Save os path s fs = (Some e, tr)" "os_remove os"
  shows "last tr = fs"
  using assms(2,3) fresh_tempD [OF assms(1), of fs]
  by (auto simp: Save_def Let_def cleanup_def fun_upd_idem_iff split: save_cases)

lemma dec_fields_inv:
  assumes "\<forall>n v s s'. setf n v s = Some s' \<longrightarrow> P s \<longrightarrow> P s'"
  shows "dec_fields setf names es s = Some s' \<Longrightarrow> P s \<Longrightarrow> P s'"
  by (induction es arbitrary: s) (use assms in \<open>auto split: option.splits\<close>)

lemma dec_struct_inv:
  assumes "\<And>n v s s'. setf n v s = Some s' \<Longrightarrow> P s \<Longrightarrow> P s'"
  shows "dec_struct setf names v s = Some s' \<Longrightarrow> P s \<Longrightarrow> P s'"
proof (cases v)
  case (JObj es)
  have "\<forall>n v s s'. setf n v s = Some s' \<longrightarrow> P s \<longrightarrow> P s'" using assms by blast
  with JObj show "dec_struct setf names v s = Some s' \<Longrightarrow> P s \<Longrightarrow> P s'"
    using dec_fields_inv [of setf P names es s s'] by simp
qed auto

lemma dec_entries_inv:
  assumes "\<forall>v x. f v = Some x \<longrightarrow> Q x"
  shows "dec_entries f es m = Some m' \<Longrightarrow> wf_gmap m \<and> (\<forall>(k, x) \<in> set m. Q x) \<Longrightarrow>
    wf_gmap m' \<and> (\<forall>(k, x) \<in> set m'. Q x)"
proof (induction es arbitrary: m)
  case (Cons e es)
  obtain k v where e: "e = (k, v)" by fastforce
  with Cons.prems(1) obtain x where x: "f v = Some x" "dec_entries f es (mput k x m) = Some m'"
    by (auto split: option.splits)
  have "set (mput k x m) \<subseteq> insert (k, x) (set m)"
    by (induction m) auto
  moreover have "Q x" using assms x(1) by blast
  ultimately have "wf_gmap (mput k x m) \<and> (\<forall>(k, x) \<in> set (mput k x m). Q x)"
    using Cons.prems(2) by blast
  with Cons.IH [OF x(2)] show ?case by blast
qed simp

lemma dec_map_inv:
  assumes "\<forall>v x. f v = Some x \<longrightarrow> Q x" "dec_map f v m = Some m'"
    and "wf_gmap (nilmap m) \<and> (\<forall>(k, x) \<in> set (nilmap m). Q x)"
  shows "wf_gmap (nilmap m') \<and> (\<forall>(k, x) \<in> set (nilmap m'). Q x)"
proof (cases v)
  case (JObj es)
  with assms(2) obtain m1 where "dec_entries f es (nilmap m) = Some m1" "m' = Some m1" by auto
  with dec_entries_inv [OF assms(1) this(1) assms(3)] show ?thesis by simp
qed (use assms in auto)

lemma dec_int_inv: "dec_int v n = Some n' \<Longrightarrow> in_int64 n \<Longrightarrow> in_int64 n'"
  by (cases v) (auto split: if_splits)

lemma dec_time_inv: "dec_time time_ok v t = Some t' \<Longrightarrow> time_ok t \<Longrightarrow> time_ok t'"
  by (cases v) (auto split: if_splits)

lemma dec_health_ok: "dec_health v = Some h \<Longrightarrow> health_ok h"
  unfolding dec_health_def
  by (erule dec_struct_inv [rotated])
    (auto simp: set_health_def health_ok_def zero_health_def in_int64_def
      split: if_splits dest: dec_int_inv [unfolded in_int64_def])

lemma dec_snapshot_ok:
  assumes "time_ok zero_time" "dec_snapshot time_ok v = Some sn"
  shows "snapshot_ok time_ok sn"
  using assms(2) unfolding dec_snapshot_def
proof (rule dec_struct_inv [rotated])
  show "snapshot_ok time_ok zero_snapshot"
    using assms(1) by (simp add: snapshot_ok_def zero_snapshot_def)
next
  fix n v s s'
  assume "set_snapshot time_ok n v s = Some s'" "snapshot_ok time_ok s"
  then show "snapshot_ok time_ok s'"
    using dec_map_inv [of dec_health health_ok v "sn_Services s"] dec_health_ok
    by (auto simp: set_snapshot_def snapshot_ok_def list_all_iff split: if_splits dest: dec_time_inv)
qed

lemma dec_state_ok:
  assumes "time_ok zero_time" "dec_state time_ok v = Some s"
  shows "state_ok time_ok s"
  using assms(2) unfolding dec_state_def
proof (rule dec_struct_inv [rotated])
  show "state_ok time_ok zero_state"
    by (simp add: state_ok_def zero_state_def in_int64_def)
next
  fix n v s s'
  assume "set_state time_ok n v s = Some s'" "state_ok time_ok s"
  then show "state_ok time_ok s'"
    using dec_map_inv [of "dec_snapshot time_ok" "snapshot_ok time_ok" v "gs_Stacks s"]
      dec_snapshot_ok [of time_ok, OF assms(1)]
    by (auto simp: set_state_def state_ok_def list_all_iff split: if_splits dest: dec_int_inv)
qed

lemma fresh_state_ok: "state_ok time_ok fresh_state"
  by (simp add: state_ok_def fresh_state_def CurrentStateVersion_def in_int64_def)

lemma Load_migrate_ok: "state_ok time_ok s \<Longrightarrow> state_ok time_ok (Load_migrate s)"
  by (simp add: Load_migrate_def Let_def fresh_state_ok)
    (auto simp: state_ok_def CurrentStateVersion_def in_int64_def)

lemma Load_ok:
  assumes "time_ok zero_time" "Load time_ok os path fs = Inr s"
  shows "state_ok time_ok s \<and> gs_Stacks s \<noteq> None \<and> gs_Version s \<le> 1"
proof -
  have mig: "gs_Stacks (Load_migrate s0) \<noteq> None \<and> gs_Version (Load_migrate s0) \<le> 1" for s0
    by (simp add: Load_migrate_def Let_def fresh_state_def CurrentStateVersion_def)
  have "s = fresh_state \<or> (\<exists>j s0. dec_state time_ok j = Some s0 \<and> s = Load_migrate s0)"
    using assms(2) by (auto simp: Load_def split: option.splits sum.splits file_content.splits if_splits)
  then show ?thesis
  proof (elim disjE exE conjE)
    assume "s = fresh_state"
    then show ?thesis by (simp add: fresh_state_ok) (simp add: fresh_state_def CurrentStateVersion_def)
  next
    fix j s0 assume s0: "dec_state time_ok j = Some s0" "s = Load_migrate s0"
    then show ?thesis using Load_migrate_ok [OF dec_state_ok [of time_ok, OF assms(1) s0(1)]] mig [of s0] by simp
  qed
qed

lemma Save_prepare_ok: "state_ok time_ok s \<Longrightarrow> state_ok time_ok (Save_prepare s)"
  by (auto simp: Save_prepare_def Let_def state_ok_def CurrentStateVersion_def in_int64_def)

lemma Save_prepare_Version: "gs_Version (Save_prepare s) \<noteq> 0"
  by (simp add: Save_prepare_def Let_def CurrentStateVersion_def)

lemma Load_saved:
  assumes "state_ok time_ok s" "gs_Version s \<le> 1" "os_ctx os = None" "os_read os = None"
    and "fs path = Some (new_file s)"
  shows "Load time_ok os path fs = Inr (norm_state (Save_prepare s))"
proof -
  have "Load time_ok os path fs = Inr (Load_migrate (norm_state (Save_prepare s)))"
    using assms dec_state_enc [OF Save_prepare_ok [OF assms(1)]]
    by (simp add: Load_def ReadFile_def temp_file_def)
  also have "Load_migrate (norm_state (Save_prepare s)) = norm_state (Save_prepare s)"
    using assms(2) by (auto simp: Load_migrate_def norm_state_def Save_prepare_def Let_def CurrentStateVersion_def)
  finally show ?thesis .
qed

lemma Save_result_cases:
  assumes "fresh_temp os path" "Save_result os path s fs = (r, fs')"
  shows "fs' path = (if r = None then Some (new_file s) else fs path)"
proof -
  obtain tr where tr: "Save os path s fs = (r, tr)" "fs' = last tr"
    using assms(2) by (auto simp: Save_result_def split: prod.splits)
  have "last tr \<in> set tr" using Save_nonempty [of os path s fs] tr(1) by simp
  then show ?thesis
    using Save_error [OF assms(1)] Save_ok_last [OF assms(1)] tr by (cases r) auto
qed

lemma Load_cong:
  assumes "fs path = fs' path"
  shows "Load time_ok os path fs = Load time_ok os path fs'"
proof -
  have "ReadFile os path fs = ReadFile os path fs'"
    using assms by (cases "os_read os") (simp_all add: ReadFile_def)
  then show ?thesis by (simp only: Load_def)
qed

section \<open>Properties\<close>

text \<open>
  C5. Saving is atomic. Whatever the operating system answers, in every file system that exists
  during and after \<open>Save\<close> the state file is the old one or holds the complete encoding of the new
  state with mode 0600, the latter only if \<open>Save\<close> succeeds. A successful \<open>Save\<close> changes no other
  file, and a failed one leaves the file system as it was when the temporary file can be removed.
\<close>

theorem Save_atomic:
  assumes "fresh_temp os path" "Save os path s fs = (r, tr)"
  shows "(\<forall>f \<in> set tr. f path = fs path \<or>
            r = None \<and> f path = Some \<lparr>fl_content = JsonText (enc_state (Save_prepare s)), fl_mode = 384\<rparr>)
    \<and> (case r of
         None \<Rightarrow> last tr = fs(path \<mapsto> \<lparr>fl_content = JsonText (enc_state (Save_prepare s)), fl_mode = 384\<rparr>)
       | Some e \<Rightarrow> last tr path = fs path \<and> (os_remove os \<longrightarrow> last tr = fs))"
proof (cases r)
  case None
  with assms show ?thesis
    using Save_ok [OF assms(1)] Save_ok_last [OF assms(1)] by (simp add: temp_file_def)
next
  case (Some e)
  have "last tr \<in> set tr" using Save_nonempty [of os path s fs] assms(2) by simp
  with Some assms show ?thesis
    using Save_error [OF assms(1)] Save_error_last [OF assms(1)] by simp
qed

definition demo_os :: os_answers where
  "demo_os = \<lparr>os_ctx = None, os_read = None, os_mkdir = None,
     os_create = (\<lambda>fs. if fs ''/data/.state-1.json'' = None then Inr ''/data/.state-1.json''
       else Inl (PlainErr ''file exists'')),
     os_chmod = None, os_writes = [''{''], os_encode = None, os_sync = None, os_close = None,
     os_rename = Some (PlainErr ''rename: I/O error''), os_remove = True\<rparr>"

lemma demo_os_fresh: "fresh_temp demo_os ''/data/state.json''"
  by (simp add: fresh_temp_def demo_os_def)

lemma Save_atomic_witness:
  "last (snd (Save demo_os ''/data/state.json'' fresh_state (\<lambda>p. None))) = (\<lambda>p. None)"
proof -
  have "Save demo_os ''/data/state.json'' fresh_state (\<lambda>p. None)
      = (Some (PlainErr ''rename: I/O error''),
         snd (Save demo_os ''/data/state.json'' fresh_state (\<lambda>p. None)))"
    by (simp add: Save_def demo_os_def Let_def)
  from Save_atomic [OF demo_os_fresh this] show ?thesis by (simp add: demo_os_def)
qed

text \<open>
  C8. What was saved is what is loaded. After a successful \<open>Save\<close>, \<open>Load\<close> returns the saved state
  with its version and its map filled in, up to the order of map entries; after a failed one it
  returns what it would have returned before.
\<close>

theorem Load_after_Save:
  assumes "fresh_temp os path" "state_ok time_ok s" "gs_Version s \<le> 1"
    and "os_ctx os' = None" "os_read os' = None"
    and "Save_result os path s fs = (r, fs')"
  shows "Load time_ok os' path fs' =
    (if r = None then Inr (norm_state (Save_prepare s)) else Load time_ok os' path fs)"
  using Save_result_cases [OF assms(1,6)] Load_saved [OF assms(2,3,4,5), of fs' path]
    Load_cong [of fs' path fs time_ok os'] by (cases r) simp_all

lemma Load_after_Save_witness:
  "Load (\<lambda>t. True) demo_os ''/data/state.json''
     (snd (Save_result (demo_os\<lparr>os_rename := None\<rparr>) ''/data/state.json'' zero_state (\<lambda>p. None)))
   = Inr fresh_state"
proof -
  let ?os = "demo_os\<lparr>os_rename := None\<rparr>"
  have fresh: "fresh_temp ?os ''/data/state.json''"
    using demo_os_fresh by (simp add: fresh_temp_def)
  have ok: "state_ok (\<lambda>t. True) zero_state" by (simp add: state_ok_def zero_state_def in_int64_def)
  have "Save_result ?os ''/data/state.json'' zero_state (\<lambda>p. None)
      = (None, snd (Save_result ?os ''/data/state.json'' zero_state (\<lambda>p. None)))"
    by (simp add: Save_result_def Save_def demo_os_def Let_def)
  from Load_after_Save [OF fresh ok _ _ _ this, of demo_os] show ?thesis
    by (simp add: demo_os_def zero_state_def Save_prepare_def norm_state_def fresh_state_def
        CurrentStateVersion_def Let_def sort_map_def)
qed

text \<open>
  C33. Loading is robust. Unless the context is done or the file exists and cannot be read, \<open>Load\<close>
  succeeds, whatever bytes the file holds; and the state it returns is a well-formed one of a
  supported version with a map of stacks. A file that is missing, is not JSON, does not decode or
  has a newer version gives the fresh state.
\<close>

theorem Load_robust:
  assumes "time_ok zero_time" "os_ctx os = None" "\<And>e. os_read os = Some e \<Longrightarrow> is_not_exist e"
  shows "\<exists>s. Load time_ok os path fs = Inr s \<and> state_ok time_ok s \<and> gs_Stacks s \<noteq> None
     \<and> gs_Version s \<le> CurrentStateVersion
     \<and> ((\<forall>f j s0. os_read os = None \<and> fs path = Some f \<and> fl_content f = JsonText j
            \<and> dec_state time_ok j = Some s0 \<longrightarrow> gs_Version s0 > CurrentStateVersion)
          \<longrightarrow> s = fresh_state)"
proof -
  have ne: "is_not_exist not_exist" by (simp add: is_not_exist_def not_exist_def plain_lib_def)
  have "\<exists>s. Load time_ok os path fs = Inr s"
    using assms(2,3) ne by (auto simp: Load_def ReadFile_def split: option.splits file_content.splits)
  then obtain s where s: "Load time_ok os path fs = Inr s" by blast
  moreover have "s = fresh_state" if "\<forall>f j s0. os_read os = None \<and> fs path = Some f
      \<and> fl_content f = JsonText j \<and> dec_state time_ok j = Some s0 \<longrightarrow> gs_Version s0 > CurrentStateVersion"
    using s that assms(2)
    by (auto simp: Load_def ReadFile_def Load_migrate_def CurrentStateVersion_def Let_def
        split: option.splits file_content.splits if_splits)
  ultimately show ?thesis using Load_ok [of time_ok, OF assms(1) s] by (auto simp: CurrentStateVersion_def)
qed

lemma Load_robust_witness:
  "\<exists>s. Load (\<lambda>t. True) demo_os ''/data/state.json''
         (\<lambda>p. Some (temp_file (NotJson ''{trunc''))) = Inr s \<and> s = fresh_state"
  using Load_robust [of "\<lambda>t. True" demo_os "''/data/state.json''" "\<lambda>p. Some (temp_file (NotJson ''{trunc''))"]
  by (auto simp: demo_os_def temp_file_def)

section \<open>The store as an interface\<close>

text \<open>
  What a client of \<open>state.Store\<close> relies on. \<open>view w k\<close> is the snapshot of stack \<open>k\<close> that the store
  holds in world \<open>w\<close>, with its services in key order; \<open>lookup\<close> reads it from a loaded state.
\<close>

definition lookup :: "gostate \<Rightarrow> string \<Rightarrow> stack_snapshot option" where
  "lookup s k = map_option norm_snapshot (mget (nilmap (gs_Stacks s)) k)"

text \<open>\<open>loaded.Stacks[key] = snapshot\<close>, with the map made when it is nil.\<close>

definition put_stack :: "string \<Rightarrow> stack_snapshot \<Rightarrow> gostate \<Rightarrow> gostate" where
  "put_stack k sn s = s\<lparr>gs_Stacks := Some (mput k sn (nilmap (gs_Stacks s)))\<rparr>"

lemma lookup_put_stack: "lookup (put_stack k sn s) = (lookup s)(k \<mapsto> norm_snapshot sn)"
  by (auto simp: lookup_def put_stack_def fun_eq_iff)

record 'w store =
  st_Load :: "'w \<Rightarrow> (goerror + gostate) \<times> 'w"
  st_Save :: "gostate \<Rightarrow> 'w \<Rightarrow> goerror option \<times> 'w"

locale state_store =
  fixes store :: "'w store"
    and view :: "'w \<Rightarrow> string \<Rightarrow> stack_snapshot option"
    and inv :: "'w \<Rightarrow> bool"
    and valid :: "gostate \<Rightarrow> bool"
    and valid_snapshot :: "stack_snapshot \<Rightarrow> bool"
  assumes load_inv: "inv w \<Longrightarrow> st_Load store w = (r, w') \<Longrightarrow> inv w' \<and> view w' = view w"
    and load_view: "inv w \<Longrightarrow> st_Load store w = (Inr s, w') \<Longrightarrow> valid s \<and> lookup s = view w"
    and save_ok: "inv w \<Longrightarrow> valid s \<Longrightarrow> st_Save store s w = (None, w') \<Longrightarrow> inv w' \<and> view w' = lookup s"
    and save_error: "inv w \<Longrightarrow> st_Save store s w = (Some e, w') \<Longrightarrow> inv w' \<and> view w' = view w"
    and valid_put: "valid s \<Longrightarrow> valid_snapshot sn \<Longrightarrow> valid (put_stack k sn s)"
begin

lemma load_lookup:
  assumes "inv w" "st_Load store w = (Inr s, w')"
  shows "map_option norm_snapshot (mget (nilmap (gs_Stacks s)) k) = view w k"
  using load_view [OF assms] by (simp add: lookup_def fun_eq_iff)

lemma load_put_save:
  assumes "inv w" "st_Load store w = (Inr s, w1)" "valid_snapshot sn"
    and "st_Save store (put_stack k sn s) w1 = (r, w2)"
  shows "inv w2 \<and> view w2 = (if r = None then (view w)(k \<mapsto> norm_snapshot sn) else view w)"
proof -
  from load_inv [OF assms(1,2)] load_view [OF assms(1,2)]
  have w1: "inv w1" "view w1 = view w" "valid s" "lookup s = view w" by simp_all
  show ?thesis
  proof (cases r)
    case None
    with save_ok [OF w1(1) valid_put [OF w1(3) assms(3)], of k w2] assms(4) w1(4)
    show ?thesis by (simp add: lookup_put_stack)
  next
    case (Some e)
    with save_error [OF w1(1), of _ e w2] assms(4) w1(2) show ?thesis by simp
  qed
qed

end

text \<open>
  The file store provides it. The world holds the file system and the answers of the operating
  system to the calls to come.
\<close>

record file_world =
  fw_fs :: fs
  fw_answers :: "nat \<Rightarrow> os_answers"

definition next_call :: "(nat \<Rightarrow> os_answers) \<Rightarrow> nat \<Rightarrow> os_answers" where
  "next_call answers = (\<lambda>n. answers (Suc n))"

definition FileStore_Load ::
  "(string \<Rightarrow> bool) \<Rightarrow> string \<Rightarrow> file_world \<Rightarrow> (goerror + gostate) \<times> file_world" where
  "FileStore_Load time_ok path w =
     (Load time_ok (fw_answers w 0) path (fw_fs w), w\<lparr>fw_answers := next_call (fw_answers w)\<rparr>)"

definition FileStore_Save :: "string \<Rightarrow> gostate \<Rightarrow> file_world \<Rightarrow> goerror option \<times> file_world" where
  "FileStore_Save path s w =
     (let (r, fs') = Save_result (fw_answers w 0) path s (fw_fs w)
      in (r, w\<lparr>fw_fs := fs', fw_answers := next_call (fw_answers w)\<rparr>))"

definition NewFileStore :: "(string \<Rightarrow> bool) \<Rightarrow> string \<Rightarrow> file_world store" where
  "NewFileStore time_ok path = \<lparr>st_Load = FileStore_Load time_ok path, st_Save = FileStore_Save path\<rparr>"

definition quiet_os :: os_answers where
  "quiet_os = \<lparr>os_ctx = None, os_read = None, os_mkdir = None, os_create = (\<lambda>fs. Inl CtxCanceled),
     os_chmod = None, os_writes = [], os_encode = None, os_sync = None, os_close = None,
     os_rename = None, os_remove = True\<rparr>"

text \<open>What is in the file, read without interference.\<close>

definition file_view ::
  "(string \<Rightarrow> bool) \<Rightarrow> string \<Rightarrow> file_world \<Rightarrow> string \<Rightarrow> stack_snapshot option" where
  "file_view time_ok path w =
     (case Load time_ok quiet_os path (fw_fs w) of Inl e \<Rightarrow> Map.empty | Inr s \<Rightarrow> lookup s)"

definition good_os :: "string \<Rightarrow> os_answers \<Rightarrow> bool" where
  "good_os path os \<longleftrightarrow> fresh_temp os path \<and> (\<forall>e. os_read os = Some e \<longrightarrow> \<not> is_not_exist e)"

definition file_inv :: "(string \<Rightarrow> bool) \<Rightarrow> string \<Rightarrow> file_world \<Rightarrow> bool" where
  "file_inv time_ok path w \<longleftrightarrow> time_ok zero_time \<and> (\<forall>n. good_os path (fw_answers w n))"

definition valid_state :: "(string \<Rightarrow> bool) \<Rightarrow> gostate \<Rightarrow> bool" where
  "valid_state time_ok s \<longleftrightarrow> state_ok time_ok s \<and> gs_Version s \<le> CurrentStateVersion"

lemma sort_map_idem [simp]: "sort_map (sort_map m) = sort_map m"
  by (simp add: sort_map_def sort_key_id_if_sorted)

lemma norm_snapshot_idem [simp]: "norm_snapshot (norm_snapshot s) = norm_snapshot s"
  by (simp add: norm_snapshot_def option.map_comp comp_def)

lemma map_of_map_snd: "map_of (map (\<lambda>(k, x). (k, f x)) m) k = map_option f (map_of m k)"
  by (induction m) auto

lemma lookup_norm_state: "wf_gmap (nilmap (gs_Stacks s)) \<Longrightarrow> lookup (norm_state s) = lookup s"
  by (cases "gs_Stacks s")
    (auto simp: lookup_def norm_state_def fun_eq_iff map_of_map_snd option.map_comp comp_def)

lemma lookup_Save_prepare: "lookup (Save_prepare s) = lookup s"
  by (auto simp: lookup_def Save_prepare_def Let_def fun_eq_iff)

lemma Load_undisturbed:
  assumes "good_os path os" "Load time_ok os path fs = Inr s"
  shows "Load time_ok quiet_os path fs = Inr s"
  using assms by (auto simp: Load_def ReadFile_def quiet_os_def good_os_def
      split: option.splits file_content.splits if_splits)

lemma state_ok_put:
  assumes "state_ok time_ok s" "snapshot_ok time_ok sn"
  shows "state_ok time_ok (put_stack k sn s)"
proof -
  have "set (mput k sn m) \<subseteq> insert (k, sn) (set m)" for m :: "stack_snapshot gmap"
    by (induction m) auto
  then show ?thesis using assms by (fastforce simp: state_ok_def put_stack_def list_all_iff)
qed

interpretation file_store:
  state_store "NewFileStore time_ok path" "file_view time_ok path" "file_inv time_ok path"
    "valid_state time_ok" "snapshot_ok time_ok" for time_ok path
proof
  fix w w' :: file_world and r s e
  let ?N = "NewFileStore time_ok path"
  assume inv: "file_inv time_ok path w"
  show "file_inv time_ok path w' \<and> file_view time_ok path w' = file_view time_ok path w"
    if "st_Load ?N w = (r, w')"
    using inv that by (auto simp: NewFileStore_def FileStore_Load_def file_inv_def file_view_def next_call_def)
  show "valid_state time_ok s \<and> lookup s = file_view time_ok path w" if "st_Load ?N w = (Inr s, w')"
  proof -
    have l: "Load time_ok (fw_answers w 0) path (fw_fs w) = Inr s"
      using that by (simp add: NewFileStore_def FileStore_Load_def)
    have "time_ok zero_time" "good_os path (fw_answers w 0)" using inv by (simp_all add: file_inv_def)
    with Load_ok [of time_ok, OF _ l] Load_undisturbed [OF _ l] show ?thesis
      by (simp add: valid_state_def file_view_def CurrentStateVersion_def)
  qed
  have save: "file_inv time_ok path w' \<and> fw_fs w' path =
      (if r = None then Some (new_file s) else fw_fs w path)" if "st_Save ?N s w = (r, w')" for r
  proof -
    obtain r' fs' where "Save_result (fw_answers w 0) path s (fw_fs w) = (r', fs')" by fastforce
    with that have fs': "Save_result (fw_answers w 0) path s (fw_fs w) = (r, fs')" "fw_fs w' = fs'"
      by (auto simp: NewFileStore_def FileStore_Save_def Let_def)
    have "fresh_temp (fw_answers w 0) path" using inv by (simp add: file_inv_def good_os_def)
    from Save_result_cases [OF this fs'(1)] fs'(2) have "fw_fs w' path =
      (if r = None then Some (new_file s) else fw_fs w path)" by simp
    moreover have "file_inv time_ok path w'" using that inv
      by (auto simp: NewFileStore_def FileStore_Save_def Let_def file_inv_def next_call_def split: prod.splits)
    ultimately show ?thesis by blast
  qed
  show "file_inv time_ok path w' \<and> file_view time_ok path w' = lookup s"
    if "valid_state time_ok s" "st_Save ?N s w = (None, w')"
  proof -
    have "Load time_ok quiet_os path (fw_fs w') = Inr (norm_state (Save_prepare s))"
      using that(1) save [OF that(2)]
      by (intro Load_saved) (simp_all add: valid_state_def CurrentStateVersion_def quiet_os_def)
    moreover have "wf_gmap (nilmap (gs_Stacks (Save_prepare s)))"
      using Save_prepare_ok [of time_ok s] that(1) by (simp add: valid_state_def state_ok_def)
    ultimately show ?thesis using save [OF that(2)]
      by (simp add: file_view_def lookup_norm_state lookup_Save_prepare)
  qed
  show "file_inv time_ok path w' \<and> file_view time_ok path w' = file_view time_ok path w"
    if "st_Save ?N s w = (Some e, w')"
    using save [OF that] Load_cong [of "fw_fs w'" path "fw_fs w" time_ok quiet_os] by (simp add: file_view_def)
next
  fix s sn k assume "valid_state time_ok s" "snapshot_ok time_ok sn"
  then show "valid_state time_ok (put_stack k sn s)"
    by (simp add: valid_state_def state_ok_put) (simp add: put_stack_def)
qed

end
