(* ===== verification/Transition.thy ===== *)
theory Transition
  imports State_Store
begin

text \<open>
  \<open>internal/transition\<close>: comparing the previous snapshot of a stack with its current health. The
  entries of a map are visited in an order Go leaves open; sorting by name makes the outcome
  independent of it. \<open>sort.Slice\<close> is not stable, but the names are distinct.
\<close>

section \<open>Data\<close>

record replica_change =
  rc_PreviousDesired :: int
  rc_CurrentDesired :: int
  rc_PreviousRunning :: int
  rc_CurrentRunning :: int
  rc_DesiredDelta :: int
  rc_RunningDelta :: int

record image_change =
  ic_PreviousDesired :: string
  ic_CurrentDesired :: string
  ic_PreviousActual :: string
  ic_CurrentActual :: string

record service_transition =
  tr_Name :: string
  tr_PreviousStatus :: string
  tr_CurrentStatus :: string
  tr_Reasons :: "string list"
  tr_Drift :: "drift_detail list"
  tr_ReplicaChange :: "replica_change option"
  tr_ImageChange :: "image_change option"

section \<open>Operations\<close>

definition buildReplicaChange ::
  "service_health \<Rightarrow> service_health \<Rightarrow> bool \<Rightarrow> replica_change option" where
  "buildReplicaChange prev current hadPrev =
     (if \<not> hadPrev \<and> sh_DesiredReplicas current = 0 \<and> sh_RunningReplicas current = 0 then None
      else Some \<lparr>rc_PreviousDesired = sh_DesiredReplicas prev,
                 rc_CurrentDesired = sh_DesiredReplicas current,
                 rc_PreviousRunning = sh_RunningReplicas prev,
                 rc_CurrentRunning = sh_RunningReplicas current,
                 rc_DesiredDelta = wrap64 (sh_DesiredReplicas current - sh_DesiredReplicas prev),
                 rc_RunningDelta = wrap64 (sh_RunningReplicas current - sh_RunningReplicas prev)\<rparr>)"

definition buildImageChange ::
  "service_health \<Rightarrow> service_health \<Rightarrow> bool \<Rightarrow> image_change option" where
  "buildImageChange prev current hadPrev =
     (if \<not> hadPrev \<and> sh_DesiredImage current = '''' \<and> sh_ActualImage current = '''' then None
      else Some \<lparr>ic_PreviousDesired = sh_DesiredImage prev,
                 ic_CurrentDesired = sh_DesiredImage current,
                 ic_PreviousActual = sh_ActualImage prev,
                 ic_CurrentActual = sh_ActualImage current\<rparr>)"

text \<open>The status a change is measured from: the one last notified, else the one last seen.\<close>

definition reference_status :: "service_health \<Rightarrow> string" where
  "reference_status prev =
     (if sh_LastNotifiedStatus prev \<noteq> '''' then sh_LastNotifiedStatus prev else sh_Status prev)"

fun transitions_loop ::
  "service_health gmap \<Rightarrow> bool \<Rightarrow> service_health gmap \<Rightarrow> service_transition list" where
  "transitions_loop prevServices firstRun [] = []"
| "transitions_loop prevServices firstRun ((name, current) # rest) =
     (let prev = (case mget prevServices name of None \<Rightarrow> zero_health | Some p \<Rightarrow> p);
          hadPrev = mget prevServices name \<noteq> None;
          prevStatus = reference_status prev
      in if firstRun \<and> sh_Status current = StatusOK
           \<or> \<not> firstRun \<and> hadPrev \<and> prevStatus = sh_Status current
           \<or> \<not> firstRun \<and> \<not> hadPrev \<and> sh_Status current = StatusOK
         then transitions_loop prevServices firstRun rest
         else \<lparr>tr_Name = name, tr_PreviousStatus = prevStatus, tr_CurrentStatus = sh_Status current,
               tr_Reasons = sh_Reasons current, tr_Drift = sh_Drift current,
               tr_ReplicaChange = buildReplicaChange prev current hadPrev,
               tr_ImageChange = buildImageChange prev current hadPrev\<rparr>
              # transitions_loop prevServices firstRun rest)"

definition prev_services :: "stack_snapshot option \<Rightarrow> service_health gmap" where
  "prev_services prev = (case prev of None \<Rightarrow> [] | Some p \<Rightarrow> nilmap (sn_Services p))"

definition DetectServiceTransitions ::
  "stack_snapshot option \<Rightarrow> stack_health \<Rightarrow> service_transition list" where
  "DetectServiceTransitions prev current =
     (let prevServices = prev_services prev
      in sort_key tr_Name
           (transitions_loop prevServices (prevServices = []) (stk_Services current)))"

section \<open>Properties\<close>

text \<open>What is reported for one service, or nothing.\<close>

definition transition_of ::
  "service_health gmap \<Rightarrow> string \<Rightarrow> service_health \<Rightarrow> service_transition option" where
  "transition_of prevs name current =
     (case mget prevs name of
        None \<Rightarrow>
          if sh_Status current = StatusOK then None
          else Some \<lparr>tr_Name = name, tr_PreviousStatus = '''', tr_CurrentStatus = sh_Status current,
             tr_Reasons = sh_Reasons current, tr_Drift = sh_Drift current,
             tr_ReplicaChange = buildReplicaChange zero_health current False,
             tr_ImageChange = buildImageChange zero_health current False\<rparr>
      | Some prev \<Rightarrow>
          if reference_status prev = sh_Status current then None
          else Some \<lparr>tr_Name = name, tr_PreviousStatus = reference_status prev,
             tr_CurrentStatus = sh_Status current,
             tr_Reasons = sh_Reasons current, tr_Drift = sh_Drift current,
             tr_ReplicaChange = buildReplicaChange prev current True,
             tr_ImageChange = buildImageChange prev current True\<rparr>)"

lemma reference_status_zero [simp]: "reference_status zero_health = ''''"
  by (simp add: reference_status_def zero_health_def)

lemma transition_of_Name: "transition_of prevs name h = Some t \<Longrightarrow> tr_Name t = name"
  by (auto simp: transition_of_def split: option.splits if_splits)

lemma transitions_loop_eq:
  "firstRun = (prevs = []) \<Longrightarrow> transitions_loop prevs firstRun current
     = List.map_filter (\<lambda>(name, h). transition_of prevs name h) current"
  by (induction prevs firstRun current rule: transitions_loop.induct)
    (auto simp: transition_of_def map_filter_simps Let_def split: option.splits)

lemma DetectServiceTransitions_eq:
  "DetectServiceTransitions prev current = sort_key tr_Name
     (List.map_filter (\<lambda>(name, h). transition_of (prev_services prev) name h) (stk_Services current))"
  by (simp add: DetectServiceTransitions_def Let_def transitions_loop_eq)

lemma map_filter_names:
  "set (map tr_Name (List.map_filter (\<lambda>(name, h). transition_of prevs name h) m)) \<subseteq> set (mkeys m)"
  by (induction m) (auto simp: map_filter_simps dest: transition_of_Name split: option.splits)

lemma map_filter_distinct:
  "wf_gmap m \<Longrightarrow> distinct (map tr_Name (List.map_filter (\<lambda>(name, h). transition_of prevs name h) m))"
proof (induction m)
  case (Cons e m)
  obtain name h where e: "e = (name, h)" by fastforce
  with Cons map_filter_names [of prevs m] show ?case
    by (auto simp: map_filter_simps wf_gmap_def dest: transition_of_Name split: option.splits)
qed (simp add: map_filter_simps)

lemma set_map_filter: "set (List.map_filter f xs) = {y. \<exists>x \<in> set xs. f x = Some y}"
  by (induction xs) (auto simp: map_filter_simps split: option.splits)

lemma mset_map_filter_cong: "mset xs = mset ys \<Longrightarrow> mset (List.map_filter f xs) = mset (List.map_filter f ys)"
  unfolding List.map_filter_def by (metis mset_filter mset_map)

lemma DetectServiceTransitions_facts:
  assumes "wf_gmap (stk_Services current)"
  shows "strictly_sorted (map tr_Name (DetectServiceTransitions prev current))"
    and "t \<in> set (DetectServiceTransitions prev current) \<longleftrightarrow>
       (\<exists>h. mget (stk_Services current) (tr_Name t) = Some h
          \<and> transition_of (prev_services prev) (tr_Name t) h = Some t)"
proof -
  show "strictly_sorted (map tr_Name (DetectServiceTransitions prev current))"
    using map_filter_distinct [OF assms]
    by (simp add: strictly_sorted_def DetectServiceTransitions_eq distinct_map)
  show "t \<in> set (DetectServiceTransitions prev current) \<longleftrightarrow>
       (\<exists>h. mget (stk_Services current) (tr_Name t) = Some h
          \<and> transition_of (prev_services prev) (tr_Name t) h = Some t)"
    by (auto simp: DetectServiceTransitions_eq set_map_filter assms
        dest: mget_in_set transition_of_Name intro!: bexI)
      (use assms transition_of_Name in fastforce)
qed

lemma filter_key_single:
  "distinct (map k xs) \<Longrightarrow> x \<in> set xs \<Longrightarrow> filter (\<lambda>y. k x = k y) xs = [x]"
proof (induction xs)
  case (Cons y ys)
  show ?case
  proof (cases "x = y")
    case True
    with Cons.prems have "\<forall>z \<in> set ys. k x \<noteq> k z" by auto
    then have "filter (\<lambda>z. k x = k z) ys = []" by (simp add: filter_empty_conv)
    with True show ?thesis by simp
  next
    case False
    with Cons.prems have x: "x \<in> set ys" by auto
    then have "k x \<in> k ` set ys" by (rule imageI)
    moreover have "k y \<notin> k ` set ys" using Cons.prems(1) by simp
    ultimately have "k x \<noteq> k y" by metis
    with Cons x show ?thesis by simp
  qed
qed simp

lemma sort_key_distinct_cong:
  assumes eq: "mset xs = mset ys" and "distinct (map k xs)"
  shows "sort_key k xs = sort_key k ys"
proof (rule properties_for_sort_key)
  have d: "distinct (map k (sort_key k ys))"
    using assms by (metis distinct_map mset_eq_imp_distinct_iff mset_eq_setD mset_sort)
  fix x assume x: "x \<in> set (sort_key k ys)"
  then have "x \<in> set xs" using mset_eq_setD [OF eq] by simp
  with x d assms(2) show "filter (\<lambda>y. k x = k y) (sort_key k ys) = filter (\<lambda>y. k x = k y) xs"
    by (simp only: filter_key_single)
qed (use eq in simp_all)

text \<open>
  C14. The reported transitions are exactly the changes: one per service of the current health
  whose status differs from the status last notified (or, before any notification, last seen),
  and one per new service that is not OK; sorted by name without repetition. They do not depend
  on the order in which the services are visited.
\<close>

theorem DetectServiceTransitions_spec:
  assumes "wf_gmap (stk_Services current)"
  shows "strictly_sorted (map tr_Name (DetectServiceTransitions prev current))
    \<and> (\<forall>t. t \<in> set (DetectServiceTransitions prev current) \<longleftrightarrow>
         (\<exists>h. mget (stk_Services current) (tr_Name t) = Some h
            \<and> transition_of (prev_services prev) (tr_Name t) h = Some t))
    \<and> (\<forall>current'. mset (stk_Services current') = mset (stk_Services current) \<longrightarrow>
         DetectServiceTransitions prev current' = DetectServiceTransitions prev current)"
proof (intro conjI allI impI)
  fix current' :: stack_health assume "mset (stk_Services current') = mset (stk_Services current)"
  from mset_map_filter_cong [OF this [symmetric]] map_filter_distinct [OF assms]
  show "DetectServiceTransitions prev current' = DetectServiceTransitions prev current"
    unfolding DetectServiceTransitions_eq by (intro sort_key_distinct_cong [symmetric])
qed (use DetectServiceTransitions_facts [OF assms] in simp_all)

lemma DetectServiceTransitions_spec_witness:
  "map tr_Name (DetectServiceTransitions None
     \<lparr>stk_Status = StatusFailed,
      stk_Services = [(''web'', zero_health\<lparr>sh_Status := StatusFailed\<rparr>),
        (''db'', zero_health\<lparr>sh_Status := StatusOK\<rparr>), (''api'', zero_health\<lparr>sh_Status := StatusDegraded\<rparr>)]\<rparr>)
   = [''api'', ''web'']"
proof -
  let ?m = "[(''web'', zero_health\<lparr>sh_Status := StatusFailed\<rparr>),
        (''db'', zero_health\<lparr>sh_Status := StatusOK\<rparr>), (''api'', zero_health\<lparr>sh_Status := StatusDegraded\<rparr>)]"
  let ?m' = "[(''api'', zero_health\<lparr>sh_Status := StatusDegraded\<rparr>),
        (''web'', zero_health\<lparr>sh_Status := StatusFailed\<rparr>), (''db'', zero_health\<lparr>sh_Status := StatusOK\<rparr>)]"
  let ?h = "\<lambda>m. \<lparr>stk_Status = StatusFailed, stk_Services = m\<rparr>"
  have "wf_gmap (stk_Services (?h ?m))" by (simp add: wf_gmap_def)
  from DetectServiceTransitions_spec [OF this, of None]
  have "mset (stk_Services (?h ?m')) = mset (stk_Services (?h ?m)) \<longrightarrow>
     DetectServiceTransitions None (?h ?m') = DetectServiceTransitions None (?h ?m)" by blast
  then have "DetectServiceTransitions None (?h ?m') = DetectServiceTransitions None (?h ?m)"
    by (simp add: add_mset_commute)
  moreover have "map tr_Name (DetectServiceTransitions None \<lparr>stk_Status = StatusFailed, stk_Services = ?m'\<rparr>)
      = [''api'', ''web'']"
    by (simp add: DetectServiceTransitions_def prev_services_def Let_def StatusOK_def StatusFailed_def
        StatusDegraded_def)
  ultimately show ?thesis by simp
qed

end
