(* ===== verification/Logging.thy ===== *)
theory Logging
  imports Health
begin

text \<open>
  \<open>internal/logging\<close>, and the log events the other components write. zerolog is a parameter: a
  logger is the function that writes one event in the world.
\<close>

section \<open>Events\<close>

datatype log_value =
    LStr string
  | LInt int
  | LDur int
  | LBool bool
  | LStrs "string list"
  | LErr goerror
  | LDrift "drift_detail list"

datatype log_level = LTrace | LDebug | LInfo | LWarn | LError | LFatal | LPanic

record log_event =
  lg_Level :: log_level
  lg_Msg :: string
  lg_Fields :: "(string \<times> log_value) list"

definition log_event_of :: "log_level \<Rightarrow> string \<Rightarrow> (string \<times> log_value) list \<Rightarrow> log_event" where
  "log_event_of lvl msg fs = \<lparr>lg_Level = lvl, lg_Msg = msg, lg_Fields = fs\<rparr>"

text \<open>The levels in the order of zerolog, from \<open>trace\<close> to \<open>panic\<close>.\<close>

fun level_rank :: "log_level \<Rightarrow> int" where
  "level_rank LTrace = -1"
| "level_rank LDebug = 0"
| "level_rank LInfo = 1"
| "level_rank LWarn = 2"
| "level_rank LError = 3"
| "level_rank LFatal = 4"
| "level_rank LPanic = 5"

lemma level_rank_inj [simp]: "level_rank a = level_rank b \<longleftrightarrow> a = b"
  by (cases a; cases b) simp_all

instantiation log_level :: linorder
begin

definition less_eq_log_level :: "log_level \<Rightarrow> log_level \<Rightarrow> bool" where
  "less_eq_log_level a b \<longleftrightarrow> level_rank a \<le> level_rank b"

definition less_log_level :: "log_level \<Rightarrow> log_level \<Rightarrow> bool" where
  "less_log_level a b \<longleftrightarrow> level_rank a < level_rank b"

instance
  by standard (auto simp: less_eq_log_level_def less_log_level_def antisym)

end

section \<open>The logger\<close>

text \<open>
  \<open>zl_Stdout lvl\<close> is \<open>zerolog.New(os.Stdout).With().Timestamp().Logger().Level(lvl)\<close>.
\<close>

record 'w zerolog =
  zl_SetGlobalLevel :: "log_level \<Rightarrow> 'w \<Rightarrow> 'w"
  zl_Stdout :: "log_level \<Rightarrow> log_event \<Rightarrow> 'w \<Rightarrow> 'w"

definition parseLevel :: "string \<Rightarrow> log_level \<times> bool" where
  "parseLevel lname =
     (let l = ToLower (TrimSpace lname) in
      if l = ''trace'' then (LTrace, True)
      else if l = ''debug'' then (LDebug, True)
      else if l = ''info'' \<or> l = '''' then (LInfo, True)
      else if l = ''warn'' \<or> l = ''warning'' then (LWarn, True)
      else if l = ''error'' then (LError, True)
      else if l = ''fatal'' then (LFatal, True)
      else if l = ''panic'' then (LPanic, True)
      else (LInfo, False))"

definition NewWithLevel :: "'w zerolog \<Rightarrow> string \<Rightarrow> 'w \<Rightarrow> (log_event \<Rightarrow> 'w \<Rightarrow> 'w) \<times> 'w" where
  "NewWithLevel zl lname w =
     (let (lvl, valid) = parseLevel lname;
          w1 = zl_SetGlobalLevel zl lvl w;
          logger = zl_Stdout zl lvl
      in (logger,
          if \<not> valid \<and> lname \<noteq> ''''
          then logger (log_event_of LWarn ''unrecognized log level, defaulting to info''
                 [(''provided'', LStr lname), (''using'', LStr ''info'')]) w1
          else w1))"

definition NewLogger :: "'w zerolog \<Rightarrow> 'w \<Rightarrow> (log_event \<Rightarrow> 'w \<Rightarrow> 'w) \<times> 'w" where
  "NewLogger zl = NewWithLevel zl ''info''"

section \<open>Properties\<close>

text \<open>The names that are known; an unknown one means \<open>info\<close>.\<close>

lemma parseLevel_cases:
  "snd (parseLevel lname) \<longleftrightarrow> ToLower (TrimSpace lname) \<in>
     {''trace'', ''debug'', ''info'', '''', ''warn'', ''warning'', ''error'', ''fatal'', ''panic''}"
  "\<not> snd (parseLevel lname) \<Longrightarrow> parseLevel lname = (LInfo, False)"
  by (simp_all add: parseLevel_def Let_def split: if_splits)

lemma parseLevel_blank: "parseLevel '''' = (LInfo, True)"
  by (simp add: parseLevel_def str_defs)

text \<open>
  Zerolog writes exactly the events that are neither below the logger's level nor below the global
  one; \<open>printed\<close> holds the written events.
\<close>

definition zerolog_filters ::
  "'w zerolog \<Rightarrow> ('w \<Rightarrow> log_event list) \<Rightarrow> ('w \<Rightarrow> log_level) \<Rightarrow> bool" where
  "zerolog_filters zl printed global \<longleftrightarrow>
     (\<forall>lvl w. printed (zl_SetGlobalLevel zl lvl w) = printed w \<and> global (zl_SetGlobalLevel zl lvl w) = lvl)
     \<and> (\<forall>lvl ev w. global (zl_Stdout zl lvl ev w) = global w
          \<and> printed (zl_Stdout zl lvl ev w) =
              (if max lvl (global w) \<le> lg_Level ev then printed w @ [ev] else printed w))"

definition level_warning :: "string \<Rightarrow> log_event" where
  "level_warning lname = log_event_of LWarn ''unrecognized log level, defaulting to info''
     [(''provided'', LStr lname), (''using'', LStr ''info'')]"

text \<open>
  The logger for a level writes exactly the events from that level on. A level that is not known
  means \<open>info\<close>, and then, and only then, one warning about it is written.
\<close>

theorem NewWithLevel_levels:
  assumes "zerolog_filters zl printed global"
  shows "let (logger, w') = NewWithLevel zl lname w in
    printed w' = printed w @ (if snd (parseLevel lname) then [] else [level_warning lname])
    \<and> global w' = fst (parseLevel lname)
    \<and> (if snd (parseLevel lname) then True else fst (parseLevel lname) = LInfo)
    \<and> printed (logger ev w') = printed w' @ (if fst (parseLevel lname) \<le> lg_Level ev then [ev] else [])"
proof (cases "snd (parseLevel lname)")
  case True
  then show ?thesis using assms
    by (simp add: NewWithLevel_def zerolog_filters_def Let_def case_prod_beta)
next
  case False
  from False have "lname \<noteq> ''''" "parseLevel lname = (LInfo, False)"
    using parseLevel_blank parseLevel_cases(2) by auto
  moreover have "LInfo \<le> LWarn" by (simp add: less_eq_log_level_def)
  ultimately show ?thesis using assms
    by (simp add: NewWithLevel_def zerolog_filters_def level_warning_def log_event_of_def Let_def)
qed

definition demo_zerolog :: "(log_event list \<times> log_level) zerolog" where
  "demo_zerolog = \<lparr>zl_SetGlobalLevel = (\<lambda>lvl (out, g). (out, lvl)),
     zl_Stdout = (\<lambda>lvl ev (out, g). (if max lvl g \<le> lg_Level ev then out @ [ev] else out, g))\<rparr>"

lemma NewWithLevel_levels_witness:
  "zerolog_filters demo_zerolog fst snd \<and> fst (snd (NewWithLevel demo_zerolog ''loud'' ([], LTrace))) = [level_warning ''loud'']"
proof -
  have f: "zerolog_filters demo_zerolog fst snd"
    by (auto simp: zerolog_filters_def demo_zerolog_def)
  have "\<not> snd (parseLevel ''loud'')" by (simp add: parseLevel_def str_defs)
  with NewWithLevel_levels [OF f, of "''loud''" "([], LTrace)"] f show ?thesis
    by (simp add: case_prod_beta)
qed

end
