(* ===== verification/Notifier.thy ===== *)
theory Notifier
  imports Transition Logging
begin

text \<open>
  \<open>internal/notify\<close> without the HTTP notifiers: the interface \<open>Notifier\<close>, the notifiers that deliver
  nothing, and the one that fans out. A \<open>Notify\<close> returns an error or nothing, and the next world;
  it may also not return at all (the HTTP notifiers retry in a loop), which is \<open>None\<close>.
\<close>

section \<open>The interface\<close>

type_synonym 'w notifier =
  "string \<Rightarrow> service_transition list \<Rightarrow> 'w \<Rightarrow> (goerror option \<times> 'w) option"

text \<open>What every notifier promises: with nothing to report it returns at once and does nothing.\<close>

locale transition_notifier =
  fixes notify :: "'w notifier"
  assumes quiet: "notify stack [] w = Some (None, w)"

text \<open>
  A notifier that delivers: the transitions of a stack become the list \<open>payloads\<close>, and what it adds to
  the delivered ones (\<open>ack\<close>) is a prefix of that list, the whole of it when there is no error.
\<close>

locale delivering_notifier = transition_notifier notify for notify :: "'w notifier" +
  fixes ack :: "'w \<Rightarrow> 'p list" and payloads :: "string \<Rightarrow> service_transition list \<Rightarrow> 'p list"
  assumes delivers: "notify stack ts w = Some (res, w') \<Longrightarrow>
    \<exists>k \<le> length (payloads stack ts). ack w' = ack w @ take k (payloads stack ts)
      \<and> (res = None \<longleftrightarrow> k = length (payloads stack ts))"
begin

lemma delivered_all: "notify stack ts w = Some (None, w') \<Longrightarrow> ack w' = ack w @ payloads stack ts"
  using delivers by fastforce

lemma failed_incomplete:
  "notify stack ts w = Some (Some e, w') \<Longrightarrow>
   \<exists>k < length (payloads stack ts). ack w' = ack w @ take k (payloads stack ts)"
  using delivers [of stack ts w "Some e" w'] by (auto simp: le_less)

end

definition returns :: "'w notifier \<Rightarrow> bool" where
  "returns notify \<longleftrightarrow> (\<forall>stack ts w. notify stack ts w \<noteq> None)"

section \<open>Notifiers that deliver nothing\<close>

record 'w noop_notifier =
  no_logger :: "log_event \<Rightarrow> 'w \<Rightarrow> 'w"
  no_reason :: string

definition NewNoop :: "(log_event \<Rightarrow> 'w \<Rightarrow> 'w) \<Rightarrow> string \<Rightarrow> 'w \<Rightarrow> 'w noop_notifier \<times> 'w" where
  "NewNoop logger reason w =
     (\<lparr>no_logger = logger, no_reason = reason\<rparr>,
      if reason \<noteq> '''' then logger (log_event_of LInfo reason []) w else w)"

definition Noop_Notify :: "'w noop_notifier \<Rightarrow> 'w notifier" where
  "Noop_Notify n stack transitions w = Some (None, w)"

record 'w dry_run_notifier =
  dr_logger :: "log_event \<Rightarrow> 'w \<Rightarrow> 'w"
  dr_inner :: "'w notifier"

definition NewDryRunNotifier ::
  "(log_event \<Rightarrow> 'w \<Rightarrow> 'w) \<Rightarrow> 'w notifier \<Rightarrow> 'w dry_run_notifier" where
  "NewDryRunNotifier logger inner = \<lparr>dr_logger = logger, dr_inner = inner\<rparr>"

definition dry_run_event :: "string \<Rightarrow> service_transition \<Rightarrow> log_event" where
  "dry_run_event stack change = log_event_of LInfo ''[DRY-RUN] Would notify''
     [(''stack'', LStr stack), (''service'', LStr (tr_Name change)),
      (''previous_status'', LStr (tr_PreviousStatus change)),
      (''current_status'', LStr (tr_CurrentStatus change)), (''reasons'', LStrs (tr_Reasons change))]"

definition DryRun_Notify :: "'w dry_run_notifier \<Rightarrow> 'w notifier" where
  "DryRun_Notify n stack transitions w =
     Some (None, fold (\<lambda>change. dr_logger n (dry_run_event stack change)) transitions w)"

section \<open>The notifier that fans out\<close>

text \<open>A \<open>nil\<close> interface is \<open>None\<close>.\<close>

record 'w multi_notifier =
  mn_notifiers :: "'w notifier option list"

definition NewMultiNotifier :: "'w notifier option list \<Rightarrow> 'w multi_notifier" where
  "NewMultiNotifier notifiers = \<lparr>mn_notifiers = filter (\<lambda>n. n \<noteq> None) notifiers\<rparr>"

fun multi_loop ::
  "'w notifier option list \<Rightarrow> string \<Rightarrow> service_transition list \<Rightarrow> goerror option \<Rightarrow> 'w \<Rightarrow>
   (goerror option \<times> 'w) option" where
  "multi_loop [] stack transitions firstErr w = Some (firstErr, w)"
| "multi_loop (None # rest) stack transitions firstErr w = multi_loop rest stack transitions firstErr w"
| "multi_loop (Some notify # rest) stack transitions firstErr w =
     (case notify stack transitions w of
        None \<Rightarrow> None
      | Some (err, w1) \<Rightarrow>
          multi_loop rest stack transitions
            (if err \<noteq> None \<and> firstErr = None then err else firstErr) w1)"

definition Multi_Notify :: "'w multi_notifier \<Rightarrow> 'w notifier" where
  "Multi_Notify m stack transitions w = multi_loop (mn_notifiers m) stack transitions None w"

section \<open>They keep the contract\<close>

interpretation noop: transition_notifier "Noop_Notify n" for n
  by unfold_locales (simp add: Noop_Notify_def)

interpretation dry_run: transition_notifier "DryRun_Notify n" for n
  by unfold_locales (simp add: DryRun_Notify_def)

interpretation noop_delivers: delivering_notifier "Noop_Notify n" ack "\<lambda>stack ts. []" for n ack
  by unfold_locales (simp add: Noop_Notify_def)

text \<open>A fan-out keeps it when its parts do.\<close>

lemma multi_loop_quiet:
  assumes "\<And>notify. Some notify \<in> set ns \<Longrightarrow> transition_notifier notify"
  shows "multi_loop ns stack [] e w = Some (e, w)"
  using assms
proof (induction ns)
  case (Cons n ns)
  then show ?case by (cases n) (auto simp: transition_notifier.quiet)
qed simp

lemma Multi_quiet:
  assumes "\<And>notify. Some notify \<in> set ns \<Longrightarrow> transition_notifier notify"
  shows "transition_notifier (Multi_Notify (NewMultiNotifier ns))"
  by unfold_locales (use assms in \<open>auto simp: Multi_Notify_def NewMultiNotifier_def intro!: multi_loop_quiet\<close>)

lemma multi_loop_returns:
  assumes "\<And>notify. Some notify \<in> set ns \<Longrightarrow> returns notify"
  shows "multi_loop ns stack ts e w \<noteq> None"
  using assms
proof (induction ns arbitrary: e w)
  case (Cons n ns)
  then show ?case
    by (cases n) (auto simp: returns_def split: option.splits)
qed simp

lemma Multi_returns:
  assumes "\<And>notify. Some notify \<in> set ns \<Longrightarrow> returns notify"
  shows "returns (Multi_Notify (NewMultiNotifier ns))"
  using assms multi_loop_returns [of "filter (\<lambda>n. n \<noteq> None) ns"]
  by (auto simp: returns_def Multi_Notify_def NewMultiNotifier_def)

section \<open>Properties\<close>

text \<open>What all the notifiers answer when they are called one after the other.\<close>

fun notify_all ::
  "'w notifier list \<Rightarrow> string \<Rightarrow> service_transition list \<Rightarrow> 'w \<Rightarrow> (goerror option list \<times> 'w) option" where
  "notify_all [] stack ts w = Some ([], w)"
| "notify_all (notify # rest) stack ts w =
     (case notify stack ts w of
        None \<Rightarrow> None
      | Some (err, w1) \<Rightarrow> map_option (\<lambda>(errs, w2). (err # errs, w2)) (notify_all rest stack ts w1))"

lemma multi_loop_all:
  "multi_loop (filter (\<lambda>n. n \<noteq> None) ns) stack ts e w =
     map_option (\<lambda>(errs, w'). (if e = None then first_some (\<lambda>x. x) errs else e, w'))
       (notify_all (map the (filter (\<lambda>n. n \<noteq> None) ns)) stack ts w)"
proof (induction ns arbitrary: e w)
  case (Cons n ns)
  then show ?case
    by (auto simp: option.map_comp comp_def case_prod_beta split: option.splits intro!: option.map_cong)
qed simp

text \<open>
  C27. A fan-out over any notifiers, \<open>nil\<close> ones included, calls each of the others once and in order,
  whatever the earlier ones answer, and returns the first of their errors. (It does not return
  when one of them does not.)
\<close>

theorem Multi_notifies_all:
  "Multi_Notify (NewMultiNotifier ns) stack ts w =
     map_option (\<lambda>(errs, w'). (first_some (\<lambda>x. x) errs, w'))
       (notify_all (map the (filter (\<lambda>n. n \<noteq> None) ns)) stack ts w)"
  using multi_loop_all [of ns stack ts None w]
  by (simp add: Multi_Notify_def NewMultiNotifier_def)

end
