(* ===== verification/Swarm_Pagination.thy ===== *)
theory Swarm_Pagination
  imports Go_Errors
begin

text \<open>
  \<open>internal/swarm/pagination.go\<close>: listing a collection by ID prefixes when one listing may be
  truncated. The Docker API is a parameter \<open>listFn\<close>, which takes the filters of the query and
  the state of the outside world and returns the items or an error with the next world; a
  \<open>filters.Args\<close> value is the list of its \<open>Add\<close> calls, and \<open>Clone\<close> is the identity since the
  model's values are never mutated. The set \<open>seen\<close>, which \<open>appendUnique\<close> mutates, is returned
  beside the slice.
\<close>

type_synonym filters = "(string \<times> string) list"

definition filters_Add :: "filters \<Rightarrow> string \<Rightarrow> string \<Rightarrow> filters" where
  "filters_Add f k v = f @ [(k, v)]"

definition maxListPageSize :: nat where
  "maxListPageSize = 1000"

definition maxIDPrefixDepth :: nat where
  "maxIDPrefixDepth = 2"

definition idPrefixCharacters :: string where
  "idPrefixCharacters = ''0123456789abcdefghijklmnopqrstuvwxyz''"

fun appendUnique ::
  "'t list \<Rightarrow> 't list \<Rightarrow> unit gmap \<Rightarrow> ('t \<Rightarrow> string) \<Rightarrow> 't list \<times> unit gmap" where
  "appendUnique dst [] seen idFn = (dst, seen)"
| "appendUnique dst (item # items) seen idFn =
     (let uid = idFn item in
      if uid = '''' then appendUnique dst items seen idFn
      else if mget seen uid \<noteq> None then appendUnique dst items seen idFn
      else appendUnique (dst @ [item]) items (mput uid () seen) idFn)"

text \<open>The loop over the prefix characters, shared by both functions of the file.\<close>

fun prefix_loop ::
  "(string \<Rightarrow> 'w \<Rightarrow> (goerror + 't list) \<times> 'w) \<Rightarrow> ('t \<Rightarrow> string) \<Rightarrow> string \<Rightarrow> string \<Rightarrow>
   't list \<Rightarrow> unit gmap \<Rightarrow> 'w \<Rightarrow> (goerror + 't list) \<times> 'w" where
  "prefix_loop child idFn prefix [] results seen w = (Inr results, w)"
| "prefix_loop child idFn prefix (ch # chs) results seen w =
     (case child (prefix @ [ch]) w of
        (Inl err, w') \<Rightarrow> (Inl err, w')
      | (Inr items, w') \<Rightarrow>
          (case appendUnique results items seen idFn of
             (results', seen') \<Rightarrow> prefix_loop child idFn prefix chs results' seen' w'))"

function paginateByIDPrefixDepth ::
  "filters \<Rightarrow> string \<Rightarrow> nat \<Rightarrow> (filters \<Rightarrow> 'w \<Rightarrow> (goerror + 't list) \<times> 'w) \<Rightarrow>
   ('t \<Rightarrow> string) \<Rightarrow> 'w \<Rightarrow> (goerror + 't list) \<times> 'w" where
  "paginateByIDPrefixDepth base prefix depth listFn idFn w =
     (case listFn (filters_Add base ''id'' prefix) w of
        (Inl err, w') \<Rightarrow> (Inl err, w')
      | (Inr items, w') \<Rightarrow>
          if length items \<le> maxListPageSize \<or> depth \<ge> maxIDPrefixDepth then (Inr items, w')
          else prefix_loop
                 (\<lambda>childPrefix. paginateByIDPrefixDepth base childPrefix (depth + 1) listFn idFn)
                 idFn prefix idPrefixCharacters [] [] w')"
  by pat_completeness auto
termination
  by (relation "measure (\<lambda>(base, prefix, depth, listFn, idFn, w). maxIDPrefixDepth - depth)") auto

declare paginateByIDPrefixDepth.simps [simp del]

definition paginateByIDPrefix ::
  "filters \<Rightarrow> (filters \<Rightarrow> 'w \<Rightarrow> (goerror + 't list) \<times> 'w) \<Rightarrow> ('t \<Rightarrow> string) \<Rightarrow>
   'w \<Rightarrow> (goerror + 't list) \<times> 'w" where
  "paginateByIDPrefix base listFn idFn w =
     prefix_loop (\<lambda>prefix. paginateByIDPrefixDepth base prefix 1 listFn idFn)
       idFn '''' idPrefixCharacters [] [] w"

section \<open>Unique results\<close>

definition uniq_inv :: "('t \<Rightarrow> string) \<Rightarrow> 't list \<Rightarrow> unit gmap \<Rightarrow> bool" where
  "uniq_inv idFn dst seen \<longleftrightarrow>
     distinct (map idFn dst) \<and> '''' \<notin> idFn ` set dst \<and> dom (mget seen) = idFn ` set dst"

lemma uniq_inv_empty [simp, intro]: "uniq_inv idFn [] []"
  by (simp add: uniq_inv_def)

lemma uniq_inv_add:
  "uniq_inv idFn dst seen \<Longrightarrow> idFn item \<noteq> '''' \<Longrightarrow> mget seen (idFn item) = None \<Longrightarrow>
     uniq_inv idFn (dst @ [item]) (mput (idFn item) () seen)"
  by (auto simp: uniq_inv_def mget_mput_fun domIff dest: equalityD2)

lemma appendUnique_spec:
  assumes "uniq_inv idFn dst seen" "appendUnique dst items seen idFn = (dst', seen')"
  shows "uniq_inv idFn dst' seen' \<and> set dst' \<subseteq> set dst \<union> set items \<and>
    idFn ` set dst' = idFn ` set dst \<union> (idFn ` set items - {''''})"
  using assms
proof (induction dst items seen idFn rule: appendUnique.induct)
  case (2 dst item items seen idFn)
  consider "idFn item = ''''" | "idFn item \<noteq> ''''" "mget seen (idFn item) \<noteq> None"
    | "idFn item \<noteq> ''''" "mget seen (idFn item) = None" by blast
  then show ?case
  proof cases
    case 1
    with 2 show ?thesis by (auto simp: Let_def)
  next
    case b: 2
    with "2.prems" have "idFn item \<in> idFn ` set dst"
      by (metis domIff uniq_inv_def)
    with 2 b show ?thesis by (auto simp: Let_def)
  next
    case 3
    then have "uniq_inv idFn (dst @ [item]) (mput (idFn item) () seen)"
      using "2.prems" by (simp add: uniq_inv_add)
    with 2 3 show ?thesis by (auto simp: Let_def)
  qed
qed simp

text \<open>
  One listing is complete for a prefix when it holds exactly the items with that prefix, up to
  repetition of an ID.
\<close>

definition lists_prefix :: "('t \<Rightarrow> string) \<Rightarrow> 't list \<Rightarrow> string \<Rightarrow> 't list \<Rightarrow> bool" where
  "lists_prefix idFn all prefix items \<longleftrightarrow>
     set items \<subseteq> set all \<and> idFn ` set items = {uid \<in> idFn ` set all. HasPrefix uid prefix}"

lemma lists_prefix_filter: "lists_prefix idFn all prefix (filter (\<lambda>x. HasPrefix (idFn x) prefix) all)"
  by (auto simp: lists_prefix_def)

lemma prefix_loop_spec:
  assumes "\<And>ch w. ch \<in> set chs \<Longrightarrow>
      \<exists>items w'. child (prefix @ [ch]) w = (Inr items, w') \<and> lists_prefix idFn all (prefix @ [ch]) items"
    and "uniq_inv idFn results seen" "set results \<subseteq> set all"
  shows "\<exists>xs w'. prefix_loop child idFn prefix chs results seen w = (Inr xs, w') \<and>
    distinct (map idFn xs) \<and> '''' \<notin> idFn ` set xs \<and> set xs \<subseteq> set all \<and>
    idFn ` set xs = idFn ` set results \<union>
      {uid \<in> idFn ` set all. \<exists>ch \<in> set chs. HasPrefix uid (prefix @ [ch])}"
  using assms
proof (induction chs arbitrary: results seen w)
  case Nil
  then show ?case by (simp add: uniq_inv_def)
next
  case (Cons ch chs)
  then obtain items w' where child: "child (prefix @ [ch]) w = (Inr items, w')"
    and items: "lists_prefix idFn all (prefix @ [ch]) items" by (meson list.set_intros(1))
  obtain results' seen' where app: "appendUnique results items seen idFn = (results', seen')"
    by (cases "appendUnique results items seen idFn")
  note app_spec = appendUnique_spec [OF Cons.prems(2) app]
  have "set results' \<subseteq> set all"
    using app_spec items Cons.prems(3) by (auto simp: lists_prefix_def)
  moreover have "idFn ` set results' =
      idFn ` set results \<union> {uid \<in> idFn ` set all. HasPrefix uid (prefix @ [ch])}"
    using app_spec items by (auto simp: lists_prefix_def HasPrefix_def)
  ultimately show ?case
    using Cons.IH [of results' seen' w'] Cons.prems(1) app_spec child app by auto
qed

section \<open>Completeness\<close>

text \<open>An ID as Swarm makes them: at least two characters, all of them of the alphabet.\<close>

definition valid_id :: "string \<Rightarrow> bool" where
  "valid_id uid \<longleftrightarrow> maxIDPrefixDepth \<le> length uid \<and> set uid \<subseteq> set idPrefixCharacters"

lemma valid_id_extend:
  assumes "valid_id uid" "length prefix < maxIDPrefixDepth"
  shows "HasPrefix uid prefix \<longleftrightarrow>
    (\<exists>ch \<in> set idPrefixCharacters. HasPrefix uid (prefix @ [ch]))"
proof
  assume "HasPrefix uid prefix"
  then obtain t where t: "uid = prefix @ t" by (auto simp: HasPrefix_iff)
  with assms obtain c t' where "t = c # t'" by (cases t) (auto simp: valid_id_def)
  with t assms have "uid = (prefix @ [c]) @ t'" "c \<in> set idPrefixCharacters"
    by (auto simp: valid_id_def)
  then show "\<exists>ch \<in> set idPrefixCharacters. HasPrefix uid (prefix @ [ch])"
    using HasPrefix_append by blast
next
  assume "\<exists>ch \<in> set idPrefixCharacters. HasPrefix uid (prefix @ [ch])"
  then show "HasPrefix uid prefix" by (auto simp: HasPrefix_iff)
qed

lemma valid_id_extend_set:
  assumes "\<And>uid. uid \<in> idFn ` set all \<Longrightarrow> valid_id uid" "length prefix < maxIDPrefixDepth"
  shows "{uid \<in> idFn ` set all. \<exists>ch \<in> set idPrefixCharacters. HasPrefix uid (prefix @ [ch])} =
    {uid \<in> idFn ` set all. HasPrefix uid prefix}"
  using assms valid_id_extend by blast

text \<open>
  What the code relies on of the \<open>id\<close> filter, for the prefixes it asks for: a query returns a list,
  and a list of at most a page is complete for the prefix, as is one for a prefix of the greatest
  depth. A list of more than a page for a shorter prefix may have been cut off: nothing is assumed
  of its items.
\<close>

definition lists_by_prefix ::
  "filters \<Rightarrow> (filters \<Rightarrow> 'w \<Rightarrow> (goerror + 't list) \<times> 'w) \<Rightarrow> ('t \<Rightarrow> string) \<Rightarrow> 't list \<Rightarrow> bool" where
  "lists_by_prefix base listFn idFn all \<longleftrightarrow>
     (\<forall>prefix w. 1 \<le> length prefix \<longrightarrow> length prefix \<le> maxIDPrefixDepth \<longrightarrow>
        (\<exists>items. fst (listFn (filters_Add base ''id'' prefix) w) = Inr items \<and>
           (length items \<le> maxListPageSize \<or> length prefix = maxIDPrefixDepth \<longrightarrow>
              lists_prefix idFn all prefix items)))"

lemma lists_by_prefixE:
  assumes "lists_by_prefix base listFn idFn all"
    and "1 \<le> length prefix" "length prefix \<le> maxIDPrefixDepth"
  obtains items w' where "listFn (filters_Add base ''id'' prefix) w = (Inr items, w')"
    and "length items \<le> maxListPageSize \<or> length prefix = maxIDPrefixDepth \<Longrightarrow>
      lists_prefix idFn all prefix items"
  using assms unfolding lists_by_prefix_def by (metis prod.collapse)

lemma paginateByIDPrefixDepth_spec:
  assumes "lists_by_prefix base listFn idFn all"
    and "\<And>uid. uid \<in> idFn ` set all \<Longrightarrow> valid_id uid"
    and "length prefix = depth" "1 \<le> depth" "depth \<le> maxIDPrefixDepth"
  shows "\<exists>items w'. paginateByIDPrefixDepth base prefix depth listFn idFn w = (Inr items, w') \<and>
    lists_prefix idFn all prefix items"
  using assms
proof (induction "maxIDPrefixDepth - depth" arbitrary: depth prefix w rule: less_induct)
  case less
  obtain here w1 where w1: "listFn (filters_Add base ''id'' prefix) w = (Inr here, w1)"
    and here: "length here \<le> maxListPageSize \<or> length prefix = maxIDPrefixDepth \<Longrightarrow>
      lists_prefix idFn all prefix here"
    using lists_by_prefixE [OF less.prems(1), of prefix w] less.prems(3-5) by blast
  show ?case
  proof (cases "length here \<le> maxListPageSize \<or> depth \<ge> maxIDPrefixDepth")
    case True
    with here less.prems(3,5) have "lists_prefix idFn all prefix here" by auto
    with True w1 show ?thesis
      by (subst paginateByIDPrefixDepth.simps) auto
  next
    case False
    let ?child = "\<lambda>p. paginateByIDPrefixDepth base p (depth + 1) listFn idFn"
    have "\<exists>items w'. ?child (prefix @ [ch]) v = (Inr items, w') \<and>
        lists_prefix idFn all (prefix @ [ch]) items" for ch v
      using False less.prems by (intro less.hyps) auto
    then obtain xs w2 where loop: "prefix_loop ?child idFn prefix idPrefixCharacters [] [] w1 = (Inr xs, w2)"
      and xs: "set xs \<subseteq> set all"
        "idFn ` set xs = {uid \<in> idFn ` set all. \<exists>ch \<in> set idPrefixCharacters. HasPrefix uid (prefix @ [ch])}"
      using prefix_loop_spec [of idPrefixCharacters ?child prefix idFn all "[]" "[]" w1] by auto
    have "lists_prefix idFn all prefix xs"
      using xs False less.prems(2,3) valid_id_extend_set [of idFn all prefix]
      by (simp add: lists_prefix_def)
    with False w1 loop show ?thesis
      by (subst paginateByIDPrefixDepth.simps) auto
  qed
qed

section \<open>The number of queries\<close>

lemma prefix_loop_queries:
  assumes "\<And>p w. cnt (snd (child p w)) \<le> cnt w + (k :: nat)"
  shows "cnt (snd (prefix_loop child idFn prefix chs results seen w)) \<le> cnt w + length chs * k"
proof (induction chs arbitrary: results seen w)
  case (Cons ch chs)
  obtain r w' where child: "child (prefix @ [ch]) w = (r, w')" by fastforce
  with assms [of "prefix @ [ch]" w] have w': "cnt w' \<le> cnt w + k" by simp
  show ?case
  proof (cases r)
    case (Inl err)
    with child w' show ?thesis by simp
  next
    case (Inr items)
    obtain rs sn where "appendUnique results items seen idFn = (rs, sn)" by fastforce
    with child w' Inr Cons.IH [of rs sn w'] show ?thesis by simp
  qed
qed simp

lemma paginateByIDPrefixDepth_leaf_queries:
  assumes "\<And>f w. cnt (snd (listFn f w)) \<le> cnt w + (k :: nat)" "depth \<ge> maxIDPrefixDepth"
  shows "cnt (snd (paginateByIDPrefixDepth base prefix depth listFn idFn w)) \<le> cnt w + k"
  using assms(1) [of "filters_Add base ''id'' prefix" w] assms(2)
  by (subst paginateByIDPrefixDepth.simps) (auto split: prod.splits sum.splits)

lemma idPrefixCharacters_length [simp]: "length idPrefixCharacters = 36"
  by (simp add: idPrefixCharacters_def)

lemma paginateByIDPrefixDepth_queries:
  assumes "\<And>f w. cnt (snd (listFn f w)) \<le> cnt w + (k :: nat)"
  shows "cnt (snd (paginateByIDPrefixDepth base prefix 1 listFn idFn w)) \<le> cnt w + 37 * k"
proof -
  obtain r w' where list: "listFn (filters_Add base ''id'' prefix) w = (r, w')" by fastforce
  with assms [of "filters_Add base ''id'' prefix" w] have w': "cnt w' \<le> cnt w + k" by simp
  let ?child = "\<lambda>p. paginateByIDPrefixDepth base p (1 + 1) listFn idFn"
  have "cnt (snd (?child p v)) \<le> cnt v + k" for p v
    using assms by (rule paginateByIDPrefixDepth_leaf_queries) (simp add: maxIDPrefixDepth_def)
  from prefix_loop_queries [of cnt ?child k idFn prefix idPrefixCharacters "[]" "[]" w', OF this]
  show ?thesis using list w'
    by (subst paginateByIDPrefixDepth.simps) (auto split: sum.splits)
qed

lemma paginateByIDPrefix_all:
  assumes "lists_by_prefix base listFn idFn all"
    and "\<forall>uid \<in> idFn ` set all. valid_id uid"
  shows "\<exists>xs w'. paginateByIDPrefix base listFn idFn w = (Inr xs, w') \<and>
    distinct (map idFn xs) \<and> set xs \<subseteq> set all \<and> idFn ` set xs = idFn ` set all"
proof -
  have valid: "valid_id uid" if "uid \<in> idFn ` set all" for uid
    using assms(2) that by blast
  let ?child = "\<lambda>p. paginateByIDPrefixDepth base p 1 listFn idFn"
  have "\<exists>items w'. ?child ('''' @ [ch]) v = (Inr items, w') \<and>
      lists_prefix idFn all ('''' @ [ch]) items" for ch v
    using assms(1) valid by (intro paginateByIDPrefixDepth_spec) (auto simp: maxIDPrefixDepth_def)
  from prefix_loop_spec [of idPrefixCharacters ?child "''''" idFn all "[]" "[]" w, OF this]
  show ?thesis
    using valid_id_extend_set [of idFn all "''''", OF valid]
    by (auto simp: paginateByIDPrefix_def maxIDPrefixDepth_def HasPrefix_def)
qed

section \<open>Properties\<close>

text \<open>
  C17. Listing by ID prefixes loses nothing to truncation. Suppose a query by prefix may return a
  truncated list whenever it returns more than a page, except at the greatest depth, and is complete
  otherwise, and the IDs are made as Swarm makes them. Then \<open>paginateByIDPrefix\<close> succeeds with
  items of the collection, one for each ID that occurs in it and none twice: a prefix whose list
  might have been cut off has been split into longer ones.
\<close>

theorem paginateByIDPrefix_complete:
  assumes "lists_by_prefix base listFn idFn all"
    and "\<forall>uid \<in> idFn ` set all. valid_id uid"
  shows "\<exists>xs w'. paginateByIDPrefix base listFn idFn w = (Inr xs, w') \<and>
    distinct (map idFn xs) \<and> set xs \<subseteq> set all \<and> idFn ` set xs = idFn ` set all"
  using assms by (rule paginateByIDPrefix_all)

text \<open>
  A server that cuts every list for a prefix of one character, and repeats one item in its place.
\<close>

definition truncating_list :: "filters \<Rightarrow> nat \<Rightarrow> (goerror + string list) \<times> nat" where
  "truncating_list f w =
     (Inr (if length (snd (last f)) < 2 then replicate 1001 ''k1''
           else filter (\<lambda>x. HasPrefix x (snd (last f))) [''k1'', ''k2'', ''zz'']), Suc w)"

lemma truncating_list_by_prefix:
  "lists_by_prefix base truncating_list (\<lambda>x. x) [''k1'', ''k2'', ''zz'']"
  unfolding lists_by_prefix_def
proof (intro allI impI)
  fix prefix :: string and w :: nat
  assume "1 \<le> length prefix" "length prefix \<le> maxIDPrefixDepth"
  then show "\<exists>items. fst (truncating_list (filters_Add base ''id'' prefix) w) = Inr items \<and>
      (length items \<le> maxListPageSize \<or> length prefix = maxIDPrefixDepth \<longrightarrow>
        lists_prefix (\<lambda>x. x) [''k1'', ''k2'', ''zz''] prefix items)"
    using lists_prefix_filter [of "\<lambda>x. x" "[''k1'', ''k2'', ''zz'']" prefix]
    by (cases "length prefix < 2")
      (simp_all add: truncating_list_def filters_Add_def maxListPageSize_def maxIDPrefixDepth_def)
qed

theorem paginateByIDPrefix_complete_witness:
  "\<exists>xs w'. paginateByIDPrefix [(''service'', ''s'')] truncating_list (\<lambda>x. x) 0 = (Inr xs, w') \<and>
     distinct (map (\<lambda>x. x) xs) \<and> set xs \<subseteq> set [''k1'', ''k2'', ''zz''] \<and>
     (\<lambda>x. x) ` set xs = (\<lambda>x. x) ` set [''k1'', ''k2'', ''zz'']"
  by (rule paginateByIDPrefix_complete [OF truncating_list_by_prefix])
    (simp add: valid_id_def maxIDPrefixDepth_def idPrefixCharacters_def)

text \<open>
  The number of queries is bounded: with 36 prefix characters and a depth of two,
  \<open>paginateByIDPrefix\<close> makes at most \<open>36 * 37 = 1332\<close> queries. \<open>cnt\<close> is any counter in the
  outside world that one query advances by at most \<open>k\<close> (by the attempts of its retry loop, say).
\<close>

theorem paginateByIDPrefix_queries:
  assumes "\<And>f w. cnt (snd (listFn f w)) \<le> cnt w + (k :: nat)"
  shows "cnt (snd (paginateByIDPrefix base listFn idFn w)) \<le> cnt w + 1332 * k"
proof -
  let ?child = "\<lambda>p. paginateByIDPrefixDepth base p 1 listFn idFn"
  have "cnt (snd (?child p v)) \<le> cnt v + 37 * k" for p v
    using assms by (rule paginateByIDPrefixDepth_queries)
  from prefix_loop_queries [of cnt ?child "37 * k" idFn "''''" idPrefixCharacters "[]" "[]" w, OF this]
  show ?thesis by (simp add: paginateByIDPrefix_def)
qed

theorem paginateByIDPrefix_queries_witness:
  "(snd (paginateByIDPrefix [] (\<lambda>f w. (Inr [snd (last f)], Suc w)) (\<lambda>x. x) (0 :: nat)) :: nat)
     \<le> 0 + 1332 * 1"
  using paginateByIDPrefix_queries [where cnt = "\<lambda>w. w" and k = 1 and base = "[]" and w = 0
    and listFn = "\<lambda>f w. (Inr [snd (last f)], Suc w)" and idFn = "\<lambda>x. x"] by simp

end
