(* ===== verification/Swarm_Docker.thy ===== *)
theory Swarm_Docker
  imports Swarm_State Swarm_Pagination
begin

text \<open>
  \<open>internal/swarm/docker_client.go\<close> and \<open>api.go\<close>: the Docker client with its retry policy and the
  collection of the actual state. The Docker SDK is a parameter, the record of the four functions
  of the interface \<open>dockerAPI\<close>, each of which answers in a world and returns the next one. Log
  lines are not modelled.
\<close>

section \<open>The Docker API and the client\<close>

record 'w docker_api =
  da_Ping :: "'w \<Rightarrow> (goerror + unit) \<times> 'w"
  da_ServiceList :: "filters \<Rightarrow> bool \<Rightarrow> 'w \<Rightarrow> (goerror + swarm_service list) \<times> 'w"
  da_TaskList :: "filters \<Rightarrow> 'w \<Rightarrow> (goerror + swarm_task list) \<times> 'w"
  da_Close :: "'w \<Rightarrow> goerror option \<times> 'w"

definition dockerClientAdapter :: "'w docker_api \<Rightarrow> 'w docker_api" where
  "dockerClientAdapter client =
     \<lparr>da_Ping = (\<lambda>w. da_Ping client w),
      da_ServiceList = (\<lambda>options status w. da_ServiceList client options status w),
      da_TaskList = (\<lambda>options w. da_TaskList client options w),
      da_Close = (\<lambda>w. da_Close client w)\<rparr>"

definition defaultAPITimeout :: int where
  "defaultAPITimeout = 30 * Second"

definition defaultRetryBackoffs :: "int list" where
  "defaultRetryBackoffs = [Second, 2 * Second, 4 * Second]"

record 'w docker_client =
  dc_api :: "'w docker_api option"
  dc_timeout :: int
  dc_retryBackoffs :: "int list"

section \<open>Retries\<close>

definition isRetryableDockerError :: "goerror \<Rightarrow> bool" where
  "isRetryableDockerError err =
     (if is_canceled err then False
      else if is_unauthorized err \<or> is_forbidden err then False
      else if is_deadline err then True
      else if (case as_net err of Some (timeout, temporary) \<Rightarrow> timeout \<or> temporary | None \<Rightarrow> False)
        then True
      else let msg = ToLower (err_msg err) in
        if Contains msg ''timeout'' \<or> Contains msg ''connection reset'' \<or>
           Contains msg ''connection refused'' \<or> Contains msg ''broken pipe'' \<or>
           Contains msg ''eof'' \<or> Contains msg ''leader election'' then True
        else if Contains msg ''unauthorized'' \<or> Contains msg ''authorization'' \<or>
           Contains msg ''authentication'' \<or> Contains msg ''forbidden'' then False
        else False)"

definition maxRetries :: nat where
  "maxRetries = 3"

definition maxAttempts :: nat where
  "maxAttempts = maxRetries + 1"

definition retryBackoffs :: "'w docker_client \<Rightarrow> int list" where
  "retryBackoffs c = (if dc_retryBackoffs c = [] then defaultRetryBackoffs else dc_retryBackoffs c)"

definition backoff_at :: "int list \<Rightarrow> nat \<Rightarrow> int" where
  "backoff_at backoffs attempt =
     (let waitIndex = attempt - 1 in
      backoffs ! (if waitIndex \<ge> length backoffs then length backoffs - 1 else waitIndex))"

function withRetry_from ::
  "'w ctx_env \<Rightarrow> int list \<Rightarrow> ('w \<Rightarrow> (goerror + 'a) \<times> 'w) \<Rightarrow> nat \<Rightarrow> 'w \<Rightarrow> (goerror + 'a) \<times> 'w" where
  "withRetry_from ctx backoffs fn attempt w =
     (if attempt \<le> maxAttempts then
        (case ce_err ctx w of
           Some err \<Rightarrow> (Inl err, w)
         | None \<Rightarrow>
             (case fn w of
                (Inr a, w1) \<Rightarrow> (Inr a, w1)
              | (Inl err, w1) \<Rightarrow>
                  if \<not> isRetryableDockerError err \<or> attempt = maxAttempts then (Inl err, w1)
                  else
                    (case ce_wait ctx (backoff_at backoffs attempt) w1 of
                       (Some err', w2) \<Rightarrow> (Inl err', w2)
                     | (None, w2) \<Rightarrow> withRetry_from ctx backoffs fn (attempt + 1) w2)))
      else (Inl (PlainErr ''docker api retry attempts exhausted''), w))"
  by pat_completeness auto
termination
  by (relation "measure (\<lambda>(ctx, backoffs, fn, attempt, w). maxAttempts + 1 - attempt)") auto

declare withRetry_from.simps [simp del]

definition withRetry ::
  "'w ctx_env \<Rightarrow> 'w docker_client \<Rightarrow> ('w \<Rightarrow> (goerror + 'a) \<times> 'w) \<Rightarrow> 'w \<Rightarrow> (goerror + 'a) \<times> 'w" where
  "withRetry ctx c fn w = withRetry_from ctx (retryBackoffs c) fn 1 w"

section \<open>Listing services and tasks\<close>

text \<open>
  Both listings first ask for everything and fall back to ID prefixes when that fails or returns
  more than a page; when the fallback fails too, the first answer stands, error or not.
\<close>

definition list_or_paginate ::
  "filters \<Rightarrow> (filters \<Rightarrow> 'w \<Rightarrow> (goerror + 't list) \<times> 'w) \<Rightarrow> ('t \<Rightarrow> string) \<Rightarrow> 'w \<Rightarrow>
   (goerror + 't list) \<times> 'w" where
  "list_or_paginate baseFilters listFn idFn w =
     (case listFn baseFilters w of
        (first, w1) \<Rightarrow>
          if (case first of Inr items \<Rightarrow> length items \<le> maxListPageSize | Inl err \<Rightarrow> False)
          then (first, w1)
          else
            (case paginateByIDPrefix baseFilters listFn idFn w1 of
               (Inl pageErr, w2) \<Rightarrow> (first, w2)
             | (Inr paged, w2) \<Rightarrow> (Inr paged, w2)))"

definition listServices ::
  "'w ctx_env \<Rightarrow> 'w docker_client \<Rightarrow> 'w docker_api \<Rightarrow> filters \<Rightarrow> 'w \<Rightarrow>
   (goerror + swarm_service list) \<times> 'w" where
  "listServices ctx c api baseFilters w =
     list_or_paginate baseFilters (\<lambda>f. withRetry ctx c (da_ServiceList api f True)) svc_ID w"

definition listTasks ::
  "'w ctx_env \<Rightarrow> 'w docker_client \<Rightarrow> 'w docker_api \<Rightarrow> filters \<Rightarrow> int \<Rightarrow> 'w \<Rightarrow>
   (goerror + swarm_task list) \<times> 'w" where
  "listTasks ctx c api baseFilters expected w =
     (let listFn = (\<lambda>f. withRetry ctx c (da_TaskList api f)) in
      if expected > int maxListPageSize then paginateByIDPrefix baseFilters listFn task_ID w
      else list_or_paginate baseFilters listFn task_ID w)"

section \<open>The actual state\<close>

definition service_image :: "swarm_service \<Rightarrow> string" where
  "service_image service = (case svc_Container service of None \<Rightarrow> '''' | Some spec \<Rightarrow> cs_Image spec)"

definition service_update_state :: "swarm_service \<Rightarrow> string" where
  "service_update_state service = (case svc_UpdateState service of None \<Rightarrow> '''' | Some s \<Rightarrow> s)"

definition collectServiceState ::
  "'w ctx_env \<Rightarrow> 'w docker_client \<Rightarrow> 'w docker_api \<Rightarrow> swarm_service \<Rightarrow> string \<Rightarrow> 'w \<Rightarrow>
   (goerror + actual_service) \<times> 'w" where
  "collectServiceState ctx c api service stackName w =
     (let name = normalizeServiceName (svc_Name service) stackName;
          (mode, desired) = serviceModeAndReplicas service;
          taskFilters = filters_Add [] ''service'' (svc_ID service)
      in case listTasks ctx c api taskFilters desired w of
           (Inl err, w1) \<Rightarrow> (Inl err, w1)
         | (Inr tasks, w1) \<Rightarrow>
             (case summarizeTasks tasks of
                (runningReplicas, configs, secrets) \<Rightarrow>
                  (Inr \<lparr>as_Name = name, as_Image = service_image service, as_Mode = mode,
                        as_DesiredReplicas = desired, as_RunningReplicas = runningReplicas,
                        as_Configs = configs, as_Secrets = secrets,
                        as_UpdateState = service_update_state service\<rparr>, w1)))"

fun collect_loop ::
  "(swarm_service \<Rightarrow> 'w \<Rightarrow> (goerror + actual_service) \<times> 'w) \<Rightarrow> swarm_service list \<Rightarrow>
   actual_service gmap \<Rightarrow> 'w \<Rightarrow> (goerror + actual_service gmap) \<times> 'w" where
  "collect_loop collect [] services w = (Inr services, w)"
| "collect_loop collect (service # rest) services w =
     (case collect service w of
        (Inl err, w1) \<Rightarrow> (Inl err, w1)
      | (Inr actual, w1) \<Rightarrow> collect_loop collect rest (mput (as_Name actual) actual services) w1)"

definition service_filters :: "string \<Rightarrow> filters" where
  "service_filters stackName =
     (if stackName \<noteq> '''' then filters_Add [] ''label'' (''com.docker.stack.namespace='' @ stackName)
      else [])"

definition not_initialized :: goerror where
  "not_initialized = PlainErr ''docker client is not initialized''"

definition GetActualState_body ::
  "'w ctx_env \<Rightarrow> 'w docker_client \<Rightarrow> 'w docker_api \<Rightarrow> string \<Rightarrow> 'w \<Rightarrow>
   (goerror + actual_state) \<times> 'w" where
  "GetActualState_body ctx c api stackName w =
     (case listServices ctx c api (service_filters stackName) w of
        (Inl err, w1) \<Rightarrow> (Inl err, w1)
      | (Inr services, w1) \<Rightarrow>
          (case collect_loop (\<lambda>s. collectServiceState ctx c api s stackName) services [] w1 of
             (Inl err, w2) \<Rightarrow> (Inl err, w2)
           | (Inr m, w2) \<Rightarrow> (Inr \<lparr>act_Services = Some m\<rparr>, w2)))"

definition GetActualState ::
  "'w ctx_env \<Rightarrow> 'w docker_client option \<Rightarrow> string \<Rightarrow> 'w \<Rightarrow> (goerror + actual_state) \<times> 'w" where
  "GetActualState ctx c stackName w =
     (case c of
        None \<Rightarrow> (Inl not_initialized, w)
      | Some client \<Rightarrow>
          (case dc_api client of
             None \<Rightarrow> (Inl not_initialized, w)
           | Some api \<Rightarrow>
               (case GetActualState_body ctx client api stackName
                       (ce_with_timeout ctx (dc_timeout client) w) of
                  (r, w1) \<Rightarrow> (r, ce_cancel ctx w1))))"

definition Ping :: "'w ctx_env \<Rightarrow> 'w docker_client option \<Rightarrow> 'w \<Rightarrow> (goerror + unit) \<times> 'w" where
  "Ping ctx c w =
     (case c of
        None \<Rightarrow> (Inl not_initialized, w)
      | Some client \<Rightarrow>
          (case dc_api client of
             None \<Rightarrow> (Inl not_initialized, w)
           | Some api \<Rightarrow>
               (case withRetry ctx client (da_Ping api)
                       (ce_with_timeout ctx (dc_timeout client) w) of
                  (r, w1) \<Rightarrow> (r, ce_cancel ctx w1))))"

definition Close :: "'w docker_client option \<Rightarrow> 'w \<Rightarrow> goerror option \<times> 'w" where
  "Close c w =
     (case c of
        None \<Rightarrow> (None, w)
      | Some client \<Rightarrow> (case dc_api client of None \<Rightarrow> (None, w) | Some api \<Rightarrow> da_Close api w))"

section \<open>Building the client\<close>

text \<open>
  \<open>NewDockerClient\<close>. \<open>url.Parse\<close>, \<open>tlsconfig.Client\<close> and \<open>client.NewClientWithOpts\<close> are
  parameters; \<open>docker_options\<close> collects what the code passes to the last one. The default
  transport of \<open>net/http\<close> is an \<open>*http.Transport\<close>, so the two type assertions do not fail.
\<close>

record tls_config =
  tls_Enabled :: bool
  tls_Verify :: bool
  tls_CAFile :: string
  tls_CertFile :: string
  tls_KeyFile :: string

record tls_options =
  to_CAFile :: string
  to_CertFile :: string
  to_KeyFile :: string
  to_ExclusiveRootPools :: bool
  to_InsecureSkipVerify :: bool

record 't client_opts =
  co_Timeout :: int
  co_TLSClientConfig :: "'t option"
  co_Scheme :: string
  co_Host :: "string option"

definition normalizeDockerHost ::
  "(string \<Rightarrow> goerror + go_url) \<Rightarrow> string \<Rightarrow> bool \<Rightarrow> goerror + string" where
  "normalizeDockerHost parse_url host tlsEnabled =
     (case parse_url host of
        Inl err \<Rightarrow> Inl err
      | Inr parsed \<Rightarrow>
          if u_Scheme parsed = '''' then Inr host
          else if u_Scheme parsed = ''http'' then
            (if u_Host parsed = '''' then Inr host else Inr (''tcp://'' @ u_Host parsed))
          else if u_Scheme parsed = ''https'' then
            (if \<not> tlsEnabled then Inl (PlainErr ''https docker host requires TLS configuration'')
             else if u_Host parsed = '''' then Inr host
             else Inr (''tcp://'' @ u_Host parsed))
          else if (u_Scheme parsed = ''unix'' \<or> u_Scheme parsed = ''npipe'') \<and> tlsEnabled then
            Inl (PlainErr ''docker tls is not supported for unix or npipe hosts'')
          else Inr host)"

definition client_timeout :: "int \<Rightarrow> int" where
  "client_timeout timeout = (if timeout \<le> 0 then defaultAPITimeout else timeout)"

definition docker_tls ::
  "(tls_options \<Rightarrow> goerror + 't) \<Rightarrow> tls_config \<Rightarrow> goerror + 't option" where
  "docker_tls tls_client tls =
     (if \<not> tls_Enabled tls then Inr None
      else if tls_CertFile tls = '''' \<or> tls_KeyFile tls = '''' then
        Inl (PlainErr ''docker tls enabled but cert/key are required'')
      else if tls_Verify tls \<and> tls_CAFile tls = '''' then
        Inl (PlainErr ''docker tls verify enabled but CA is required'')
      else
        case tls_client \<lparr>to_CAFile = tls_CAFile tls, to_CertFile = tls_CertFile tls,
               to_KeyFile = tls_KeyFile tls, to_ExclusiveRootPools = tls_Verify tls,
               to_InsecureSkipVerify = \<not> tls_Verify tls\<rparr> of
          Inl err \<Rightarrow> Inl err
        | Inr config \<Rightarrow> Inr (Some config))"

definition docker_options ::
  "(string \<Rightarrow> goerror + go_url) \<Rightarrow> (tls_options \<Rightarrow> goerror + 't) \<Rightarrow> string \<Rightarrow> int \<Rightarrow> tls_config \<Rightarrow>
   goerror + 't client_opts" where
  "docker_options parse_url tls_client host timeout tls =
     (case docker_tls tls_client tls of
        Inl err \<Rightarrow> Inl err
      | Inr config \<Rightarrow>
          let opts = \<lparr>co_Timeout = client_timeout timeout, co_TLSClientConfig = config,
                co_Scheme = (if tls_Enabled tls then ''https'' else ''http''), co_Host = None\<rparr>
          in if host = '''' then Inr opts
             else
               case normalizeDockerHost parse_url host (tls_Enabled tls) of
                 Inl err \<Rightarrow> Inl err
               | Inr normalizedHost \<Rightarrow> Inr (opts\<lparr>co_Host := Some normalizedHost\<rparr>))"

definition NewDockerClient ::
  "(string \<Rightarrow> goerror + go_url) \<Rightarrow> (tls_options \<Rightarrow> goerror + 't) \<Rightarrow>
   ('t client_opts \<Rightarrow> goerror + 'w docker_api) \<Rightarrow> string \<Rightarrow> int \<Rightarrow> tls_config \<Rightarrow>
   goerror + 'w docker_client" where
  "NewDockerClient parse_url tls_client new_client host timeout tls =
     (case docker_options parse_url tls_client host timeout tls of
        Inl err \<Rightarrow> Inl err
      | Inr opts \<Rightarrow>
          (case new_client opts of
             Inl err \<Rightarrow> Inl err
           | Inr api \<Rightarrow>
               Inr \<lparr>dc_api = Some (dockerClientAdapter api), dc_timeout = client_timeout timeout,
                    dc_retryBackoffs = defaultRetryBackoffs\<rparr>))"

section \<open>The retry policy as a relation\<close>

text \<open>
  \<open>failed_attempts k w v\<close>: from world \<open>w\<close>, \<open>k\<close> attempts have been made, each with a live
  context, each with a retryable error, each followed by its whole back-off; the world is \<open>v\<close> then.
\<close>

inductive failed_attempts ::
  "'w ctx_env \<Rightarrow> int list \<Rightarrow> ('w \<Rightarrow> (goerror + 'a) \<times> 'w) \<Rightarrow> nat \<Rightarrow> 'w \<Rightarrow> 'w \<Rightarrow> bool"
  for ctx :: "'w ctx_env" and backoffs :: "int list" and fn :: "'w \<Rightarrow> (goerror + 'a) \<times> 'w" where
  no_attempt: "failed_attempts ctx backoffs fn 0 w w"
| one_more: "failed_attempts ctx backoffs fn k w v \<Longrightarrow> ce_err ctx v = None \<Longrightarrow> fn v = (Inl e, u) \<Longrightarrow>
    isRetryableDockerError e \<Longrightarrow>
    ce_wait ctx (backoffs ! min k (length backoffs - 1)) u = (None, v') \<Longrightarrow>
    failed_attempts ctx backoffs fn (Suc k) w v'"

text \<open>The attempt after \<open>k\<close> failed ones, started in world \<open>v\<close>, is the last one and answers \<open>r\<close>.\<close>

definition last_attempt ::
  "'w ctx_env \<Rightarrow> int list \<Rightarrow> ('w \<Rightarrow> (goerror + 'a) \<times> 'w) \<Rightarrow> nat \<Rightarrow> 'w \<Rightarrow> (goerror + 'a) \<times> 'w \<Rightarrow> bool" where
  "last_attempt ctx backoffs fn k v r \<longleftrightarrow>
     (case ce_err ctx v of
        Some e \<Rightarrow> r = (Inl e, v)
      | None \<Rightarrow>
          (case fn v of
             (Inr a, u) \<Rightarrow> r = (Inr a, u)
           | (Inl e, u) \<Rightarrow>
               if isRetryableDockerError e \<and> k < 3 then
                 (\<exists>e' u'. ce_wait ctx (backoffs ! min k (length backoffs - 1)) u = (Some e', u') \<and>
                    r = (Inl e', u'))
               else r = (Inl e, u)))"

lemma backoff_at_min: "backoff_at backoffs (Suc k) = backoffs ! min k (length backoffs - 1)"
  by (cases backoffs) (auto simp: backoff_at_def min_def Let_def)

lemma withRetry_from_step:
  assumes "k \<le> 3"
  shows "withRetry_from ctx backoffs fn (Suc k) v = r \<longleftrightarrow> last_attempt ctx backoffs fn k v r \<or>
    (\<exists>e u v'. ce_err ctx v = None \<and> fn v = (Inl e, u) \<and> isRetryableDockerError e \<and> k < 3 \<and>
       ce_wait ctx (backoffs ! min k (length backoffs - 1)) u = (None, v') \<and>
       withRetry_from ctx backoffs fn (Suc (Suc k)) v' = r)"
proof -
  have k: "Suc k = maxAttempts \<longleftrightarrow> \<not> k < 3" "Suc k \<le> maxAttempts"
    using assms by (auto simp: maxAttempts_def maxRetries_def)
  show ?thesis
    by (subst withRetry_from.simps)
      (auto simp: last_attempt_def k backoff_at_min [simplified] split: option.split sum.split prod.split)
qed

lemma failed_attempts_continue:
  assumes "failed_attempts ctx backoffs fn k w v" "k \<le> 3"
  shows "withRetry_from ctx backoffs fn (Suc 0) w = withRetry_from ctx backoffs fn (Suc k) v"
  using assms
proof (induction rule: failed_attempts.induct)
  case (one_more k w v e u v')
  then have "withRetry_from ctx backoffs fn (Suc k) v = withRetry_from ctx backoffs fn (Suc (Suc k)) v'"
    using withRetry_from_step [of k ctx backoffs fn v] by auto
  with one_more show ?case by simp
qed simp

lemma withRetry_from_ends:
  assumes "failed_attempts ctx backoffs fn k w v" "k \<le> 3"
    and "withRetry_from ctx backoffs fn (Suc k) v = r"
  shows "\<exists>k v. k \<le> 3 \<and> failed_attempts ctx backoffs fn k w v \<and> last_attempt ctx backoffs fn k v r"
  using assms
proof (induction "3 - k" arbitrary: k v rule: less_induct)
  case less
  show ?case
  proof (cases "last_attempt ctx backoffs fn k v r")
    case True
    with less.prems(1,2) show ?thesis by blast
  next
    case False
    with less.prems withRetry_from_step [of k ctx backoffs fn v r] obtain e u v'
      where step: "ce_err ctx v = None" "fn v = (Inl e, u)" "isRetryableDockerError e" "k < 3"
        "ce_wait ctx (backoffs ! min k (length backoffs - 1)) u = (None, v')"
      and rest: "withRetry_from ctx backoffs fn (Suc (Suc k)) v' = r" by auto
    from step less.prems(1) have "failed_attempts ctx backoffs fn (Suc k) w v'"
      by (auto intro: one_more)
    then show ?thesis using step(4) rest by (intro less.hyps) auto
  qed
qed

section \<open>Listings of a consistent snapshot\<close>

text \<open>
  What the fallback relies on: while a listing runs the collection does not change. The query for
  everything may fail, and it may return a truncated list when that has more than a page; a list of
  at most a page is complete, in any order. The queries by prefix are as for
  \<open>paginateByIDPrefix\<close>: a prefix of one character may be truncated too.
\<close>

definition answers_snapshot ::
  "filters \<Rightarrow> (filters \<Rightarrow> 'w \<Rightarrow> (goerror + 't list) \<times> 'w) \<Rightarrow> ('t \<Rightarrow> string) \<Rightarrow> 't list \<Rightarrow> bool" where
  "answers_snapshot base listFn idFn all \<longleftrightarrow>
     (\<forall>w items. fst (listFn base w) = Inr items \<longrightarrow> length items \<le> maxListPageSize \<longrightarrow>
        mset items = mset all) \<and>
     lists_by_prefix base listFn idFn all \<and>
     distinct (map idFn all) \<and> (\<forall>uid \<in> idFn ` set all. valid_id uid)"

lemma withRetry_success:
  assumes "ce_err ctx w = None" "fn w = (Inr a, w')"
  shows "withRetry ctx c fn w = (Inr a, w')"
  using assms by (simp add: withRetry_def withRetry_from.simps maxAttempts_def)

lemma withRetry_Inr:
  assumes "withRetry ctx c fn w = (Inr a, w')"
  shows "\<exists>v. fn v = (Inr a, w')"
proof -
  have "withRetry_from ctx (retryBackoffs c) fn (Suc 0) w = (Inr a, w')"
    using assms by (simp add: withRetry_def)
  from withRetry_from_ends [OF no_attempt _ this] obtain k v
    where last: "last_attempt ctx (retryBackoffs c) fn k v (Inr a, w')" by blast
  obtain x u where "fn v = (x, u)" by fastforce
  with last show ?thesis
    by (cases x) (auto simp: last_attempt_def split: option.splits if_splits)
qed

lemma answers_snapshot_retry:
  assumes "\<And>w. ce_err ctx w = None" "answers_snapshot base listFn idFn all"
  shows "answers_snapshot base (\<lambda>f. withRetry ctx c (listFn f)) idFn all"
proof -
  have "fst (withRetry ctx c (listFn f) w) = Inr xs" if "fst (listFn f w) = Inr xs" for f w xs
    using withRetry_success [OF assms(1)] that by (metis fst_conv prod.collapse)
  moreover have "lists_by_prefix base listFn idFn all"
    using assms(2) by (simp add: answers_snapshot_def)
  ultimately have "lists_by_prefix base (\<lambda>f. withRetry ctx c (listFn f)) idFn all"
    unfolding lists_by_prefix_def by fast
  moreover have "\<exists>v. fst (listFn base v) = Inr xs"
    if "fst (withRetry ctx c (listFn base) w) = Inr xs" for w xs
    using withRetry_Inr [of ctx c "listFn base" w xs] that by (metis fst_conv prod.collapse)
  moreover have "mset xs = mset all" if "fst (listFn base v) = Inr xs" "length xs \<le> maxListPageSize" for v xs
    using assms(2) that unfolding answers_snapshot_def by blast
  ultimately show ?thesis
    using assms(2) unfolding answers_snapshot_def by blast
qed

lemma paginate_snapshot:
  assumes "answers_snapshot base listFn idFn all"
  shows "\<exists>xs w'. paginateByIDPrefix base listFn idFn w = (Inr xs, w') \<and> mset xs = mset all"
proof -
  have "lists_by_prefix base listFn idFn all" "\<forall>uid \<in> idFn ` set all. valid_id uid"
    using assms by (simp_all add: answers_snapshot_def)
  from paginateByIDPrefix_all [OF this, of w] obtain xs w'
    where page: "paginateByIDPrefix base listFn idFn w = (Inr xs, w')"
      and xs: "distinct (map idFn xs)" "set xs \<subseteq> set all" "idFn ` set xs = idFn ` set all"
    by blast
  have all: "distinct (map idFn all)" using assms by (simp add: answers_snapshot_def)
  then have "inj_on idFn (set all)" by (simp add: distinct_map)
  with xs(2,3) have "set xs = set all" by (metis inj_on_image_eq_iff order_refl)
  with xs(1) all have "mset xs = mset all"
    by (simp add: distinct_map set_eq_iff_mset_eq_distinct)
  with page show ?thesis by blast
qed

lemma list_or_paginate_snapshot:
  assumes "answers_snapshot base listFn idFn all"
  shows "\<exists>xs w'. list_or_paginate base listFn idFn w = (Inr xs, w') \<and> mset xs = mset all"
proof -
  obtain first w1 where list: "listFn base w = (first, w1)" by fastforce
  obtain xs w2 where page: "paginateByIDPrefix base listFn idFn w1 = (Inr xs, w2)"
    and xs: "mset xs = mset all"
    using paginate_snapshot [OF assms, of w1] by blast
  have "mset items = mset all" if "first = Inr items" "length items \<le> maxListPageSize" for items
    using assms list that unfolding answers_snapshot_def by (metis fst_conv)
  with list page xs show ?thesis
    by (auto simp: list_or_paginate_def split: sum.split)
qed

lemma summarizeTasks_mset:
  assumes "mset ts = mset ts'"
  shows "summarizeTasks ts = summarizeTasks ts'"
proof -
  have "length (filter P ts) = length (filter P ts')" for P
    using assms by (metis mset_filter size_mset)
  moreover have "set ts = set ts'" using assms by (rule mset_eq_setD)
  ultimately show ?thesis by (simp add: summarizeTasks_eq running_names_def)
qed

section \<open>Collecting the state of a snapshot\<close>

text \<open>The actual service that the services and tasks of a snapshot describe.\<close>

definition observed_service :: "swarm_task list \<Rightarrow> string \<Rightarrow> swarm_service \<Rightarrow> actual_service" where
  "observed_service tasks stackName s =
     \<lparr>as_Name = normalizeServiceName (svc_Name s) stackName, as_Image = service_image s,
      as_Mode = fst (serviceModeAndReplicas s),
      as_DesiredReplicas = snd (serviceModeAndReplicas s),
      as_RunningReplicas = int (length (filter (\<lambda>t. task_State t = ''running'') tasks)),
      as_Configs = sorted_list_of_set (running_names cs_Configs tasks),
      as_Secrets = sorted_list_of_set (running_names cs_Secrets tasks),
      as_UpdateState = service_update_state s\<rparr>"

lemma collectServiceState_snapshot:
  assumes "\<And>w. ce_err ctx w = None"
    and "answers_snapshot (filters_Add [] ''service'' (svc_ID s)) (da_TaskList api) task_ID tasks"
  shows "\<exists>w'. collectServiceState ctx c api s stackName w =
    (Inr (observed_service tasks stackName s), w')"
proof -
  let ?f = "filters_Add [] ''service'' (svc_ID s)"
  let ?fn = "\<lambda>f. withRetry ctx c (da_TaskList api f)"
  have snap: "answers_snapshot ?f ?fn task_ID tasks"
    using assms by (rule answers_snapshot_retry)
  have "\<exists>xs w'. listTasks ctx c api ?f n w = (Inr xs, w') \<and> mset xs = mset tasks" for n
    using paginate_snapshot [OF snap, of w] list_or_paginate_snapshot [OF snap, of w]
    by (simp add: listTasks_def Let_def)
  then obtain xs w' where "listTasks ctx c api ?f (snd (serviceModeAndReplicas s)) w = (Inr xs, w')"
    and "mset xs = mset tasks" by blast
  moreover from this(2) have "summarizeTasks xs = summarizeTasks tasks" by (rule summarizeTasks_mset)
  then have "summarizeTasks xs =
     (int (length (filter (\<lambda>t. task_State t = ''running'') tasks)),
      sorted_list_of_set (running_names cs_Configs tasks),
      sorted_list_of_set (running_names cs_Secrets tasks))" by (simp only: summarizeTasks_eq)
  ultimately show ?thesis
    by (simp add: collectServiceState_def observed_service_def case_prod_beta)
qed

lemma collect_loop_snapshot:
  assumes "\<And>s w. s \<in> set services \<Longrightarrow> \<exists>w'. collect s w = (Inr (obs s), w')"
    and "wf_gmap m"
  shows "\<exists>m' w'. collect_loop collect services m w = (Inr m', w') \<and> wf_gmap m' \<and>
    map_of m' = map_of m ++ map_of (rev (map (\<lambda>s. (as_Name (obs s), obs s)) services))"
  using assms
proof (induction services arbitrary: m w)
  case (Cons s services)
  let ?k = "as_Name (obs s)" and ?tail = "map_of (rev (map (\<lambda>s. (as_Name (obs s), obs s)) services))"
  obtain w1 where w1: "collect s w = (Inr (obs s), w1)" using Cons.prems(1) by fastforce
  obtain m' w' where loop: "collect_loop collect services (mput ?k (obs s) m) w1 = (Inr m', w')"
    and m': "wf_gmap m'" "map_of m' = map_of (mput ?k (obs s) m) ++ ?tail"
    using Cons.IH [of "mput ?k (obs s) m" w1] Cons.prems by fastforce
  have "map_of m' = map_of m ++ map_of (rev (map (\<lambda>s. (as_Name (obs s), obs s)) (s # services)))"
    unfolding m'(2) mget_mput_fun by (simp add: map_add_assoc [symmetric])
  with w1 loop m'(1) show ?case by simp
qed simp

lemma GetActualState_body_snapshot:
  assumes alive: "\<And>w. ce_err ctx w = None"
    and svcs: "answers_snapshot (service_filters stackName) (\<lambda>f. da_ServiceList api f True) svc_ID svcs"
    and tasks: "\<And>s. s \<in> set svcs \<Longrightarrow>
      answers_snapshot (filters_Add [] ''service'' (svc_ID s)) (da_TaskList api) task_ID (tasks (svc_ID s))"
    and names: "distinct (map (\<lambda>s. normalizeServiceName (svc_Name s) stackName) svcs)"
  shows "\<exists>m w'. GetActualState_body ctx c api stackName w = (Inr \<lparr>act_Services = Some m\<rparr>, w') \<and>
    wf_gmap m \<and> map_of m = map_of (map (\<lambda>s. (normalizeServiceName (svc_Name s) stackName,
      observed_service (tasks (svc_ID s)) stackName s)) svcs)"
proof -
  let ?obs = "\<lambda>s. observed_service (tasks (svc_ID s)) stackName s"
  let ?collect = "\<lambda>s. collectServiceState ctx c api s stackName"
  let ?entry = "\<lambda>s. (as_Name (?obs s), ?obs s)"
  obtain xs w1 where list: "listServices ctx c api (service_filters stackName) w = (Inr xs, w1)"
    and xs: "mset xs = mset svcs"
    using list_or_paginate_snapshot [OF answers_snapshot_retry [OF alive svcs], of c w]
    by (auto simp: listServices_def)
  have "\<exists>w'. ?collect s v = (Inr (?obs s), w')" if "s \<in> set xs" for s v
    using that xs by (intro collectServiceState_snapshot alive tasks) (metis mset_eq_setD)
  from collect_loop_snapshot [where services = xs and collect = ?collect and obs = ?obs and m = "[]" and w = w1, OF this wf_gmap_Nil]
  obtain m w2
    where loop: "collect_loop ?collect xs [] w1 = (Inr m, w2)"
      and m: "wf_gmap m" "map_of m = map_of (rev (map ?entry xs))" by auto
  have wf: "wf_gmap (map ?entry svcs)"
    using names by (simp add: wf_gmap_def observed_service_def comp_def)
  have ms: "mset (map ?entry svcs) = mset (rev (map ?entry xs))" using xs by simp
  have "map_of (map ?entry svcs) = map_of (rev (map ?entry xs))"
    using mset_same_map(2) [OF wf ms] by (simp only: same_map_def)
  with list loop m show ?thesis
    by (simp add: GetActualState_body_def observed_service_def)
qed

section \<open>The options of the client\<close>

lemma docker_options_tls:
  assumes "docker_options parse_url tls_client host timeout tls = Inr opts"
  shows "co_Timeout opts = client_timeout timeout \<and> co_Timeout opts > 0 \<and>
    (if tls_Enabled tls then
       co_Scheme opts = ''https'' \<and> tls_CertFile tls \<noteq> '''' \<and> tls_KeyFile tls \<noteq> '''' \<and>
       \<not> (tls_Verify tls \<and> tls_CAFile tls = '''') \<and>
       map_option Inr (co_TLSClientConfig opts) =
         Some (tls_client \<lparr>to_CAFile = tls_CAFile tls, to_CertFile = tls_CertFile tls,
           to_KeyFile = tls_KeyFile tls, to_ExclusiveRootPools = tls_Verify tls,
           to_InsecureSkipVerify = \<not> tls_Verify tls\<rparr>) \<and>
       (\<nexists>u. host \<noteq> '''' \<and> parse_url host = Inr u \<and> u_Scheme u \<in> {''unix'', ''npipe''})
     else co_Scheme opts = ''http'' \<and> co_TLSClientConfig opts = None \<and>
       (\<nexists>u. host \<noteq> '''' \<and> parse_url host = Inr u \<and> u_Scheme u = ''https''))"
  using assms
  by (auto simp: docker_options_def docker_tls_def normalizeDockerHost_def client_timeout_def
      defaultAPITimeout_def Second_def Let_def split: if_splits sum.splits)

lemma normalizeDockerHost_host:
  assumes "normalizeDockerHost parse_url host enabled = Inr h"
  shows "\<exists>u. parse_url host = Inr u \<and>
    h = (if u_Scheme u \<in> {''http'', ''https''} \<and> u_Host u \<noteq> '''' then ''tcp://'' @ u_Host u else host)"
proof -
  from assms obtain u where u: "parse_url host = Inr u"
    by (auto simp: normalizeDockerHost_def split: sum.splits)
  consider "u_Scheme u = ''http''" | "u_Scheme u = ''https''"
    | "u_Scheme u \<noteq> ''http''" "u_Scheme u \<noteq> ''https''" by blast
  then show ?thesis
  proof cases
    case 3
    then show ?thesis using assms u by (simp add: normalizeDockerHost_def split: if_splits)
  qed (use assms u in \<open>simp_all add: normalizeDockerHost_def split: if_splits\<close>)
qed

lemma docker_options_host:
  assumes "docker_options parse_url tls_client host timeout tls = Inr opts"
  shows "if host = '''' then co_Host opts = None
     else \<exists>u. parse_url host = Inr u \<and> co_Host opts = Some
       (if u_Scheme u \<in> {''http'', ''https''} \<and> u_Host u \<noteq> '''' then ''tcp://'' @ u_Host u else host)"
proof (cases "host = ''''")
  case True
  with assms show ?thesis by (auto simp: docker_options_def Let_def split: sum.splits)
next
  case False
  with assms obtain h where "normalizeDockerHost parse_url host (tls_Enabled tls) = Inr h"
    and "co_Host opts = Some h"
    by (auto simp: docker_options_def Let_def split: sum.splits)
  with normalizeDockerHost_host [of parse_url host "tls_Enabled tls" h] False show ?thesis by simp
qed

section \<open>Properties\<close>

text \<open>
  C4. \<open>GetActualState\<close> is exact on a consistent snapshot, also when listings fail or are cut off.
  Suppose the context stays alive; the Docker API answers from one set of services and, per
  service, one set of tasks, with IDs as Swarm makes them; and no two services share a name after
  the stack prefix is stripped. The query for everything may fail, and any list of more than a page
  may be truncated, except one for a prefix of the greatest depth. Then the call succeeds, and the
  state maps each stripped service name to the service's image, mode, desired count, number of
  running tasks, sorted config and secret names and update state, and holds no other service.
\<close>

theorem GetActualState_exact:
  assumes "\<And>w. ce_err ctx w = None" and "dc_api c = Some api"
    and "answers_snapshot (service_filters stackName) (\<lambda>f. da_ServiceList api f True) svc_ID svcs"
    and "\<And>s. s \<in> set svcs \<Longrightarrow>
      answers_snapshot (filters_Add [] ''service'' (svc_ID s)) (da_TaskList api) task_ID (tasks (svc_ID s))"
    and "distinct (map (\<lambda>s. normalizeServiceName (svc_Name s) stackName) svcs)"
  shows "\<exists>m. fst (GetActualState ctx (Some c) stackName w) = Inr \<lparr>act_Services = Some m\<rparr> \<and>
    wf_gmap m \<and> map_of m = map_of (map (\<lambda>s. (normalizeServiceName (svc_Name s) stackName,
      observed_service (tasks (svc_ID s)) stackName s)) svcs)"
  using GetActualState_body_snapshot [OF assms(1,3,4,5),
      where w = "ce_with_timeout ctx (dc_timeout c) w" and c = c]
  by (auto simp: GetActualState_def assms(2))

definition example_ctx :: "nat ctx_env" where
  "example_ctx = \<lparr>ce_err = (\<lambda>w. None), ce_wait = (\<lambda>d w. (None, w)),
     ce_with_timeout = (\<lambda>d w. w), ce_cancel = (\<lambda>w. w)\<rparr>"

definition example_services :: "swarm_service list" where
  "example_services =
     [\<lparr>svc_ID = ''s1'', svc_Name = ''prod_web'',
       svc_Mode = \<lparr>sm_Replicated = Some (Some 2), sm_Global = False, sm_ReplicatedJob = False,
         sm_GlobalJob = False\<rparr>,
       svc_Container = Some \<lparr>cs_Image = ''nginx:1'', cs_Configs = [], cs_Secrets = []\<rparr>,
       svc_DesiredTasks = None, svc_UpdateState = None\<rparr>]"

definition example_tasks :: "string \<Rightarrow> swarm_task list" where
  "example_tasks uid =
     [\<lparr>task_ID = ''t1'', task_State = ''running'',
       task_Container = Some \<lparr>cs_Image = ''nginx:1'', cs_Configs = [Some ''conf'', None], cs_Secrets = []\<rparr>\<rparr>,
      \<lparr>task_ID = ''t2'', task_State = ''failed'', task_Container = None\<rparr>]"

text \<open>
  An API that refuses to list all services at once, and answers the query for all tasks of a service,
  and that for those with a prefix of one character, with a page and one more of a single task.
\<close>

definition id_filter :: "filters \<Rightarrow> string option" where
  "id_filter f = map_of (rev f) ''id''"

definition example_ServiceList :: "filters \<Rightarrow> bool \<Rightarrow> nat \<Rightarrow> (goerror + swarm_service list) \<times> nat" where
  "example_ServiceList f status w =
     (case id_filter f of
        None \<Rightarrow> (Inl (PlainErr ''message larger than max''), w + 1)
      | Some p \<Rightarrow> (Inr (filter (\<lambda>x. HasPrefix (svc_ID x) p) example_services), w + 1))"

definition example_TaskList :: "filters \<Rightarrow> nat \<Rightarrow> (goerror + swarm_task list) \<times> nat" where
  "example_TaskList f w =
     (let tasks = example_tasks (snd (hd f)) in
      case id_filter f of
        None \<Rightarrow> (Inr (replicate 1001 (hd tasks)), w + 1)
      | Some p \<Rightarrow> (Inr (if length p < 2 then replicate 1001 (hd tasks)
                        else filter (\<lambda>x. HasPrefix (task_ID x) p) tasks), w + 1))"

definition example_api :: "nat docker_api" where
  "example_api =
     \<lparr>da_Ping = (\<lambda>w. (Inr (), w + 1)), da_ServiceList = example_ServiceList,
      da_TaskList = example_TaskList, da_Close = (\<lambda>w. (None, w))\<rparr>"

definition example_client :: "nat docker_client" where
  "example_client = \<lparr>dc_api = Some example_api, dc_timeout = 30 * Second, dc_retryBackoffs = []\<rparr>"

lemma id_filter_Add [simp]: "id_filter (filters_Add f ''id'' p) = Some p"
  by (simp add: id_filter_def filters_Add_def)

lemma id_filter_service: "id_filter (service_filters stack) = None"
  by (simp add: id_filter_def service_filters_def filters_Add_def)

lemma id_filter_task: "id_filter (filters_Add [] ''service'' uid) = None"
  by (simp add: id_filter_def filters_Add_def)

lemmas example_id_defs = valid_id_def maxIDPrefixDepth_def idPrefixCharacters_def

lemma example_services_snapshot:
  "answers_snapshot (service_filters stack) (\<lambda>f. da_ServiceList example_api f True) svc_ID
     example_services"
  unfolding answers_snapshot_def
proof (intro conjI)
  show "lists_by_prefix (service_filters stack) (\<lambda>f. da_ServiceList example_api f True) svc_ID
      example_services"
    by (simp add: lists_by_prefix_def example_api_def example_ServiceList_def lists_prefix_filter)
qed (simp_all add: example_api_def example_ServiceList_def id_filter_service example_services_def
  example_id_defs)

lemma example_tasks_snapshot:
  "answers_snapshot (filters_Add [] ''service'' uid) (da_TaskList example_api) task_ID
     (example_tasks uid)"
  unfolding answers_snapshot_def
proof (intro conjI)
  have "hd (filters_Add (filters_Add [] ''service'' uid) ''id'' p) = (''service'', uid)" for p
    by (simp add: filters_Add_def)
  then show "lists_by_prefix (filters_Add [] ''service'' uid) (da_TaskList example_api) task_ID
      (example_tasks uid)"
    by (simp add: lists_by_prefix_def example_api_def example_TaskList_def lists_prefix_filter
        maxListPageSize_def maxIDPrefixDepth_def Let_def)
qed (simp_all add: example_api_def example_TaskList_def id_filter_task example_tasks_def
  maxListPageSize_def example_id_defs)

theorem GetActualState_exact_witness:
  "\<exists>m. fst (GetActualState example_ctx (Some example_client) ''prod'' 0) =
      Inr \<lparr>act_Services = Some m\<rparr> \<and> wf_gmap m \<and>
    map_of m = map_of (map (\<lambda>s. (normalizeServiceName (svc_Name s) ''prod'',
      observed_service (example_tasks (svc_ID s)) ''prod'' s)) example_services)"
proof (rule GetActualState_exact)
  show "dc_api example_client = Some example_api" by (simp add: example_client_def)
  show "distinct (map (\<lambda>s. normalizeServiceName (svc_Name s) ''prod'') example_services)"
    by (simp add: example_services_def)
qed (simp_all add: example_ctx_def example_services_snapshot example_tasks_snapshot)

text \<open>
  C30. The retry policy, exactly. The answer of \<open>withRetry\<close> is that of the attempt after \<open>k \<le> 3\<close>
  failed ones: each of these called \<open>fn\<close> once, with a live context, got an error that
  \<open>isRetryableDockerError\<close> accepts, and waited its back-off (the entry of the client's list for that
  attempt, or its last one) without interruption. The last attempt ends with the context's error
  when the context is over before the call; with the value of the call when that succeeds; with the
  call's own error when this is not retryable or the call is the fourth; and with the context's
  error when the wait is interrupted. So there are at most four calls (\<open>TASKS.md\<close> SS-013.5 asks for
  three), a permanent error is never retried, a transient one is retried until the fourth call, and
  the error for exhausted attempts is never returned.
\<close>

theorem withRetry_outcome:
  "withRetry ctx c fn w = r \<longleftrightarrow>
     (\<exists>k v. k \<le> 3 \<and> failed_attempts ctx (retryBackoffs c) fn k w v \<and>
        last_attempt ctx (retryBackoffs c) fn k v r)"
proof
  assume "withRetry ctx c fn w = r"
  then have "withRetry_from ctx (retryBackoffs c) fn (Suc 0) w = r" by (simp add: withRetry_def)
  then show "\<exists>k v. k \<le> 3 \<and> failed_attempts ctx (retryBackoffs c) fn k w v \<and>
      last_attempt ctx (retryBackoffs c) fn k v r"
    by (intro withRetry_from_ends [of _ _ _ 0]) (auto intro: no_attempt)
next
  assume "\<exists>k v. k \<le> 3 \<and> failed_attempts ctx (retryBackoffs c) fn k w v \<and>
      last_attempt ctx (retryBackoffs c) fn k v r"
  then obtain k v where "k \<le> 3" "failed_attempts ctx (retryBackoffs c) fn k w v"
    "last_attempt ctx (retryBackoffs c) fn k v r" by blast
  with failed_attempts_continue withRetry_from_step [of k ctx "retryBackoffs c" fn v r]
  show "withRetry ctx c fn w = r" unfolding withRetry_def by (metis One_nat_def)
qed


definition example_new_client :: "bool client_opts \<Rightarrow> goerror + nat docker_api" where
  "example_new_client opts =
     (if co_Scheme opts = ''https'' \<and> co_TLSClientConfig opts \<noteq> None then Inr example_api
      else Inl (PlainErr ''client sent an HTTP request to an HTTPS server''))"


end
