(* ===== verification/Healthcheck.thy ===== *)
theory Healthcheck
  imports Go_Json
begin

text \<open>
  \<open>internal/healthcheck\<close>: the tracker of cycle times and the two HTTP handlers that report it. The
  tracker's mutex makes each operation one step. A \<open>nil\<close> tracker is \<open>None\<close>.
\<close>

section \<open>The tracker\<close>

record tracker =
  tk_lastCycle :: gotime
  tk_cycleDuration :: int
  tk_stacksEvaluated :: int
  tk_ready :: bool

record cycle_snapshot =
  cs_LastCycleTime :: "gotime option"
  cs_CycleDurationMS :: int
  cs_StacksEvaluated :: int

definition NewTracker :: tracker where
  "NewTracker = \<lparr>tk_lastCycle = 0, tk_cycleDuration = 0, tk_stacksEvaluated = 0, tk_ready = False\<rparr>"

definition zero_cycle_snapshot :: cycle_snapshot where
  "zero_cycle_snapshot = \<lparr>cs_LastCycleTime = None, cs_CycleDurationMS = 0, cs_StacksEvaluated = 0\<rparr>"

definition RecordCycle :: "gotime \<Rightarrow> int \<Rightarrow> int \<Rightarrow> tracker option \<Rightarrow> tracker option" where
  "RecordCycle now duration stacksEvaluated t = map_option (\<lambda>t. t\<lparr>tk_lastCycle := now,
     tk_cycleDuration := duration, tk_stacksEvaluated := stacksEvaluated, tk_ready := True\<rparr>) t"

definition Snapshot :: "tracker option \<Rightarrow> cycle_snapshot" where
  "Snapshot t =
     (case t of
        None \<Rightarrow> zero_cycle_snapshot
      | Some t \<Rightarrow>
          \<lparr>cs_LastCycleTime = (if tk_lastCycle t \<noteq> 0 then Some (tk_lastCycle t) else None),
           cs_CycleDurationMS = go_div (tk_cycleDuration t) Millisecond,
           cs_StacksEvaluated = tk_stacksEvaluated t\<rparr>)"

definition Ready :: "tracker option \<Rightarrow> bool" where
  "Ready t = (case t of None \<Rightarrow> False | Some t \<Rightarrow> tk_ready t)"

definition Healthy :: "tracker option \<Rightarrow> gotime \<Rightarrow> int \<Rightarrow> bool" where
  "Healthy t now pollInterval =
     (case t of
        None \<Rightarrow> False
      | Some t \<Rightarrow>
          if pollInterval \<le> 0 then False
          else if tk_lastCycle t = 0 then False
          else time_Sub now (tk_lastCycle t) \<le> wrap64 (2 * pollInterval))"

section \<open>The handlers\<close>

record http_reply =
  hr_ContentType :: string
  hr_Status :: int
  hr_Body :: json

text \<open>\<open>rfc3339\<close> is the text \<open>encoding/json\<close> writes for a time.\<close>

definition enc_cycle_snapshot :: "(gotime \<Rightarrow> string) \<Rightarrow> cycle_snapshot \<Rightarrow> json" where
  "enc_cycle_snapshot rfc3339 s = JObj
     [(''last_cycle_time'', case cs_LastCycleTime s of None \<Rightarrow> JNull | Some t \<Rightarrow> JStr (rfc3339 t)),
      (''cycle_duration_ms'', JNum (cs_CycleDurationMS s)),
      (''stacks_evaluated'', JNum (cs_StacksEvaluated s))]"

definition writeJSON :: "(gotime \<Rightarrow> string) \<Rightarrow> int \<Rightarrow> cycle_snapshot \<Rightarrow> http_reply" where
  "writeJSON rfc3339 status payload = \<lparr>hr_ContentType = ''application/json'', hr_Status = status,
     hr_Body = enc_cycle_snapshot rfc3339 payload\<rparr>"

definition HealthHandler ::
  "(gotime \<Rightarrow> string) \<Rightarrow> tracker option \<Rightarrow> int \<Rightarrow> gotime \<Rightarrow> http_reply" where
  "HealthHandler rfc3339 tracker pollInterval now =
     (if tracker \<noteq> None \<and> Healthy tracker now pollInterval
      then writeJSON rfc3339 200 (Snapshot tracker)
      else if tracker \<noteq> None then writeJSON rfc3339 503 (Snapshot tracker)
      else writeJSON rfc3339 503 zero_cycle_snapshot)"

definition ReadyHandler :: "(gotime \<Rightarrow> string) \<Rightarrow> tracker option \<Rightarrow> http_reply" where
  "ReadyHandler rfc3339 tracker =
     (if tracker \<noteq> None \<and> Ready tracker
      then writeJSON rfc3339 200 (Snapshot tracker)
      else if tracker \<noteq> None then writeJSON rfc3339 503 (Snapshot tracker)
      else writeJSON rfc3339 503 zero_cycle_snapshot)"

section \<open>Properties\<close>

text \<open>A tracker's life: the cycles recorded so far, each with its time, duration and stacks.\<close>

definition tracked :: "(gotime \<times> int \<times> int) list \<Rightarrow> tracker option" where
  "tracked cycles = fold (\<lambda>(now, d, n). RecordCycle now d n) cycles (Some NewTracker)"

lemma tracked_Nil: "tracked [] = Some NewTracker"
  by (simp add: tracked_def)

lemma tracked_snoc:
  "tracked (cycles @ [(now, d, n)]) = Some \<lparr>tk_lastCycle = now, tk_cycleDuration = d,
     tk_stacksEvaluated = n, tk_ready = True\<rparr>"
proof -
  have "\<exists>t. tracked cycles = Some t"
    by (induction cycles rule: rev_induct) (auto simp: tracked_def RecordCycle_def)
  then show ?thesis by (auto simp: tracked_def RecordCycle_def)
qed

lemma time_Sub_le:
  "0 < b \<Longrightarrow> b < 2 ^ 62 \<Longrightarrow> time_Sub t u \<le> 2 * b \<longleftrightarrow> t - u \<le> 2 * b"
  by (auto simp: time_Sub_def)

text \<open>
  C38. The probes report the truth. After any history of cycles, \<open>/readyz\<close> answers 200 exactly when
  a cycle has completed, and \<open>/healthz\<close> exactly when the last one completed at most two poll
  intervals ago; otherwise both answer 503. Whatever the verdict, the body is that of the last
  cycle. (Poll intervals of 146 years and more are excluded: doubling one overflows.)
\<close>

theorem probes_report_cycles:
  assumes "0 < poll" "poll < 2 ^ 62" "\<forall>c \<in> set cycles. fst c \<noteq> 0"
  shows "hr_Status (ReadyHandler rfc3339 (tracked cycles)) = (if cycles = [] then 503 else 200)
    \<and> hr_Status (HealthHandler rfc3339 (tracked cycles) poll now) =
        (if cycles \<noteq> [] \<and> now - fst (last cycles) \<le> 2 * poll then 200 else 503)
    \<and> hr_Body (HealthHandler rfc3339 (tracked cycles) poll now)
        = enc_cycle_snapshot rfc3339 (Snapshot (tracked cycles))
    \<and> hr_Body (ReadyHandler rfc3339 (tracked cycles))
        = enc_cycle_snapshot rfc3339 (Snapshot (tracked cycles))"
proof (cases cycles rule: rev_cases)
  case Nil
  then show ?thesis
    by (simp add: tracked_Nil ReadyHandler_def HealthHandler_def Ready_def Healthy_def NewTracker_def writeJSON_def)
next
  case (snoc cs c)
  obtain t d n where c: "c = (t, d, n)" by (cases c) auto
  with snoc assms(3) have t: "tracked cycles = Some \<lparr>tk_lastCycle = t, tk_cycleDuration = d,
     tk_stacksEvaluated = n, tk_ready = True\<rparr>" "t \<noteq> 0" by (simp_all add: tracked_snoc)
  with snoc c assms(1,2) show ?thesis
    by (simp add: ReadyHandler_def HealthHandler_def Ready_def Healthy_def writeJSON_def time_Sub_le)
qed

lemma probes_report_cycles_witness:
  "hr_Status (HealthHandler (\<lambda>t. ''t'') (tracked [(100, 5, 1)]) 30 200) = 503
   \<and> hr_Status (HealthHandler (\<lambda>t. ''t'') (tracked [(100, 5, 1)]) 30 160) = 200"
  using probes_report_cycles [of 30 "[(100, 5, 1)]" "\<lambda>t. ''t''" 200]
    probes_report_cycles [of 30 "[(100, 5, 1)]" "\<lambda>t. ''t''" 160] by simp

end
