(* ===== verification/Metrics.thy ===== *)
theory Metrics
  imports Healthcheck
begin

text \<open>
  \<open>internal/metrics\<close>: the values of the Prometheus collectors. A collector is what has been
  written to it: the observations of the histogram, a value per label pair of a gauge or counter
  vector. What a registry looks like over HTTP is the library's. A \<open>nil\<close> \<open>*Metrics\<close> is \<open>None\<close>.
\<close>

record metrics =
  mt_cycleDuration :: "int list"
  mt_servicesTotal :: "string \<times> string \<Rightarrow> int option"
  mt_alertsTotal :: "string \<times> string \<Rightarrow> nat option"
  mt_dockerAPIErrorsTotal :: nat
  mt_lastSuccessfulCycle :: int

definition NewMetrics :: metrics where
  "NewMetrics = \<lparr>mt_cycleDuration = [], mt_servicesTotal = Map.empty, mt_alertsTotal = Map.empty,
     mt_dockerAPIErrorsTotal = 0, mt_lastSuccessfulCycle = 0\<rparr>"

definition ObserveCycleDuration :: "int \<Rightarrow> metrics option \<Rightarrow> metrics option" where
  "ObserveCycleDuration duration = map_option (\<lambda>m.
     m\<lparr>mt_cycleDuration := mt_cycleDuration m @ [duration]\<rparr>)"

definition SetServicesTotal :: "string \<Rightarrow> string \<Rightarrow> int \<Rightarrow> metrics option \<Rightarrow> metrics option" where
  "SetServicesTotal stack status value = map_option (\<lambda>m.
     m\<lparr>mt_servicesTotal := (mt_servicesTotal m)((stack, status) \<mapsto> value)\<rparr>)"

definition counter_value :: "(string \<times> string \<Rightarrow> nat option) \<Rightarrow> string \<times> string \<Rightarrow> nat" where
  "counter_value c l = (case c l of None \<Rightarrow> 0 | Some n \<Rightarrow> n)"

definition IncAlertsTotal :: "string \<Rightarrow> string \<Rightarrow> metrics option \<Rightarrow> metrics option" where
  "IncAlertsTotal stack severity = map_option (\<lambda>m. m\<lparr>mt_alertsTotal :=
     (mt_alertsTotal m)((stack, severity) \<mapsto> counter_value (mt_alertsTotal m) (stack, severity) + 1)\<rparr>)"

definition IncDockerAPIErrors :: "metrics option \<Rightarrow> metrics option" where
  "IncDockerAPIErrors = map_option (\<lambda>m.
     m\<lparr>mt_dockerAPIErrorsTotal := mt_dockerAPIErrorsTotal m + 1\<rparr>)"

text \<open>\<open>t.Unix()\<close>: whole seconds since 1970, which is this many seconds after the zero time.\<close>

definition unix_epoch :: gotime where
  "unix_epoch = 62135596800 * Second"

definition SetLastSuccessfulCycleTimestamp :: "gotime \<Rightarrow> metrics option \<Rightarrow> metrics option" where
  "SetLastSuccessfulCycleTimestamp t = map_option (\<lambda>m.
     m\<lparr>mt_lastSuccessfulCycle := (t - unix_epoch) div Second\<rparr>)"

text \<open>
  The handler that serves the collectors. The two handlers of \<open>promhttp\<close>, the one of the default
  registry and the one of a given registry, are parameters.
\<close>

definition Metrics_Handler :: "'h \<Rightarrow> (metrics \<Rightarrow> 'h) \<Rightarrow> metrics option \<Rightarrow> 'h" where
  "Metrics_Handler default_handler handler_for m =
     (case m of None \<Rightarrow> default_handler | Some registry \<Rightarrow> handler_for registry)"

lemma counter_value_upd [simp]:
  "counter_value (c(l \<mapsto> n)) l' = (if l' = l then n else counter_value c l')"
  by (simp add: counter_value_def)

end
