(* ===== verification/Go_Http.thy ===== *)
theory Go_Http
  imports Go_Errors
begin

text \<open>
  What the code uses of \<open>net/http\<close>, as a parameter of the definitions that call it: creating a
  request may fail, \<open>Do\<close> returns an error or a response, and the response's body is a stream of
  bytes that may break off with an error. A client's own timeout is part of \<open>Do\<close>.
\<close>

record http_request =
  rq_Method :: string
  rq_URL :: string
  rq_Header :: "(string \<times> string) list"
  rq_Body :: string

record http_response =
  rs_StatusCode :: int
  rs_Status :: string
  rs_Header :: "string \<Rightarrow> string"
  rs_Body :: string
  rs_BodyError :: "goerror option"

text \<open>
  \<open>rs_Body\<close> holds the bytes the body yields before it ends, or before \<open>rs_BodyError\<close> breaks it off.
\<close>

record 'w http_api =
  ha_NewRequest :: "string \<Rightarrow> goerror option"
  ha_Do :: "http_request \<Rightarrow> 'w \<Rightarrow> (goerror + http_response) \<times> 'w"
  ha_CloseBody :: "'w \<Rightarrow> 'w"

definition response_ok :: "http_response \<Rightarrow> bool" where
  "response_ok resp \<longleftrightarrow> 200 \<le> rs_StatusCode resp \<and> rs_StatusCode resp < 300"

end
