(* ===== verification/Compose_Fetch.thy ===== *)
theory Compose_Fetch
  imports Go_Http
begin

text \<open>
  \<open>internal/compose/fetcher.go\<close>: downloading the compose file with ETag caching, a size limit and
  retries. \<open>net/http\<close> is a parameter (\<open>http_api\<close> of \<open>Go_Http\<close>). The section on conditional requests
  says what an honest server answers, and what a result then tells of the published document.
\<close>

section \<open>Data\<close>

definition defaultMaxBytes :: int where
  "defaultMaxBytes = 5 * 2 ^ 20"

definition defaultMaxRetries :: int where
  "defaultMaxRetries = 3"

definition defaultRetryDelay :: int where
  "defaultRetryDelay = 1 * Second"

definition maxRetryDelay :: int where
  "maxRetryDelay = 30 * Second"

record fetch_result =
  fr_Body :: string
  fr_ETag :: string
  fr_LastModified :: string
  fr_NotModified :: bool

record http_fetcher =
  hf_url :: string
  hf_timeout :: int
  hf_maxBytes :: int
  hf_maxRetries :: int
  hf_retryDelay :: int

section \<open>Building a fetcher\<close>

definition WithMaxRetries :: "int \<Rightarrow> http_fetcher \<Rightarrow> http_fetcher" where
  "WithMaxRetries n f = (if n \<ge> 0 then f\<lparr>hf_maxRetries := n\<rparr> else f)"

definition WithRetryDelay :: "int \<Rightarrow> http_fetcher \<Rightarrow> http_fetcher" where
  "WithRetryDelay d f = (if d > 0 then f\<lparr>hf_retryDelay := d\<rparr> else f)"

definition NewHTTPFetcher ::
  "string \<Rightarrow> int \<Rightarrow> int \<Rightarrow> (http_fetcher \<Rightarrow> http_fetcher) list \<Rightarrow> goerror + http_fetcher" where
  "NewHTTPFetcher composeURL timeout maxBytes opts =
     (if TrimSpace composeURL = '''' then Inl (PlainErr ''compose url must not be empty'')
      else if \<not> HasPrefix composeURL ''http://'' \<and> \<not> HasPrefix composeURL ''https://'' then
        Inl (PlainErr ''compose url must use http or https scheme'')
      else if timeout \<le> 0 then Inl (PlainErr ''timeout must be greater than zero'')
      else
        let maxBytes' = (if maxBytes \<le> 0 then defaultMaxBytes else maxBytes);
            f = \<lparr>hf_url = composeURL, hf_timeout = timeout, hf_maxBytes = maxBytes',
                 hf_maxRetries = defaultMaxRetries, hf_retryDelay = defaultRetryDelay\<rparr>
        in Inr (fold (\<lambda>opt f. opt f) opts f))"

section \<open>Which errors are retried\<close>

fun IsRetryable :: "goerror \<Rightarrow> bool" where
  "IsRetryable (FetchError code url err) = (if code = 0 then True else code \<ge> 500 \<and> code < 600)"
| "IsRetryable e = False"

definition transientPatterns :: "string list" where
  "transientPatterns = [''connection refused'', ''connection reset'', ''no such host'',
     ''temporary failure'', ''i/o timeout'', ''EOF'']"

definition isRetryableError :: "goerror \<Rightarrow> bool" where
  "isRetryableError err =
     (if as_nonretryable err then False
      else
        case as_fetch err of
          Some fetchErr \<Rightarrow> IsRetryable fetchErr
        | None \<Rightarrow>
            if as_timeout err = Some True then True
            else
              let errStr = err_msg err in
              if Contains errStr ''server error:'' then True
              else list_ex (\<lambda>pattern. Contains (ToLower errStr) (ToLower pattern)) transientPatterns)"

section \<open>One attempt\<close>

text \<open>\<open>io.ReadAll\<close> of an \<open>io.LimitReader\<close>: an error is seen when it comes before the limit.\<close>

definition read_all_limited :: "http_response \<Rightarrow> int \<Rightarrow> goerror + string" where
  "read_all_limited resp limit =
     (case rs_BodyError resp of
        Some e \<Rightarrow> if int (length (rs_Body resp)) < limit then Inl e
                  else Inr (take (nat limit) (rs_Body resp))
      | None \<Rightarrow> Inr (take (nat limit) (rs_Body resp)))"

definition readWithLimit :: "http_response \<Rightarrow> int \<Rightarrow> goerror + string" where
  "readWithLimit resp maxBytes =
     (case read_all_limited resp (wrap64 (maxBytes + 1)) of
        Inl err \<Rightarrow> Inl (WrapErr ''read compose: '' err)
      | Inr body \<Rightarrow>
          if int (length body) > maxBytes then
            Inl (PlainErr (''compose body exceeds '' @ itoa maxBytes @ '' bytes''))
          else Inr body)"

definition fetch_response :: "http_fetcher \<Rightarrow> http_response \<Rightarrow> goerror + fetch_result" where
  "fetch_response f resp =
     (if rs_StatusCode resp = 304 then
        Inr \<lparr>fr_Body = '''', fr_ETag = rs_Header resp ''ETag'',
             fr_LastModified = rs_Header resp ''Last-Modified'', fr_NotModified = True\<rparr>
      else if rs_StatusCode resp \<ge> 500 \<and> rs_StatusCode resp < 600 then
        Inl (FetchError (rs_StatusCode resp) (hf_url f) (PlainErr (''server error: '' @ rs_Status resp)))
      else if rs_StatusCode resp \<noteq> 200 then
        Inl (NonRetryableError (FetchError (rs_StatusCode resp) (hf_url f)
          (PlainErr (''unexpected status: '' @ rs_Status resp))))
      else
        case readWithLimit resp (hf_maxBytes f) of
          Inl err \<Rightarrow> Inl (FetchError 0 (hf_url f) err)
        | Inr body \<Rightarrow>
            if body = [] then Inl (NonRetryableError (PlainErr ''compose body is empty''))
            else Inr \<lparr>fr_Body = body, fr_ETag = rs_Header resp ''ETag'',
                   fr_LastModified = rs_Header resp ''Last-Modified'', fr_NotModified = False\<rparr>)"

definition doFetch ::
  "'w http_api \<Rightarrow> http_fetcher \<Rightarrow> string \<Rightarrow> 'w \<Rightarrow> (goerror + fetch_result) \<times> 'w" where
  "doFetch api f previousETag w =
     (case ha_NewRequest api (hf_url f) of
        Some err \<Rightarrow> (Inl (FetchError 0 (hf_url f) (WrapErr ''create request: '' err)), w)
      | None \<Rightarrow>
          let req = \<lparr>rq_Method = ''GET'', rq_URL = hf_url f,
                rq_Header = (if previousETag \<noteq> '''' then [(''If-None-Match'', previousETag)] else []),
                rq_Body = ''''\<rparr>
          in case ha_Do api req w of
               (Inl err, w1) \<Rightarrow> (Inl (FetchError 0 (hf_url f) (WrapErr ''fetch compose: '' err)), w1)
             | (Inr resp, w1) \<Rightarrow> (fetch_response f resp, ha_CloseBody api w1))"

section \<open>The retry loop\<close>

fun backoff_loop :: "nat \<Rightarrow> int \<Rightarrow> int" where
  "backoff_loop 0 delay = delay"
| "backoff_loop (Suc k) delay =
     (let delay' = wrap64 (delay * 2)
      in if delay' > maxRetryDelay then maxRetryDelay else backoff_loop k delay')"

definition calculateBackoff :: "http_fetcher \<Rightarrow> nat \<Rightarrow> int" where
  "calculateBackoff f attempt = backoff_loop (attempt - 1) (hf_retryDelay f)"

text \<open>\<open>%w\<close> of a nil error, which only a negative number of retries would reach.\<close>

definition attempts_exhausted :: "http_fetcher \<Rightarrow> goerror option \<Rightarrow> goerror" where
  "attempts_exhausted f lastErr =
     (let msg = ''fetch failed after '' @ itoa (wrap64 (hf_maxRetries f + 1)) @ '' attempts: ''
      in case lastErr of None \<Rightarrow> PlainErr (msg @ ''%!w(<nil>)'') | Some e \<Rightarrow> WrapErr msg e)"

text \<open>\<open>remaining\<close> counts the iterations left: \<open>maxRetries + 1 - attempt\<close>.\<close>

fun fetch_loop ::
  "'w ctx_env \<Rightarrow> 'w http_api \<Rightarrow> http_fetcher \<Rightarrow> string \<Rightarrow> nat \<Rightarrow> nat \<Rightarrow> goerror option \<Rightarrow> 'w \<Rightarrow>
   (goerror + fetch_result) \<times> 'w" where
  "fetch_loop ctx api f previousETag 0 attempt lastErr w = (Inl (attempts_exhausted f lastErr), w)"
| "fetch_loop ctx api f previousETag (Suc remaining) attempt lastErr w =
     (case (if attempt > 0 then ce_wait ctx (calculateBackoff f attempt) w else (None, w)) of
        (Some err, w1) \<Rightarrow> (Inl err, w1)
      | (None, w1) \<Rightarrow>
          (case doFetch api f previousETag w1 of
             (Inr result, w2) \<Rightarrow> (Inr result, w2)
           | (Inl err, w2) \<Rightarrow>
               (case ce_err ctx w2 of
                  Some err' \<Rightarrow> (Inl err', w2)
                | None \<Rightarrow>
                    if \<not> isRetryableError err then (Inl err, w2)
                    else fetch_loop ctx api f previousETag remaining (attempt + 1) (Some err) w2)))"

definition Fetch ::
  "'w ctx_env \<Rightarrow> 'w http_api \<Rightarrow> http_fetcher \<Rightarrow> string \<Rightarrow> 'w \<Rightarrow> (goerror + fetch_result) \<times> 'w" where
  "Fetch ctx api f previousETag w =
     fetch_loop ctx api f previousETag (nat (hf_maxRetries f + 1)) 0 None w"

section \<open>The fetcher as an interface\<close>

text \<open>
  What the runner relies on of \<open>compose.Fetcher\<close>: a result is either \<open>NotModified\<close> or carries a
  body, which is not empty and not larger than the limit.
\<close>

definition usable_result :: "int \<Rightarrow> fetch_result \<Rightarrow> bool" where
  "usable_result limit r \<longleftrightarrow>
     (if fr_NotModified r then fr_Body r = [] else fr_Body r \<noteq> [] \<and> int (length (fr_Body r)) \<le> limit)"

locale compose_fetcher =
  fixes fetch :: "string \<Rightarrow> 'w \<Rightarrow> (goerror + fetch_result) \<times> 'w" and limit :: int
  assumes fetch_usable: "fetch etag w = (Inr r, w') \<Longrightarrow> usable_result limit r"
begin

lemma fetch_body: "fetch etag w = (Inr r, w') \<Longrightarrow> \<not> fr_NotModified r \<Longrightarrow> fr_Body r \<noteq> []"
  using fetch_usable by (auto simp: usable_result_def)

end

lemma readWithLimit_bound: "readWithLimit resp m = Inr body \<Longrightarrow> int (length body) \<le> m"
  by (auto simp: readWithLimit_def split: sum.splits if_splits)

lemma fetch_response_usable: "fetch_response f resp = Inr r \<Longrightarrow> usable_result (hf_maxBytes f) r"
  by (auto simp: fetch_response_def usable_result_def split: if_splits sum.splits
      dest: readWithLimit_bound)

lemma doFetch_usable: "doFetch api f etag w = (Inr r, w') \<Longrightarrow> usable_result (hf_maxBytes f) r"
  by (auto simp: doFetch_def Let_def split: option.splits prod.splits sum.splits
      dest: fetch_response_usable)

lemma fetch_loop_result:
  "fetch_loop ctx api f etag n attempt lastErr w = (Inr r, w') \<Longrightarrow> \<exists>v. doFetch api f etag v = (Inr r, w')"
  by (induction ctx api f etag n attempt lastErr w rule: fetch_loop.induct)
    (auto split: prod.splits option.splits sum.splits if_splits)

interpretation http_fetcher: compose_fetcher "Fetch ctx api f" "hf_maxBytes f" for ctx api f
  by unfold_locales (auto simp: Fetch_def dest!: fetch_loop_result doFetch_usable)

lemma fetch_loop_calls:
  assumes "\<And>w. cnt (snd (doFetch api f etag w)) \<le> cnt w + (1 :: nat)"
    and "\<And>d w. cnt (snd (ce_wait ctx d w)) \<le> cnt w"
  shows "cnt (snd (fetch_loop ctx api f etag n attempt lastErr w)) \<le> cnt w + n"
proof (induction n arbitrary: attempt lastErr w)
  case (Suc n)
  obtain r w1 where w1: "(if attempt > 0 then ce_wait ctx (calculateBackoff f attempt) w else (None, w)) = (r, w1)"
    by fastforce
  have "cnt w1 \<le> cnt w" using w1 assms(2) [of "calculateBackoff f attempt" w] by (auto split: if_splits)
  moreover obtain a w2 where w2: "doFetch api f etag w1 = (a, w2)" by fastforce
  moreover have "cnt w2 \<le> cnt w1 + 1" using assms(1) [of w1] w2 by simp
  ultimately have step: "cnt w1 \<le> cnt w" "cnt w2 \<le> cnt w + 1" by simp_all
  have IH: "cnt (snd (fetch_loop ctx api f etag n (attempt + 1) (Some e) w2)) \<le> cnt w + Suc n" for e
    using Suc.IH [of "attempt + 1" "Some e" w2] step(2) by simp
  show ?case
  proof (cases r)
    case None
    with w1 w2 step IH show ?thesis
      by (cases a; cases "ce_err ctx w2") (simp_all del: not_gr_zero)
  qed (use w1 step in \<open>simp del: not_gr_zero\<close>)
qed simp

lemma backoff_loop_closed:
  assumes "0 < d" "d < 2 ^ 62"
  shows "backoff_loop k d = (if k = 0 then d else min (d * 2 ^ k) maxRetryDelay)"
  using assms
proof (induction k arbitrary: d)
  case (Suc k)
  have wrap: "wrap64 (d * 2) = d * 2" using Suc.prems by simp
  have pow: "d * 2 * 2 ^ k \<ge> d * 2" using Suc.prems mult_left_mono [of 1 "2 ^ k" "d * 2"] by simp
  show ?case
  proof (cases "d * 2 > maxRetryDelay")
    case True
    with wrap pow show ?thesis by (simp add: ac_simps)
  next
    case False
    then have "0 < d * 2" "d * 2 < 2 ^ 62" using Suc.prems by (simp_all add: maxRetryDelay_def Second_def)
    from Suc.IH [OF this] False wrap show ?thesis by (cases k) (simp_all add: ac_simps)
  qed
qed simp

lemma fetch_loop_masks:
  assumes "\<And>i. i < k \<Longrightarrow> doFetch api f etag (vs i) = (Inl (es i), us i) \<and> ce_err ctx (us i) = None
      \<and> isRetryableError (es i) \<and> ce_wait ctx (calculateBackoff f (attempt + i + 1)) (us i) = (None, vs (Suc i))"
    and "doFetch api f etag (vs k) = (Inr r, w')" and "k < n"
    and "(if attempt > 0 then ce_wait ctx (calculateBackoff f attempt) w else (None, w)) = (None, vs 0)"
  shows "fetch_loop ctx api f etag n attempt lastErr w = (Inr r, w')"
  using assms
proof (induction k arbitrary: n attempt lastErr w vs us es)
  case 0
  then show ?case by (cases n) simp_all
next
  case (Suc k)
  from Suc.prems(3) obtain m where n: "n = Suc m" "k < m" by (cases n) auto
  from Suc.prems(1) [of 0] have first: "doFetch api f etag (vs 0) = (Inl (es 0), us 0)"
    "ce_err ctx (us 0) = None" "isRetryableError (es 0)"
    "ce_wait ctx (calculateBackoff f (Suc attempt)) (us 0) = (None, vs (Suc 0))" by simp_all
  have "fetch_loop ctx api f etag m (attempt + 1) (Some (es 0)) (us 0) = (Inr r, w')"
  proof (rule Suc.IH [where vs = "\<lambda>i. vs (Suc i)" and us = "\<lambda>i. us (Suc i)" and es = "\<lambda>i. es (Suc i)"])
    fix i assume "i < k"
    with Suc.prems(1) [of "Suc i"] show "doFetch api f etag (vs (Suc i)) = (Inl (es (Suc i)), us (Suc i))
      \<and> ce_err ctx (us (Suc i)) = None \<and> isRetryableError (es (Suc i))
      \<and> ce_wait ctx (calculateBackoff f (attempt + 1 + i + 1)) (us (Suc i)) = (None, vs (Suc (Suc i)))"
      by simp
  qed (use Suc.prems(2) first n in simp_all)
  with Suc.prems(4) first n show ?case by simp
qed

text \<open>A body over the limit is reported like a network error, hence fetched again.\<close>

lemma oversized_body_retried:
  assumes "rs_StatusCode resp = 200" "rs_BodyError resp = None"
    and "hf_maxBytes f < int (length (rs_Body resp))" "0 < hf_maxBytes f" "hf_maxBytes f < 2 ^ 63 - 1"
  shows "\<exists>e. fetch_response f resp = Inl e \<and> isRetryableError e"
proof -
  let ?e = "PlainErr (''compose body exceeds '' @ itoa (hf_maxBytes f) @ '' bytes'')"
  have "readWithLimit resp (hf_maxBytes f) = Inl ?e"
    using assms by (simp add: readWithLimit_def read_all_limited_def)
  then have "fetch_response f resp = Inl (FetchError 0 (hf_url f) ?e)"
    using assms(1) by (simp add: fetch_response_def)
  moreover have "isRetryableError (FetchError 0 (hf_url f) ?e)"
    by (simp add: isRetryableError_def as_nonretryable_def as_fetch_def)
  ultimately show ?thesis by blast
qed

section \<open>Conditional requests\<close>

text \<open>
  A server that publishes versions of one document, each with an entity tag (or none) and a body;
  \<open>published w\<close> is the number of the newest version in world \<open>w\<close>, and never decreases. What HTTP
  promises: an answer is about a version not older than the newest one when the request was sent;
  \<open>304\<close> means that the tag of the request is the tag of that version; \<open>200\<close> brings its tag and,
  unless the transfer breaks off, its body.
\<close>

definition answers_version :: "http_request \<Rightarrow> string \<times> string \<Rightarrow> http_response \<Rightarrow> bool" where
  "answers_version req version resp \<longleftrightarrow>
     (rs_StatusCode resp = 304 \<longrightarrow> (''If-None-Match'', fst version) \<in> set (rq_Header req) \<and>
        rs_Header resp ''ETag'' \<in> {'''', fst version}) \<and>
     (rs_StatusCode resp = 200 \<longrightarrow> rs_Header resp ''ETag'' = fst version \<and>
        (rs_BodyError resp = None \<longrightarrow> rs_Body resp = snd version))"

definition honest_server ::
  "'w ctx_env \<Rightarrow> 'w http_api \<Rightarrow> string \<Rightarrow> (nat \<Rightarrow> string \<times> string) \<Rightarrow> ('w \<Rightarrow> nat) \<Rightarrow> bool" where
  "honest_server ctx api url version published \<longleftrightarrow>
     (\<forall>d w. published w \<le> published (snd (ce_wait ctx d w))) \<and>
     (\<forall>req w. published w \<le> published (snd (ha_Do api req w))) \<and>
     (\<forall>w. published w \<le> published (ha_CloseBody api w)) \<and>
     (\<forall>req w resp w'. rq_URL req = url \<longrightarrow> ha_Do api req w = (Inr resp, w') \<longrightarrow>
        (\<exists>n \<ge> published w. answers_version req (version n) resp))"

text \<open>What a result of the fetcher, which sent the tag \<open>prev\<close>, says of a version.\<close>

definition tells_version :: "string \<Rightarrow> string \<times> string \<Rightarrow> fetch_result \<Rightarrow> bool" where
  "tells_version prev version r \<longleftrightarrow>
     (if fr_NotModified r then prev \<noteq> '''' \<and> fst version = prev \<and> fr_ETag r \<in> {'''', prev}
      else fr_ETag r = fst version \<and> fr_Body r = snd version)"

lemma readWithLimit_whole:
  assumes "readWithLimit resp m = Inr body" "body \<noteq> ''''" "m < 2 ^ 63"
  shows "rs_BodyError resp = None \<and> body = rs_Body resp"
proof (cases "m = 2 ^ 63 - 1")
  case True
  then have "wrap64 (m + 1) = - (2 ^ 63)" by (simp add: wrap64_def)
  with assms(1,2) show ?thesis
    by (auto simp: readWithLimit_def read_all_limited_def split: option.splits if_splits)
next
  case False
  have "0 \<le> m" using readWithLimit_bound [OF assms(1)] by linarith
  with False assms(3) have "wrap64 (m + 1) = m + 1" by simp
  with assms(1,2) \<open>0 \<le> m\<close> show ?thesis
    by (auto simp: readWithLimit_def read_all_limited_def min_def split: option.splits if_splits)
qed

lemma fetch_response_version:
  assumes "fetch_response f resp = Inr r" "answers_version req version resp" "hf_maxBytes f < 2 ^ 63"
    and "rq_Header req = (if prev \<noteq> '''' then [(''If-None-Match'', prev)] else [])"
  shows "tells_version prev version r"
proof (cases "rs_StatusCode resp = 304")
  case True
  with assms show ?thesis
    by (auto simp: fetch_response_def answers_version_def tells_version_def split: if_splits)
next
  case False
  with assms(1) obtain body where ok: "rs_StatusCode resp = 200" "body \<noteq> ''''"
    and body: "readWithLimit resp (hf_maxBytes f) = Inr body"
    and r: "r = \<lparr>fr_Body = body, fr_ETag = rs_Header resp ''ETag'',
      fr_LastModified = rs_Header resp ''Last-Modified'', fr_NotModified = False\<rparr>"
    by (auto simp: fetch_response_def split: if_splits sum.splits)
  from readWithLimit_whole [OF body ok(2) assms(3)] ok(1) r assms(2) show ?thesis
    by (simp add: answers_version_def tells_version_def)
qed

lemma doFetch_version:
  assumes "honest_server ctx api (hf_url f) version published" "hf_maxBytes f < 2 ^ 63"
    and "doFetch api f prev w = (x, w')"
  shows "published w \<le> published w' \<and>
    (case x of Inl e \<Rightarrow> True | Inr r \<Rightarrow> \<exists>n \<ge> published w. tells_version prev (version n) r)"
proof -
  let ?req = "\<lparr>rq_Method = ''GET'', rq_URL = hf_url f,
    rq_Header = (if prev \<noteq> '''' then [(''If-None-Match'', prev)] else []), rq_Body = ''''\<rparr>"
  obtain y w1 where do_req: "ha_Do api ?req w = (y, w1)" by fastforce
  with assms(1) have w1: "published w \<le> published w1" "published w1 \<le> published (ha_CloseBody api w1)"
    unfolding honest_server_def by (metis snd_conv, blast)
  have url: "rq_URL ?req = hf_url f" by simp
  show ?thesis
  proof (cases "ha_NewRequest api (hf_url f)")
    case None
    show ?thesis
    proof (cases y)
      case (Inl e)
      with assms(3) None do_req w1 show ?thesis by (auto simp: doFetch_def Let_def)
    next
      case (Inr resp)
      from assms(1) url do_req [unfolded Inr] obtain n where n: "n \<ge> published w"
        "answers_version ?req (version n) resp"
        unfolding honest_server_def by blast
      from assms(3) None do_req Inr have x: "x = fetch_response f resp" "w' = ha_CloseBody api w1"
        by (simp_all add: doFetch_def Let_def)
      have "tells_version prev (version n) r" if "x = Inr r" for r
        by (rule fetch_response_version [OF _ n(2) assms(2)]) (use that x in simp_all)
      with n(1) x(2) w1 show ?thesis by (auto split: sum.split)
    qed
  qed (use assms(3) in \<open>auto simp: doFetch_def\<close>)
qed

lemma fetch_loop_version:
  assumes "honest_server ctx api (hf_url f) version published" "hf_maxBytes f < 2 ^ 63"
    and "fetch_loop ctx api f prev k attempt lastErr w = (Inr r, w')"
  shows "\<exists>n \<ge> published w. tells_version prev (version n) r"
  using assms(3)
proof (induction k arbitrary: attempt lastErr w)
  case (Suc k)
  obtain e w1 where wait: "(if attempt > 0 then ce_wait ctx (calculateBackoff f attempt) w else (None, w)) = (e, w1)"
    by fastforce
  with assms(1) have w1: "published w \<le> published w1"
    unfolding honest_server_def by (metis order_refl snd_conv)
  obtain x w2 where x: "doFetch api f prev w1 = (x, w2)" by fastforce
  note v = doFetch_version [OF assms(1,2) x]
  show ?case
  proof (cases x)
    case (Inr r')
    with Suc.prems wait x have "r' = r" by (auto split: option.splits)
    with v Inr w1 show ?thesis by (auto intro: order_trans)
  next
    case (Inl err)
    with Suc.prems wait x have "fetch_loop ctx api f prev k (attempt + 1) (Some err) w2 = (Inr r, w')"
      by (auto split: option.splits if_splits)
    from Suc.IH [OF this] v Inl w1 show ?thesis by (auto intro: order_trans)
  qed
qed simp

lemma Fetch_version:
  assumes "honest_server ctx api (hf_url f) version published" "hf_maxBytes f < 2 ^ 63"
    and "Fetch ctx api f prev w = (Inr r, w')"
  shows "\<exists>n \<ge> published w. tells_version prev (version n) r"
  using fetch_loop_version [OF assms(1,2)] assms(3) by (simp add: Fetch_def)

section \<open>Properties\<close>

text \<open>
  C31. \<open>Fetch\<close> makes at most \<open>maxRetries + 1\<close> requests, whatever they return (\<open>cnt\<close> is any counter
  that one request advances by at most one and waiting does not advance); and what it returns is
  usable: a \<open>304\<close> without a body, or a body that is not empty and within the size limit.
\<close>

theorem Fetch_bounded_and_usable:
  assumes "\<And>w. cnt (snd (doFetch api f etag w)) \<le> cnt w + (1 :: nat)"
    and "\<And>d w. cnt (snd (ce_wait ctx d w)) \<le> cnt w"
  shows "cnt (snd (Fetch ctx api f etag w)) \<le> cnt w + nat (hf_maxRetries f + 1)
    \<and> (case fst (Fetch ctx api f etag w) of
         Inl e \<Rightarrow> True
       | Inr r \<Rightarrow> usable_result (hf_maxBytes f) r)"
proof
  show "cnt (snd (Fetch ctx api f etag w)) \<le> cnt w + nat (hf_maxRetries f + 1)"
    unfolding Fetch_def by (rule fetch_loop_calls) (fact assms)+
  show "case fst (Fetch ctx api f etag w) of Inl e \<Rightarrow> True | Inr r \<Rightarrow> usable_result (hf_maxBytes f) r"
    using http_fetcher.fetch_usable [of ctx api f etag w]
    by (cases "Fetch ctx api f etag w") (auto split: sum.splits)
qed

definition demo_fetcher :: http_fetcher where
  "demo_fetcher = \<lparr>hf_url = ''https://c/x.yml'', hf_timeout = Second, hf_maxBytes = 10,
     hf_maxRetries = 2, hf_retryDelay = Second\<rparr>"

definition demo_ctx :: "nat ctx_env" where
  "demo_ctx = \<lparr>ce_err = (\<lambda>w. None), ce_wait = (\<lambda>d w. (None, w)),
     ce_with_timeout = (\<lambda>d w. w), ce_cancel = (\<lambda>w. w)\<rparr>"

definition demo_api :: "nat http_api" where
  "demo_api = \<lparr>ha_NewRequest = (\<lambda>u. None),
     ha_Do = (\<lambda>req w. (Inr \<lparr>rs_StatusCode = (if w < 2 then 503 else 200), rs_Status = ''s'',
        rs_Header = (\<lambda>h. ''''), rs_Body = ''abc'', rs_BodyError = None\<rparr>, w + 1)),
     ha_CloseBody = (\<lambda>w. w)\<rparr>"

lemma Fetch_bounded_and_usable_witness:
  "snd (Fetch demo_ctx demo_api demo_fetcher '''' 5) \<le> 5 + 3"
  using Fetch_bounded_and_usable [of "\<lambda>w. w" demo_api demo_fetcher "''''" demo_ctx 5]
  by (simp add: demo_ctx_def demo_api_def demo_fetcher_def doFetch_def)

text \<open>
  Transient failures are masked: when the first \<open>k \<le> maxRetries\<close> requests fail with errors that
  \<open>isRetryableError\<close> accepts, the context stays alive, the waits of \<open>calculateBackoff\<close> are not
  interrupted and the next request succeeds, \<open>Fetch\<close> returns that success. \<open>vs i\<close> is the world
  before request \<open>i\<close> and \<open>us i\<close> the world after it.
\<close>

theorem Fetch_masks_transient_failures:
  assumes "\<And>i. i < k \<Longrightarrow> doFetch api f etag (vs i) = (Inl (es i), us i) \<and> ce_err ctx (us i) = None
      \<and> isRetryableError (es i) \<and> ce_wait ctx (calculateBackoff f (i + 1)) (us i) = (None, vs (i + 1))"
    and "doFetch api f etag (vs k) = (Inr r, w')" and "int k \<le> hf_maxRetries f"
  shows "Fetch ctx api f etag (vs 0) = (Inr r, w')"
  unfolding Fetch_def
  by (rule fetch_loop_masks [where vs = vs and us = us and es = es and k = k])
    (use assms in \<open>simp_all add: nat_less_iff zless_nat_eq_int_zless\<close>)

lemma Fetch_masks_transient_failures_witness:
  "Fetch demo_ctx demo_api demo_fetcher '''' 0 =
     (Inr \<lparr>fr_Body = ''abc'', fr_ETag = '''', fr_LastModified = '''', fr_NotModified = False\<rparr>, 3)"
  by (rule Fetch_masks_transient_failures [where k = 2 and vs = "\<lambda>i. i" and us = "\<lambda>i. i + 1"
      and es = "\<lambda>i. FetchError 503 ''https://c/x.yml'' (PlainErr ''server error: s'')"])
    (simp_all add: demo_ctx_def demo_api_def demo_fetcher_def doFetch_def fetch_response_def
      readWithLimit_def read_all_limited_def isRetryableError_def as_nonretryable_def as_fetch_def)

text \<open>
  The back-off before retry \<open>n\<close> is the configured delay doubled \<open>n - 1\<close> times and capped at
  thirty seconds; only the first wait is not capped. (Delays of 146 years and more are excluded:
  doubling one overflows.)
\<close>

theorem calculateBackoff_closed_form:
  assumes "0 < hf_retryDelay f" "hf_retryDelay f < 2 ^ 62"
  shows "calculateBackoff f n =
    (if n \<le> 1 then hf_retryDelay f else min (hf_retryDelay f * 2 ^ (n - 1)) (30 * Second))"
  using backoff_loop_closed [OF assms, of "n - 1"] by (auto simp: calculateBackoff_def maxRetryDelay_def)

lemma calculateBackoff_closed_form_witness:
  "map (calculateBackoff demo_fetcher) [1, 2, 3, 6, 7] = map (\<lambda>s. s * Second) [1, 2, 4, 30, 30]"
proof -
  have "0 < hf_retryDelay demo_fetcher" "hf_retryDelay demo_fetcher < 2 ^ 62"
    by (simp_all add: demo_fetcher_def Second_def)
  from calculateBackoff_closed_form [OF this] show ?thesis
    by (simp add: demo_fetcher_def Second_def)
qed

end
