(* ===== verification/Runner.thy ===== *)
theory Runner
  imports Notifier Swarm_Docker Metrics Compose_Fetch
begin

text \<open>
  \<open>internal/runner\<close>: the polling loop of one stack. What the runner is given by options (fetcher,
  swarm client, store, mutex, notifier, tracker, metrics, logger, ticker) are functions that pass
  the world on; \<open>sys\<close> holds the clock, the context, the compose loader and the hash. A ticker's
  channel is the list of what \<open>select\<close> receives, one event per iteration. Log events are values
  handed to the logger; those without data of the run are left out. The lemmas are about stabilisation
  (one cycle, then many), persisting, refreshing the desired state, and the loop.
\<close>

section \<open>What the runner is given\<close>

record 'w sys =
  sy_ctx :: "'w ctx_env"
  sy_now :: "'w \<Rightarrow> gotime \<times> 'w"
  sy_rfc3339 :: "gotime \<Rightarrow> string"
  sy_load :: "string \<Rightarrow> goerror + compose_project"
  sy_sha256 :: "string \<Rightarrow> string"

record 'w mutex =
  mu_Lock :: "'w \<Rightarrow> 'w"
  mu_Unlock :: "'w \<Rightarrow> 'w"

record 'w ticker_factory =
  tf_New :: "int \<Rightarrow> 'w \<Rightarrow> 'w"
  tf_Stop :: "'w \<Rightarrow> 'w"

record 'w metrics_ops =
  mo_IncDockerAPIErrors :: "'w \<Rightarrow> 'w"
  mo_SetServicesTotal :: "string \<Rightarrow> string \<Rightarrow> int \<Rightarrow> 'w \<Rightarrow> 'w"
  mo_IncAlertsTotal :: "string \<Rightarrow> string \<Rightarrow> 'w \<Rightarrow> 'w"
  mo_ObserveCycleDuration :: "int \<Rightarrow> 'w \<Rightarrow> 'w"
  mo_SetLastSuccessfulCycleTimestamp :: "gotime \<Rightarrow> 'w \<Rightarrow> 'w"

text \<open>\<open>rn_runOnce\<close> is \<open>None\<close> for \<open>defaultRunOnce\<close>, and the function that overrides it otherwise.\<close>

record 'w runner =
  rn_logger :: "log_event \<Rightarrow> 'w \<Rightarrow> 'w"
  rn_pollInterval :: int
  rn_tickerFactory :: "'w ticker_factory"
  rn_runOnce :: "('w \<Rightarrow> (goerror option \<times> 'w) option) option"
  rn_composeFetcher :: "(string \<Rightarrow> 'w \<Rightarrow> (goerror + fetch_result) \<times> 'w) option"
  rn_swarmClient :: "(string \<Rightarrow> 'w \<Rightarrow> (goerror + actual_state option) \<times> 'w) option"
  rn_stackName :: string
  rn_composeETag :: string
  rn_composeHash :: string
  rn_lastDesiredState :: "desired_state option"
  rn_lastActualState :: "actual_state option"
  rn_stateStore :: "'w store option"
  rn_stateMu :: "'w mutex option"
  rn_notifier :: "'w notifier option"
  rn_alertStabilizationCycles :: int
  rn_cycleTracker :: "(int \<Rightarrow> int \<Rightarrow> 'w \<Rightarrow> 'w) option"
  rn_metrics :: "'w metrics_ops option"
  rn_stacksEvaluated :: int

section \<open>Options\<close>

type_synonym 'w runner_option = "'w runner \<Rightarrow> 'w runner"

definition WithTickerFactory :: "'w ticker_factory \<Rightarrow> 'w runner_option" where
  "WithTickerFactory factory r = r\<lparr>rn_tickerFactory := factory\<rparr>"

definition WithRunOnce :: "('w \<Rightarrow> (goerror option \<times> 'w) option) \<Rightarrow> 'w runner_option" where
  "WithRunOnce runOnce r = r\<lparr>rn_runOnce := Some runOnce\<rparr>"

definition WithComposeFetcher ::
  "(string \<Rightarrow> 'w \<Rightarrow> (goerror + fetch_result) \<times> 'w) option \<Rightarrow> 'w runner_option" where
  "WithComposeFetcher fetcher r = r\<lparr>rn_composeFetcher := fetcher\<rparr>"

definition WithSwarmClient ::
  "(string \<Rightarrow> 'w \<Rightarrow> (goerror + actual_state option) \<times> 'w) option \<Rightarrow> 'w runner_option" where
  "WithSwarmClient client r = r\<lparr>rn_swarmClient := client\<rparr>"

definition WithStackName :: "string \<Rightarrow> 'w runner_option" where
  "WithStackName name r = r\<lparr>rn_stackName := name\<rparr>"

definition WithStateStore :: "'w store option \<Rightarrow> 'w mutex option \<Rightarrow> 'w runner_option" where
  "WithStateStore store lock r = r\<lparr>rn_stateStore := store, rn_stateMu := lock\<rparr>"

definition WithNotifier ::
  "'w notifier option \<Rightarrow> 'w runner_option" where
  "WithNotifier notifier r = r\<lparr>rn_notifier := notifier\<rparr>"

definition WithAlertStabilizationCycles :: "int \<Rightarrow> 'w runner_option" where
  "WithAlertStabilizationCycles cycles r = r\<lparr>rn_alertStabilizationCycles := cycles\<rparr>"

definition WithCycleTracker :: "(int \<Rightarrow> int \<Rightarrow> 'w \<Rightarrow> 'w) option \<Rightarrow> 'w runner_option" where
  "WithCycleTracker tracker r = r\<lparr>rn_cycleTracker := tracker\<rparr>"

definition WithMetrics :: "'w metrics_ops option \<Rightarrow> 'w runner_option" where
  "WithMetrics metricsCollector r = r\<lparr>rn_metrics := metricsCollector\<rparr>"

definition WithStacksEvaluated :: "int \<Rightarrow> 'w runner_option" where
  "WithStacksEvaluated n r = r\<lparr>rn_stacksEvaluated := n\<rparr>"

text \<open>
  \<open>time_ticker\<close> is the ticker of package \<open>time\<close>, and \<open>private_mutex\<close> the new mutex that a store
  without a lock gets.
\<close>

definition NewRunner ::
  "(log_event \<Rightarrow> 'w \<Rightarrow> 'w) \<Rightarrow> int \<Rightarrow> 'w ticker_factory \<Rightarrow> 'w mutex \<Rightarrow> 'w runner_option list \<Rightarrow> 'w runner"
  where
  "NewRunner logger pollInterval time_ticker private_mutex opts =
     (let r0 = \<lparr>rn_logger = logger, rn_pollInterval = pollInterval, rn_tickerFactory = time_ticker,
            rn_runOnce = None, rn_composeFetcher = None, rn_swarmClient = None, rn_stackName = '''',
            rn_composeETag = '''', rn_composeHash = '''', rn_lastDesiredState = None,
            rn_lastActualState = None, rn_stateStore = None, rn_stateMu = None, rn_notifier = None,
            rn_alertStabilizationCycles = 1, rn_cycleTracker = None, rn_metrics = None,
            rn_stacksEvaluated = 1\<rparr>;
          r = fold (\<lambda>opt r. opt r) opts r0
      in if rn_stateStore r \<noteq> None \<and> rn_stateMu r = None
         then r\<lparr>rn_stateMu := Some private_mutex\<rparr> else r)"

definition stackKey :: "'w runner \<Rightarrow> string" where
  "stackKey r = (if rn_stackName r \<noteq> '''' then rn_stackName r else ''default'')"

definition withStateLock :: "'w runner \<Rightarrow> ('w \<Rightarrow> 'a \<times> 'w) \<Rightarrow> 'w \<Rightarrow> 'a \<times> 'w" where
  "withStateLock r fn w =
     (case rn_stateMu r of
        None \<Rightarrow> fn w
      | Some mu \<Rightarrow> (let (a, w1) = fn (mu_Lock mu w) in (a, mu_Unlock mu w1)))"

section \<open>Stabilisation\<close>

text \<open>
  One iteration of the loop: the entry stored for the service and, when it is to be notified, the
  entry compared by \<open>DetectServiceTransitions\<close> (copied before \<open>LastNotifiedStatus\<close> is set).
\<close>

definition stabilize_service ::
  "int \<Rightarrow> bool \<Rightarrow> service_health option \<Rightarrow> service_health \<Rightarrow> service_health \<times> service_health option"
  where
  "stabilize_service stabilization firstRun prevEntry service =
     (let prevService = (case prevEntry of None \<Rightarrow> zero_health | Some p \<Rightarrow> p);
          hadPrev = prevEntry \<noteq> None;
          consecutive = (if hadPrev \<and> sh_Status prevService = sh_Status service then
              (if sh_ConsecutiveCycles prevService > 0
               then wrap64 (sh_ConsecutiveCycles prevService + 1) else 2) else 1);
          lastNotified = (if sh_LastNotifiedStatus prevService = '''' \<and> hadPrev
              then sh_Status prevService else sh_LastNotifiedStatus prevService);
          service1 = service\<lparr>sh_ConsecutiveCycles := consecutive, sh_LastNotifiedStatus := lastNotified\<rparr>;
          shouldNotify =
            (if firstRun then sh_Status service \<noteq> StatusOK
             else if sh_Status service \<noteq> lastNotified
             then stabilization \<le> 1 \<or> consecutive \<ge> stabilization else False)
      in if shouldNotify
         then (service1\<lparr>sh_LastNotifiedStatus := sh_Status service\<rparr>, Some service1)
         else (service1, None))"

fun stabilize_loop ::
  "int \<Rightarrow> bool \<Rightarrow> service_health gmap \<Rightarrow> service_health gmap \<Rightarrow> service_health gmap \<Rightarrow>
   service_health gmap \<Rightarrow> service_health gmap \<times> service_health gmap" where
  "stabilize_loop stabilization firstRun prevServices [] updated eligible = (updated, eligible)"
| "stabilize_loop stabilization firstRun prevServices ((name, service) # rest) updated eligible =
     (let (stored, notify) =
            stabilize_service stabilization firstRun (mget prevServices name) service
      in stabilize_loop stabilization firstRun prevServices rest (mput name stored updated)
           (case notify of None \<Rightarrow> eligible | Some s \<Rightarrow> mput name s eligible))"

definition stabilizeTransitions ::
  "int \<Rightarrow> stack_snapshot option \<Rightarrow> stack_health \<Rightarrow> service_health gmap \<times> service_transition list" where
  "stabilizeTransitions cycles prev current =
     (let stabilization = (if cycles \<le> 0 then 1 else cycles);
          prevServices = prev_services prev;
          firstRun = (prevServices = []);
          (updated, eligible) =
            stabilize_loop stabilization firstRun prevServices (stk_Services current) [] []
      in (updated, DetectServiceTransitions prev
            \<lparr>stk_Status = stk_Status current, stk_Services = eligible\<rparr>))"

section \<open>One cycle\<close>

definition count_status :: "string \<Rightarrow> service_health gmap \<Rightarrow> int" where
  "count_status status services = wrap64 (int (length (filter (\<lambda>(_, s). sh_Status s = status) services)))"

definition transition_severity :: "service_transition \<Rightarrow> string" where
  "transition_severity change =
     (let severity = ToLower (tr_CurrentStatus change)
      in if severity = '''' then ''unknown'' else severity)"

definition recordMetrics ::
  "'w runner \<Rightarrow> stack_health \<Rightarrow> service_transition list \<Rightarrow> 'w \<Rightarrow> 'w" where
  "recordMetrics r stackHealth transitions w =
     (case rn_metrics r of
        None \<Rightarrow> w
      | Some m \<Rightarrow>
          let stack = stackKey r;
              w1 = mo_SetServicesTotal m stack ''ok'' (count_status StatusOK (stk_Services stackHealth)) w;
              w2 = mo_SetServicesTotal m stack ''degraded'' (count_status StatusDegraded (stk_Services stackHealth)) w1;
              w3 = mo_SetServicesTotal m stack ''failed'' (count_status StatusFailed (stk_Services stackHealth)) w2
          in fold (\<lambda>change. mo_IncAlertsTotal m stack (transition_severity change)) transitions w3)"

definition logCycleSummary ::
  "'w runner \<Rightarrow> stack_health \<Rightarrow> service_transition list \<Rightarrow> 'w \<Rightarrow> 'w" where
  "logCycleSummary r stackHealth transitions =
     rn_logger r (log_event_of LInfo ''health evaluation summary''
       [(''stack_name'', LStr (stackKey r)), (''fingerprint'', LStr (rn_composeHash r)),
        (''services_evaluated'', LInt (int (length (stk_Services stackHealth)))),
        (''services_ok'', LInt (count_status StatusOK (stk_Services stackHealth))),
        (''services_degraded'', LInt (count_status StatusDegraded (stk_Services stackHealth))),
        (''services_failed'', LInt (count_status StatusFailed (stk_Services stackHealth))),
        (''transitions'', LInt (int (length transitions)))])"

definition transition_event :: "'w runner \<Rightarrow> service_transition \<Rightarrow> log_event" where
  "transition_event r change =
     log_event_of
       (if tr_CurrentStatus change = StatusFailed then LError
        else if tr_CurrentStatus change = StatusDegraded then LWarn else LInfo)
       ''service transition detected''
       ([(''service'', LStr (tr_Name change)), (''previous_status'', LStr (tr_PreviousStatus change)),
         (''current_status'', LStr (tr_CurrentStatus change)), (''reasons'', LStrs (tr_Reasons change))]
        @ (case tr_ReplicaChange change of None \<Rightarrow> [] | Some rc \<Rightarrow>
            [(''desired_replicas'', LInt (rc_CurrentDesired rc)), (''running_replicas'', LInt (rc_CurrentRunning rc)),
             (''desired_delta'', LInt (rc_DesiredDelta rc)), (''running_delta'', LInt (rc_RunningDelta rc))])
        @ (case tr_ImageChange change of None \<Rightarrow> [] | Some ic \<Rightarrow>
            [(''desired_image'', LStr (ic_CurrentDesired ic)), (''actual_image'', LStr (ic_CurrentActual ic))])
        @ (if length (tr_Drift change) > 0 then [(''drift'', LDrift (tr_Drift change))] else [])
        @ [(''stack_name'', LStr (stackKey r))])"

definition update_event :: "'w runner \<Rightarrow> actual_service \<Rightarrow> log_event" where
  "update_event r service = log_event_of LInfo ''service update status''
     [(''service'', LStr (as_Name service)), (''update_state'', LStr (as_UpdateState service)),
      (''stack_name'', LStr (stackKey r))]"

definition log_updates :: "'w runner \<Rightarrow> 'w \<Rightarrow> 'w" where
  "log_updates r = fold (\<lambda>(_, service) w.
     if as_UpdateState service = '''' then w else rn_logger r (update_event r service) w)
     (actual_services (rn_lastActualState r))"

definition wrapRuntime :: "string \<Rightarrow> goerror \<Rightarrow> goerror" where
  "wrapRuntime op err = RuntimeError op err"

text \<open>The critical section of \<open>evaluateAndPersist\<close>.\<close>

definition snapshot_of :: "string \<Rightarrow> service_health gmap \<Rightarrow> string \<Rightarrow> stack_snapshot" where
  "snapshot_of fingerprint services now = \<lparr>sn_DesiredFingerprint = fingerprint,
     sn_Services = Some services, sn_EvaluatedAt = now\<rparr>"

definition persist ::
  "'w runner \<Rightarrow> 'w store \<Rightarrow> string \<Rightarrow> stack_health \<Rightarrow> 'w \<Rightarrow> (goerror + service_transition list) \<times> 'w" where
  "persist r store now stackHealth w =
     (case st_Load store w of
        (Inl err, w1) \<Rightarrow> (Inl (wrapRuntime ''state load'' err), w1)
      | (Inr loaded, w1) \<Rightarrow>
          (let snapshot = mget (nilmap (gs_Stacks loaded)) (stackKey r);
               (updatedServices, transitions) =
                 stabilizeTransitions (rn_alertStabilizationCycles r) snapshot stackHealth
           in case st_Save store
                  (put_stack (stackKey r) (snapshot_of (rn_composeHash r) updatedServices now) loaded) w1 of
                (Some err, w2) \<Rightarrow> (Inl (wrapRuntime ''state save'' err), w2)
              | (None, w2) \<Rightarrow> (Inr transitions, w2)))"

text \<open>
  From here on a step may not return, because \<open>Notify\<close> does not: \<open>None\<close>. The runner is stuck then.
\<close>

definition notify_transitions ::
  "'w runner \<Rightarrow> service_transition list \<Rightarrow> 'w \<Rightarrow> 'w option" where
  "notify_transitions r transitions w =
     (case rn_notifier r of
        None \<Rightarrow> Some w
      | Some notify \<Rightarrow>
          if length transitions > 0 then
            (case notify (stackKey r) transitions w of
               None \<Rightarrow> None
             | Some (Some err, w1) \<Rightarrow> Some (rn_logger r
                 (log_event_of LError ''failed to send notifications'' [(''error'', LErr err)]) w1)
             | Some (None, w1) \<Rightarrow> Some w1)
          else Some w)"

definition evaluateAndPersist ::
  "'w sys \<Rightarrow> 'w runner \<Rightarrow> 'w store \<Rightarrow> desired_state \<Rightarrow> 'w \<Rightarrow> (goerror option \<times> 'w) option" where
  "evaluateAndPersist sys r store desired w =
     (let stackScoped = (rn_stackName r \<noteq> '''');
          stackHealth = EvaluateStackHealth desired (rn_lastActualState r) stackScoped;
          w1 = log_updates r w;
          (now, w2) = sy_now sys w1
      in case withStateLock r (persist r store (sy_rfc3339 sys now) stackHealth) w2 of
           (Inl err, w3) \<Rightarrow> Some (Some err, w3)
         | (Inr transitions, w3) \<Rightarrow>
             (let w4 = logCycleSummary r stackHealth transitions w3;
                  w5 = recordMetrics r stackHealth transitions w4;
                  w6 = fold (\<lambda>change. rn_logger r (transition_event r change)) transitions w5
              in map_option (Pair None) (notify_transitions r transitions w6)))"

text \<open>The part of \<open>defaultRunOnce\<close> that fetches and parses the compose file.\<close>

definition refresh_desired ::
  "'w sys \<Rightarrow> 'w runner \<Rightarrow> 'w \<Rightarrow> (goerror option \<times> 'w runner) \<times> 'w" where
  "refresh_desired sys r w =
     (case rn_composeFetcher r of
        None \<Rightarrow> ((None, r), w)
      | Some fetch \<Rightarrow>
          (case fetch (rn_composeETag r) w of
             (Inl err, w1) \<Rightarrow> ((Some (wrapRuntime ''compose fetch'' err), r), w1)
           | (Inr result, w1) \<Rightarrow>
               (let r1 = (if fr_ETag result \<noteq> '''' then r\<lparr>rn_composeETag := fr_ETag result\<rparr> else r)
                in if fr_NotModified result then ((None, r1), w1)
                   else case Fingerprint (sy_sha256 sys) (fr_Body result) of
                     Inl err \<Rightarrow> ((Some (wrapRuntime ''compose fingerprint'' err), r1), w1)
                   | Inr fingerprint \<Rightarrow>
                       if fingerprint = rn_composeHash r1 then ((None, r1), w1)
                       else
                         (let r2 = r1\<lparr>rn_composeHash := fingerprint\<rparr>;
                              w2 = rn_logger r (log_event_of LInfo ''compose fetched''
                                [(''bytes'', LInt (int (length (fr_Body result)))), (''etag'', LStr (fr_ETag result)),
                                 (''last_modified'', LStr (fr_LastModified result)), (''fingerprint'', LStr fingerprint)]) w1
                          in case ParseDesiredState (sy_load sys) (fr_Body result) of
                               Inl err \<Rightarrow> ((Some (wrapRuntime ''compose parse'' err), r2), w2)
                             | Inr desiredState \<Rightarrow>
                                 ((None, r2\<lparr>rn_lastDesiredState := Some desiredState\<rparr>),
                                  rn_logger r (log_event_of LInfo ''parsed desired state''
                                    [(''services'', LInt (int (length (dst_Services desiredState))))]) w2)))))"

definition running_replicas :: "actual_state option \<Rightarrow> int" where
  "running_replicas actual =
     fold (\<lambda>(_, service) total. wrap64 (total + as_RunningReplicas service)) (actual_services actual) 0"

definition collected_event :: "'w runner \<Rightarrow> actual_state option \<Rightarrow> log_event" where
  "collected_event r actualState = log_event_of LInfo ''collected actual state''
     ([(''services'', LInt (int (length (actual_services actualState)))),
       (''running_replicas'', LInt (running_replicas actualState))]
      @ (if rn_stackName r \<noteq> '''' then [(''stack_name'', LStr (rn_stackName r))] else []))"

text \<open>The part of \<open>defaultRunOnce\<close> that collects the actual state and evaluates.\<close>

definition collect_and_evaluate ::
  "'w sys \<Rightarrow> 'w runner \<Rightarrow> 'w \<Rightarrow> ((goerror option \<times> 'w runner) \<times> 'w) option" where
  "collect_and_evaluate sys r w =
     (case rn_swarmClient r of
        None \<Rightarrow> Some ((None, r), w)
      | Some getActualState \<Rightarrow>
          (case ce_err (sy_ctx sys) w of
             Some err \<Rightarrow> Some ((Some err, r), w)
           | None \<Rightarrow>
               (case getActualState (rn_stackName r) w of
                  (Inl err, w1) \<Rightarrow>
                    Some ((Some (wrapRuntime ''swarm actual state'' err), r),
                      case rn_metrics r of None \<Rightarrow> w1 | Some m \<Rightarrow> mo_IncDockerAPIErrors m w1)
                | (Inr actualState, w1) \<Rightarrow>
                    (let r1 = r\<lparr>rn_lastActualState := actualState\<rparr>;
                         w2 = rn_logger r (collected_event r actualState) w1
                     in case (rn_stateStore r1, rn_lastDesiredState r1) of
                          (Some store, Some desired) \<Rightarrow>
                            map_option (\<lambda>(e, w3).
                              ((map_option (wrapRuntime ''state evaluation'') e, r1), w3))
                              (evaluateAndPersist sys r1 store desired w2)
                        | _ \<Rightarrow> Some ((None, r1), w2)))))"

definition defaultRunOnce ::
  "'w sys \<Rightarrow> 'w runner \<Rightarrow> 'w \<Rightarrow> ((goerror option \<times> 'w runner) \<times> 'w) option" where
  "defaultRunOnce sys r w =
     (case ce_err (sy_ctx sys) w of
        Some err \<Rightarrow> Some ((Some err, r), w)
      | None \<Rightarrow>
          (case refresh_desired sys r w of
             ((Some err, r1), w1) \<Rightarrow> Some ((Some err, r1), w1)
           | ((None, r1), w1) \<Rightarrow> collect_and_evaluate sys r1 w1))"

text \<open>\<open>time.Since\<close> and the two readings of the clock; only a cycle without an error is recorded.\<close>

definition record_cycle :: "'w sys \<Rightarrow> 'w runner \<Rightarrow> gotime \<Rightarrow> 'w \<Rightarrow> 'w" where
  "record_cycle sys r start w =
     (let (t, w1) = sy_now sys w;
          duration = time_Sub t start;
          w2 = (case rn_cycleTracker r of
              None \<Rightarrow> w1
            | Some record \<Rightarrow>
                record duration (if rn_stacksEvaluated r \<le> 0 then 1 else rn_stacksEvaluated r) w1)
      in case rn_metrics r of
           None \<Rightarrow> w2
         | Some m \<Rightarrow>
             (let (t', w3) = sy_now sys (mo_ObserveCycleDuration m duration w2)
              in mo_SetLastSuccessfulCycleTimestamp m t' w3))"

definition RunOnce :: "'w sys \<Rightarrow> 'w runner \<Rightarrow> 'w \<Rightarrow> ((goerror option \<times> 'w runner) \<times> 'w) option" where
  "RunOnce sys r w =
     (let (start, w1) = sy_now sys w
      in case (case rn_runOnce r of
              None \<Rightarrow> defaultRunOnce sys r w1
            | Some runOnce \<Rightarrow> map_option (\<lambda>(e, w'). ((e, r), w')) (runOnce w1)) of
           None \<Rightarrow> None
         | Some ((Some e, r1), w2) \<Rightarrow> Some ((Some e, r1), w2)
         | Some ((None, r1), w2) \<Rightarrow> Some ((None, r1), record_cycle sys r1 start w2))"

section \<open>The loop\<close>

text \<open>What one \<open>select\<close> receives.\<close>

datatype run_event = CtxDone | Tick

definition cycle_error_event :: "string \<Rightarrow> goerror \<Rightarrow> log_event" where
  "cycle_error_event msg err = log_event_of LError msg
     ((''error'', LErr err) # (if as_runtime err \<noteq> None then [(''runtime_error'', LBool True)] else []))"

definition logged_RunOnce :: "'w sys \<Rightarrow> string \<Rightarrow> 'w runner \<Rightarrow> 'w \<Rightarrow> ('w runner \<times> 'w) option" where
  "logged_RunOnce sys msg r w =
     (case RunOnce sys r w of
        None \<Rightarrow> None
      | Some ((Some err, r1), w1) \<Rightarrow> Some (r1, rn_logger r1 (cycle_error_event msg err) w1)
      | Some ((None, r1), w1) \<Rightarrow> Some (r1, w1))"

text \<open>
  \<open>run_loop\<close> consumes the events of the selects. It has returned when it has received the end of the
  context; when the list ends before, the loop is still waiting; and it may hang in a cycle.
\<close>

datatype 's run_result =
    Returned "goerror option" 's
  | Waiting 's
  | Hanging

fun run_loop :: "'w sys \<Rightarrow> run_event list \<Rightarrow> 'w runner \<Rightarrow> 'w \<Rightarrow> ('w runner \<times> 'w) run_result" where
  "run_loop sys [] r w = Waiting (r, w)"
| "run_loop sys (CtxDone # events) r w =
     Returned None (r, tf_Stop (rn_tickerFactory r) (rn_logger r (log_event_of LInfo ''runner stopped'' []) w))"
| "run_loop sys (Tick # events) r w =
     (case logged_RunOnce sys ''run cycle failed'' r w of
        None \<Rightarrow> Hanging
      | Some (r1, w1) \<Rightarrow> run_loop sys events r1 w1)"

definition Run :: "'w sys \<Rightarrow> run_event list \<Rightarrow> 'w runner \<Rightarrow> 'w \<Rightarrow> ('w runner \<times> 'w) run_result" where
  "Run sys events r w =
     (if rn_pollInterval r \<le> 0
      then Returned (Some (PlainErr ''poll interval must be greater than zero'')) (r, w)
      else case logged_RunOnce sys ''initial run cycle failed'' r w of
        None \<Rightarrow> Hanging
      | Some (r1, w1) \<Rightarrow>
          run_loop sys events r1 (tf_New (rn_tickerFactory r1) (rn_pollInterval r1) w1))"

section \<open>What stabilisation does\<close>

text \<open>How many cycles in a row a service that was known as \<open>p\<close> has the status of \<open>s\<close>.\<close>

definition streak :: "service_health \<Rightarrow> service_health \<Rightarrow> int" where
  "streak p s =
     (if sh_Status p = sh_Status s
      then (if sh_ConsecutiveCycles p > 0 then wrap64 (sh_ConsecutiveCycles p + 1) else 2) else 1)"

text \<open>When the service \<open>s\<close> is reported, given what was known of the stack and of the service.\<close>

definition alerts :: "int \<Rightarrow> service_health gmap \<Rightarrow> string \<Rightarrow> service_health \<Rightarrow> bool" where
  "alerts cycles prevs name s \<longleftrightarrow>
     (case mget prevs name of
        None \<Rightarrow> sh_Status s \<noteq> StatusOK \<and> (prevs = [] \<or> cycles \<le> 1 \<and> sh_Status s \<noteq> '''')
      | Some p \<Rightarrow> sh_Status s \<noteq> reference_status p \<and> (cycles \<le> 1 \<or> cycles \<le> streak p s))"

text \<open>What is stored for it.\<close>

definition stored :: "int \<Rightarrow> service_health gmap \<Rightarrow> string \<Rightarrow> service_health \<Rightarrow> service_health" where
  "stored cycles prevs name s =
     (case mget prevs name of
        None \<Rightarrow> s\<lparr>sh_ConsecutiveCycles := 1,
          sh_LastNotifiedStatus := (if prevs = [] then (if sh_Status s \<noteq> StatusOK then sh_Status s else '''')
            else if cycles \<le> 1 then sh_Status s else '''')\<rparr>
      | Some p \<Rightarrow> s\<lparr>sh_ConsecutiveCycles := streak p s,
          sh_LastNotifiedStatus := (if alerts cycles prevs name s then sh_Status s else reference_status p)\<rparr>)"

definition norm_cycles :: "int \<Rightarrow> int" where
  "norm_cycles cycles = (if cycles \<le> 0 then 1 else cycles)"

definition stab :: "int \<Rightarrow> service_health gmap \<Rightarrow> string \<Rightarrow> service_health \<Rightarrow> service_health \<times> service_health option"
  where "stab cycles prevs name s =
    stabilize_service (norm_cycles cycles) (prevs = []) (mget prevs name) s"

lemma stabilize_service_stored:
  "fst (stab cycles prevs name s) = stored cycles prevs name s"
proof (cases "mget prevs name")
  case None
  then show ?thesis
    by (cases s) (auto simp: stab_def norm_cycles_def stabilize_service_def stored_def Let_def zero_health_def)
next
  case (Some p)
  then have "prevs \<noteq> []" by auto
  with Some show ?thesis
    by (cases s) (auto simp: stab_def norm_cycles_def stabilize_service_def stored_def alerts_def streak_def reference_status_def Let_def)
qed

lemma stabilize_service_notified:
  assumes "snd (stab cycles prevs name s) = n"
  shows "(case n of None \<Rightarrow> \<not> alerts cycles prevs name s
    | Some e \<Rightarrow> sh_Status e = sh_Status s \<and>
       (alerts cycles prevs name s \<longleftrightarrow> transition_of prevs name e \<noteq> None))"
proof (cases "mget prevs name")
  case None
  with assms show ?thesis
    by (auto simp: stab_def norm_cycles_def stabilize_service_def alerts_def Let_def zero_health_def transition_of_def)
next
  case (Some p)
  then have "prevs \<noteq> []" by auto
  with Some assms show ?thesis
    by (auto simp: stab_def norm_cycles_def stabilize_service_def alerts_def streak_def reference_status_def Let_def transition_of_def)
qed

lemma stabilize_loop_eq:
  assumes "distinct (mkeys services)" "set (mkeys services) \<inter> set (mkeys upd) = {}"
    and "set (mkeys services) \<inter> set (mkeys elig) = {}"
  shows "stabilize_loop N fr prevs services upd elig =
    (upd @ map (\<lambda>(n, s). (n, fst (stabilize_service N fr (mget prevs n) s))) services,
     elig @ List.map_filter (\<lambda>(n, s). map_option (Pair n) (snd (stabilize_service N fr (mget prevs n) s))) services)"
  using assms
proof (induction services arbitrary: upd elig)
  case Nil
  then show ?case by (simp add: map_filter_simps)
next
  case (Cons e services)
  obtain n s where e: "e = (n, s)" by fastforce
  obtain st nt where st: "stabilize_service N fr (mget prevs n) s = (st, nt)" by fastforce
  have "mget upd n = None" "mget elig n = None" using Cons.prems e by (auto simp: map_of_eq_None_iff)
  then have put: "mput n st upd = upd @ [(n, st)]" "mput n x elig = elig @ [(n, x)]" for x
    by (simp_all add: mput_fresh)
  show ?case
  proof (cases nt)
    case None
    with Cons.IH [of "upd @ [(n, st)]" elig] Cons.prems e st put show ?thesis
      by (auto simp: map_filter_simps)
  next
    case (Some x)
    with Cons.IH [of "upd @ [(n, st)]" "elig @ [(n, x)]"] Cons.prems e st put show ?thesis
      by (auto simp: map_filter_simps)
  qed
qed

definition eligible_services :: "int \<Rightarrow> service_health gmap \<Rightarrow> service_health gmap \<Rightarrow> service_health gmap" where
  "eligible_services cycles prevs services = List.map_filter (\<lambda>(n, s). map_option (Pair n)
     (snd (stab cycles prevs n s))) services"

lemma stabilizeTransitions_eq:
  assumes "wf_gmap (stk_Services current)"
  shows "stabilizeTransitions cycles prev current =
    (map (\<lambda>(n, s). (n, stored cycles (prev_services prev) n s)) (stk_Services current),
     DetectServiceTransitions prev \<lparr>stk_Status = stk_Status current,
       stk_Services = eligible_services cycles (prev_services prev) (stk_Services current)\<rparr>)"
  using assms
  by (simp add: stabilizeTransitions_def Let_def stabilize_loop_eq wf_gmap_def eligible_services_def
      stabilize_service_stored [symmetric] stab_def norm_cycles_def)

lemma eligible_Nil [simp]: "eligible_services cycles prevs [] = []"
  by (simp add: eligible_services_def map_filter_simps)

lemma eligible_Cons [simp]:
  "eligible_services cycles prevs ((n, s) # services) =
     (case snd (stab cycles prevs n s) of
        None \<Rightarrow> eligible_services cycles prevs services
      | Some x \<Rightarrow> (n, x) # eligible_services cycles prevs services)"
  by (simp add: eligible_services_def map_filter_simps split: option.splits)

lemma eligible_mget:
  "wf_gmap services \<Longrightarrow> mget (eligible_services cycles prevs services) n =
     (case mget services n of None \<Rightarrow> None | Some s \<Rightarrow> snd (stab cycles prevs n s))"
proof (induction services)
  case (Cons e services)
  obtain m s where e: "e = (m, s)" by fastforce
  from Cons.prems e have "mget services m = None" "wf_gmap services" by (simp_all add: wf_gmap_Cons)
  with Cons.IH e show ?case by (auto split: option.splits)
qed simp

lemma eligible_wf: "wf_gmap services \<Longrightarrow> wf_gmap (eligible_services cycles prevs services)"
proof (induction services)
  case (Cons e services)
  obtain m s where e: "e = (m, s)" by fastforce
  from Cons.prems e have "mget services m = None" "wf_gmap services" by (simp_all add: wf_gmap_Cons)
  with Cons.IH e show ?case by (auto simp: wf_gmap_Cons eligible_mget split: option.splits)
qed simp

lemma map_stored_mget:
  "mget (map (\<lambda>(n, s). (n, stored cycles prevs n s)) m) n = map_option (stored cycles prevs n) (mget m n)"
  by (induction m) auto

lemma wf_map_stored: "wf_gmap (map (\<lambda>(n, s). (n, stored cycles prevs n s)) m) = wf_gmap m"
  by (simp add: wf_gmap_def case_prod_beta comp_def)

lemma stabilizeTransitions_mem:
  assumes "wf_gmap (stk_Services current)"
  shows "t \<in> set (snd (stabilizeTransitions cycles prev current)) \<longleftrightarrow>
    (\<exists>s e. mget (stk_Services current) (tr_Name t) = Some s
       \<and> snd (stab cycles (prev_services prev) (tr_Name t) s) = Some e
       \<and> transition_of (prev_services prev) (tr_Name t) e = Some t)"
  using DetectServiceTransitions_facts(2) [of "\<lparr>stk_Status = stk_Status current,
      stk_Services = eligible_services cycles (prev_services prev) (stk_Services current)\<rparr>" t prev]
    eligible_wf [OF assms] eligible_mget [OF assms]
  by (auto simp: stabilizeTransitions_eq [OF assms] split: option.splits)

lemma alerts_iff_transition:
  "alerts cycles prevs name s \<longleftrightarrow>
     (\<exists>e t. snd (stab cycles prevs name s) = Some e \<and> transition_of prevs name e = Some t)"
  using stabilize_service_notified [OF refl, of cycles prevs name s] by (auto split: option.splits)

lemma stabilizeTransitions_names:
  assumes "wf_gmap (stk_Services current)"
  shows "name \<in> set (map tr_Name (snd (stabilizeTransitions cycles prev current))) \<longleftrightarrow>
    (\<exists>s. mget (stk_Services current) name = Some s \<and> alerts cycles (prev_services prev) name s)"
proof
  assume "name \<in> set (map tr_Name (snd (stabilizeTransitions cycles prev current)))"
  then obtain t where t: "t \<in> set (snd (stabilizeTransitions cycles prev current))" "tr_Name t = name"
    by auto
  then show "\<exists>s. mget (stk_Services current) name = Some s \<and> alerts cycles (prev_services prev) name s"
    unfolding alerts_iff_transition using stabilizeTransitions_mem [OF assms] by blast
next
  assume "\<exists>s. mget (stk_Services current) name = Some s \<and> alerts cycles (prev_services prev) name s"
  then obtain s e t where s: "mget (stk_Services current) name = Some s"
    "snd (stab cycles (prev_services prev) name s) = Some e"
    "transition_of (prev_services prev) name e = Some t" unfolding alerts_iff_transition by blast
  from s(3) have n: "tr_Name t = name" by (rule transition_of_Name)
  with s have "t \<in> set (snd (stabilizeTransitions cycles prev current))"
    using stabilizeTransitions_mem [OF assms] by blast
  with n show "name \<in> set (map tr_Name (snd (stabilizeTransitions cycles prev current)))"
    by (auto simp: image_iff)
qed

lemma transition_of_statuses:
  "transition_of prevs name e = Some t \<Longrightarrow> tr_CurrentStatus t = sh_Status e \<and>
     tr_PreviousStatus t = (case mget prevs name of None \<Rightarrow> '''' | Some p \<Rightarrow> reference_status p)"
  by (auto simp: transition_of_def split: option.splits if_splits)

lemma stabilizeTransitions_statuses:
  assumes "wf_gmap (stk_Services current)" "t \<in> set (snd (stabilizeTransitions cycles prev current))"
  shows "\<exists>s. mget (stk_Services current) (tr_Name t) = Some s \<and> tr_CurrentStatus t = sh_Status s
    \<and> tr_PreviousStatus t = (case mget (prev_services prev) (tr_Name t) of
        None \<Rightarrow> '''' | Some p \<Rightarrow> reference_status p)"
proof -
  from assms(2) stabilizeTransitions_mem [OF assms(1)] obtain s e where
    s: "mget (stk_Services current) (tr_Name t) = Some s"
    and e: "snd (stab cycles (prev_services prev) (tr_Name t) s) = Some e"
    and t: "transition_of (prev_services prev) (tr_Name t) e = Some t" by blast
  from stabilize_service_notified [OF e] have "sh_Status e = sh_Status s" by simp
  with s transition_of_statuses [OF t] show ?thesis by auto
qed

section \<open>Many cycles\<close>

text \<open>
  The notifications of a sequence of cycles of one stack, each cycle with the fingerprint and the
  time it stores: every cycle is stabilised against the snapshot the one before has stored.
\<close>

fun stack_cycles ::
  "int \<Rightarrow> stack_snapshot option \<Rightarrow> (string \<times> string \<times> stack_health) list \<Rightarrow> service_transition list list"
  where
  "stack_cycles cycles snap [] = []"
| "stack_cycles cycles snap ((fp, now, h) # hs) =
     (let (upd, ts) = stabilizeTransitions cycles snap h
      in ts # stack_cycles cycles (Some (snapshot_of fp upd now)) hs)"

definition notified :: "string \<Rightarrow> service_transition list \<Rightarrow> bool" where
  "notified name ts \<longleftrightarrow> name \<in> tr_Name ` set ts"

text \<open>One service that the snapshot knows, seen in every cycle.\<close>

definition known_alert :: "int \<Rightarrow> service_health \<Rightarrow> service_health \<Rightarrow> bool" where
  "known_alert cycles p s \<longleftrightarrow> sh_Status s \<noteq> reference_status p \<and> (cycles \<le> 1 \<or> cycles \<le> streak p s)"

definition known_next :: "int \<Rightarrow> service_health \<Rightarrow> service_health \<Rightarrow> service_health" where
  "known_next cycles p s = s\<lparr>sh_ConsecutiveCycles := streak p s,
     sh_LastNotifiedStatus := (if known_alert cycles p s then sh_Status s else reference_status p)\<rparr>"

definition known_after :: "int \<Rightarrow> service_health \<Rightarrow> service_health list \<Rightarrow> service_health" where
  "known_after cycles p ss = foldl (known_next cycles) p ss"

lemma known_after_simps [simp]:
  "known_after cycles p [] = p"
  "known_after cycles p (s # ss) = known_after cycles (known_next cycles p s) ss"
  "known_after cycles p (ss @ [s]) = known_next cycles (known_after cycles p ss) s"
  by (simp_all add: known_after_def)

lemma known_next_simps [simp]:
  "sh_Status (known_next cycles p s) = sh_Status s"
  "sh_ConsecutiveCycles (known_next cycles p s) = streak p s"
  "sh_LastNotifiedStatus (known_next cycles p s) =
     (if known_alert cycles p s then sh_Status s else reference_status p)"
  by (simp_all add: known_next_def)

lemma known_stored:
  "mget prevs name = Some p \<Longrightarrow> stored cycles prevs name s = known_next cycles p s"
  by (simp add: stored_def known_next_def alerts_def known_alert_def)

lemma prev_services_snapshot [simp]: "prev_services (Some (snapshot_of fp upd now)) = upd"
  by (simp add: prev_services_def snapshot_of_def)

definition seen :: "string \<Rightarrow> (string \<times> string \<times> stack_health) \<Rightarrow> service_health \<Rightarrow> bool" where
  "seen name c s \<longleftrightarrow> wf_gmap (stk_Services (snd (snd c))) \<and> mget (stk_Services (snd (snd c))) name = Some s"

lemma stack_cycles_known:
  assumes "mget (prev_services snap) name = Some p" "list_all2 (seen name) hs ss" "i < length hs"
  shows "notified name (stack_cycles cycles snap hs ! i) \<longleftrightarrow>
    known_alert cycles (known_after cycles p (take i ss)) (ss ! i)"
  using assms(2,1,3)
proof (induction arbitrary: snap p i rule: list_all2_induct)
  case (Cons c hs s ss)
  obtain fp now h where c: "c = (fp, now, h)" by (cases c)
  have h: "wf_gmap (stk_Services h)" "mget (stk_Services h) name = Some s"
    using Cons.hyps(1) c by (simp_all add: seen_def)
  let ?upd = "fst (stabilizeTransitions cycles snap h)"
  have upd: "mget (prev_services (Some (snapshot_of fp ?upd now))) name = Some (known_next cycles p s)"
    using h Cons.prems(1) by (simp add: stabilizeTransitions_eq map_stored_mget known_stored)
  show ?case
  proof (cases i)
    case 0
    have "notified name (snd (stabilizeTransitions cycles snap h)) \<longleftrightarrow> known_alert cycles p s"
      using stabilizeTransitions_names [OF h(1), of name cycles snap] h(2) Cons.prems(1)
      by (simp add: notified_def alerts_def known_alert_def)
    with 0 c show ?thesis by (simp add: case_prod_beta Let_def)
  next
    case (Suc j)
    with Cons.IH [OF upd, of j] Cons.prems(2) c show ?thesis by (simp add: case_prod_beta Let_def)
  qed
qed simp

lemma wrap64_le: "- (2 ^ 63) \<le> x \<Longrightarrow> wrap64 x \<le> x"
  using zmod_le_nonneg_dividend [of "x + 2 ^ 63" "2 ^ 64"] by (simp add: wrap64_def)

lemma streak_suffix:
  assumes "k < length ss" "int (length ss - k) \<le> sh_ConsecutiveCycles (known_after cycles p ss)"
  shows "sh_Status (ss ! k) = sh_Status (last ss)"
  using assms
proof (induction ss arbitrary: k rule: rev_induct)
  case (snoc s ss)
  let ?q = "known_after cycles p ss"
  show ?case
  proof (cases "k = length ss")
    case False
    then have k: "k < length ss" using snoc.prems(1) by simp
    have le: "int (Suc (length ss) - k) \<le> streak ?q s" using snoc.prems(2) by simp
    with k have same: "sh_Status ?q = sh_Status s" by (auto simp: streak_def split: if_splits)
    obtain r ss' where ss: "ss = ss' @ [r]" using k by (cases ss rule: rev_cases) auto
    then have q: "sh_Status ?q = sh_Status (last ss)" by simp
    have "sh_Status (ss ! k) = sh_Status (last ss)"
    proof (cases "sh_ConsecutiveCycles ?q > 0")
      case True
      then have "streak ?q s \<le> sh_ConsecutiveCycles ?q + 1"
        using same wrap64_le [of "sh_ConsecutiveCycles ?q + 1"] by (simp add: streak_def)
      with le k have "int (length ss - k) \<le> sh_ConsecutiveCycles ?q" by simp
      with snoc.IH [OF k] show ?thesis .
    next
      case nonpos: False
      with le same have "int (Suc (length ss) - k) \<le> 2" by (simp add: streak_def)
      with k have "k = length ss - 1" by simp
      with ss show ?thesis by simp
    qed
    with same q k show ?thesis by (simp add: nth_append)
  qed simp
qed simp

lemma stable_state:
  assumes "\<forall>s \<in> set ss. sh_Status s = x" "ss \<noteq> []" "int (length ss) < 2 ^ 63"
    and "sh_Status p \<noteq> x" "reference_status p \<noteq> x" "reference_status p \<noteq> ''''"
  shows "sh_ConsecutiveCycles (known_after cycles p ss) = int (length ss)
    \<and> sh_Status (known_after cycles p ss) = x
    \<and> reference_status (known_after cycles p ss) =
        (if cycles \<le> int (length ss) then x else reference_status p)"
  using assms(1-3)
proof (induction ss rule: rev_induct)
  case (snoc s ss)
  show ?case
  proof (cases "ss = []")
    case True
    with snoc.prems assms(4-6) show ?thesis
      by (auto simp: streak_def known_alert_def reference_status_def)
  next
    case False
    let ?q = "known_after cycles p ss"
    have IH: "sh_ConsecutiveCycles ?q = int (length ss)" "sh_Status ?q = x"
      "reference_status ?q = (if cycles \<le> int (length ss) then x else reference_status p)"
      using snoc.IH snoc.prems False by simp_all
    have "streak ?q s = int (length ss) + 1"
      using IH snoc.prems False by (simp add: streak_def)
    with IH snoc.prems assms(5,6) False show ?thesis
      by (auto simp: known_alert_def reference_status_def [of "known_next cycles _ _"] split: if_splits)
  qed
qed simp

lemma settled_state:
  assumes "\<forall>s \<in> set ss. sh_Status s = x" "reference_status p = x"
  shows "reference_status (known_after cycles p ss) = x"
  using assms(1)
proof (induction ss rule: rev_induct)
  case (snoc s ss)
  then have "reference_status (known_after cycles p ss) = x" "sh_Status s = x" by simp_all
  then show ?case by (auto simp: reference_status_def [of "known_next cycles _ _"] known_alert_def)
qed (simp add: assms(2))

lemma list_all2_status:
  assumes "\<forall>c \<in> set hs. \<exists>s. seen name c s \<and> sh_Status s = x"
  obtains ss where "list_all2 (seen name) hs ss" "\<forall>s \<in> set ss. sh_Status s = x"
proof -
  have "\<exists>ss. list_all2 (seen name) hs ss \<and> (\<forall>s \<in> set ss. sh_Status s = x)"
    using assms
  proof (induction hs)
    case (Cons c hs)
    then obtain s ss where "seen name c s" "sh_Status s = x" "list_all2 (seen name) hs ss"
      "\<forall>s \<in> set ss. sh_Status s = x" by auto
    then show ?case by (intro exI [of _ "s # ss"]) simp
  qed simp
  with that show ?thesis by blast
qed

lemma seen_take:
  "list_all2 (seen name) hs ss \<Longrightarrow> length ss = length hs"
  by (simp add: list_all2_lengthD)

section \<open>Properties of stabilisation\<close>

text \<open>
  C7. One cycle reports exactly the services \<open>alerts\<close> names: in the first run every service that is
  not OK, at once; afterwards a known service whose status differs from the one last notified and
  has lasted for the required number of cycles. The transitions are sorted by name, carry the two
  statuses, and the stored snapshot holds every evaluated service with its streak and the status
  now notified. (A new service of a known stack is reported only when one cycle is enough.)
\<close>

theorem stabilizeTransitions_spec:
  assumes "wf_gmap (stk_Services current)"
    and "stabilizeTransitions cycles prev current = (updated, transitions)"
  shows "wf_gmap updated
    \<and> (\<forall>name. mget updated name =
         map_option (stored cycles (prev_services prev) name) (mget (stk_Services current) name))
    \<and> strictly_sorted (map tr_Name transitions)
    \<and> (\<forall>name. name \<in> set (map tr_Name transitions) \<longleftrightarrow>
         (\<exists>s. mget (stk_Services current) name = Some s \<and> alerts cycles (prev_services prev) name s))
    \<and> (\<forall>t \<in> set transitions. \<exists>s. mget (stk_Services current) (tr_Name t) = Some s
         \<and> tr_CurrentStatus t = sh_Status s
         \<and> tr_PreviousStatus t = (case mget (prev_services prev) (tr_Name t) of
             None \<Rightarrow> '''' | Some p \<Rightarrow> reference_status p))"
proof -
  note eq = stabilizeTransitions_eq [OF assms(1), of cycles prev]
  have parts: "updated = fst (stabilizeTransitions cycles prev current)"
    "transitions = snd (stabilizeTransitions cycles prev current)" using assms(2) by simp_all
  have "strictly_sorted (map tr_Name transitions)"
    unfolding parts(2) eq snd_conv
    by (rule DetectServiceTransitions_facts(1)) (simp add: eligible_wf [OF assms(1)])
  then show ?thesis
    using stabilizeTransitions_names [OF assms(1), of _ cycles prev]
      stabilizeTransitions_statuses [OF assms(1), of _ cycles prev] assms(1)
    unfolding parts by (simp add: eq map_stored_mget wf_map_stored)
qed

definition demo_health :: "string \<Rightarrow> service_health" where
  "demo_health status = zero_health\<lparr>sh_Status := status\<rparr>"

definition demo_stack :: "string \<Rightarrow> stack_health" where
  "demo_stack status = \<lparr>stk_Status = status, stk_Services = [(''web'', demo_health status)]\<rparr>"

lemma stabilizeTransitions_spec_witness:
  "map tr_Name (snd (stabilizeTransitions 2 None (demo_stack StatusFailed))) = [''web'']"
proof -
  let ?r = "stabilizeTransitions 2 None (demo_stack StatusFailed)"
  have "wf_gmap (stk_Services (demo_stack StatusFailed))" by (simp add: demo_stack_def wf_gmap_def)
  from stabilizeTransitions_spec [OF this, of 2 None "fst ?r" "snd ?r"]
  have names: "\<And>name. name \<in> set (map tr_Name (snd ?r)) \<longleftrightarrow> name = ''web''"
    and sorted: "strictly_sorted (map tr_Name (snd ?r))"
    by (auto simp: demo_stack_def demo_health_def alerts_def prev_services_def StatusFailed_def StatusOK_def)
  then have "set (map tr_Name (snd ?r)) = set [''web'']" by auto
  moreover have "strictly_sorted [''web'']" by (simp add: strictly_sorted_def)
  ultimately show ?thesis using sorted by (intro strictly_sorted_unique)
qed

text \<open>
  C1. A lasting change is reported once and on time. When a known service takes a status that
  differs from its last one and from the one last notified, and keeps it, then it is reported in
  exactly one cycle: the first if \<open>alertStabilizationCycles\<close> is at most one, else the one of that
  number. So a status that goes back before is not reported, and no report is repeated.
\<close>

theorem lasting_change_reported_once:
  assumes "mget (prev_services snap) name = Some p"
    and "\<forall>c \<in> set hs. \<exists>s. seen name c s \<and> sh_Status s = x"
    and "sh_Status p \<noteq> x" "reference_status p \<noteq> x" "reference_status p \<noteq> ''''"
    and "int (length hs) < 2 ^ 63" "i < length hs"
  shows "notified name (stack_cycles cycles snap hs ! i) \<longleftrightarrow> int i + 1 = max 1 cycles"
proof -
  obtain ss where ss: "list_all2 (seen name) hs ss" "\<forall>s \<in> set ss. sh_Status s = x"
    using list_all2_status [OF assms(2)] .
  have len: "length ss = length hs" using seen_take [OF ss(1)] .
  let ?q = "known_after cycles p (take i ss)"
  have s: "sh_Status (ss ! i) = x" using ss(2) len assms(7) by simp
  have "known_alert cycles ?q (ss ! i) \<longleftrightarrow> int i + 1 = max 1 cycles"
  proof (cases "i = 0")
    case True
    with s assms(3-5) show ?thesis by (auto simp: known_alert_def streak_def)
  next
    case False
    have "\<forall>s \<in> set (take i ss). sh_Status s = x" using ss(2) by (meson in_set_takeD)
    moreover have "take i ss \<noteq> []" "length (take i ss) = i" using False len assms(7) by auto
    ultimately have q: "sh_ConsecutiveCycles ?q = int i" "sh_Status ?q = x"
      "reference_status ?q = (if cycles \<le> int i then x else reference_status p)"
      using stable_state [of "take i ss" x p cycles] assms(3-7) by simp_all
    then have "streak ?q (ss ! i) = int i + 1" using s False assms(6,7) by (simp add: streak_def)
    with q s False assms(4) show ?thesis by (auto simp: known_alert_def)
  qed
  with stack_cycles_known [OF assms(1) ss(1) assms(7)] show ?thesis by simp
qed

definition demo_snapshot :: "string \<Rightarrow> stack_snapshot" where
  "demo_snapshot status = snapshot_of ''fp'' [(''web'', demo_health status)] ''t''"

lemma lasting_change_reported_once_witness:
  "let r = stack_cycles 2 (Some (demo_snapshot StatusOK)) (replicate 3 (''fp'', ''t'', demo_stack StatusFailed))
   in \<not> notified ''web'' (r ! 0) \<and> notified ''web'' (r ! 1) \<and> \<not> notified ''web'' (r ! 2)"
proof -
  let ?hs = "replicate 3 (''fp'', ''t'', demo_stack StatusFailed)"
  let ?r = "stack_cycles 2 (Some (demo_snapshot StatusOK)) ?hs"
  have p: "mget (prev_services (Some (demo_snapshot StatusOK))) ''web'' = Some (demo_health StatusOK)"
    by (simp add: demo_snapshot_def)
  have "seen ''web'' (''fp'', ''t'', demo_stack StatusFailed) (demo_health StatusFailed)"
    "sh_Status (demo_health StatusFailed) = StatusFailed"
    by (simp_all add: seen_def demo_stack_def demo_health_def wf_gmap_def)
  then have hs: "\<forall>c \<in> set ?hs. \<exists>s. seen ''web'' c s \<and> sh_Status s = StatusFailed"
    by (auto simp: set_replicate_conv_if)
  have "notified ''web'' (?r ! i) \<longleftrightarrow> int i + 1 = 2" if "i < 3" for i
    using lasting_change_reported_once [OF p hs, of i 2] that
    by (simp add: demo_health_def reference_status_def StatusOK_def StatusFailed_def zero_health_def)
  from this [of 0] this [of 1] this [of 2] show ?thesis unfolding Let_def by simp
qed

text \<open>
  C19. No report without stability. When a service that the snapshot knows is reported in cycle \<open>i\<close>,
  then it had the same status in each of the last \<open>alertStabilizationCycles\<close> of these cycles.
\<close>

theorem reported_status_was_stable:
  assumes "mget (prev_services snap) name = Some p" "list_all2 (seen name) hs ss" "i < length hs"
    and "notified name (stack_cycles cycles snap hs ! i)"
    and "k \<le> i" "int (i - k) < cycles"
  shows "sh_Status (ss ! k) = sh_Status (ss ! i)"
proof (cases "k = i")
  case False
  let ?q = "known_after cycles p (take i ss)"
  have len: "length ss = length hs" using seen_take [OF assms(2)] .
  have t: "take (Suc i) ss = take i ss @ [ss ! i]" using len assms(3) by (simp add: take_Suc_conv_app_nth)
  from assms(4) stack_cycles_known [OF assms(1-3)] have "known_alert cycles ?q (ss ! i)" by simp
  with False assms(5,6) have "cycles \<le> streak ?q (ss ! i)" by (auto simp: known_alert_def)
  then have "int (length (take (Suc i) ss) - k) \<le> sh_ConsecutiveCycles (known_after cycles p (take (Suc i) ss))"
    using assms(3,5,6) len by (simp add: t)
  with streak_suffix [of k "take (Suc i) ss"] assms(3,5) len have
    "sh_Status (take (Suc i) ss ! k) = sh_Status (last (take (Suc i) ss))" by simp
  with t assms(3,5) len show ?thesis by (simp add: nth_append split: if_splits)
qed simp

lemma reported_status_was_stable_witness:
  "\<not> notified ''web'' (stack_cycles 2 (Some (demo_snapshot StatusOK))
      [(''fp'', ''t'', demo_stack StatusOK), (''fp'', ''t'', demo_stack StatusFailed)] ! 1)"
proof
  let ?hs = "[(''fp'', ''t'', demo_stack StatusOK), (''fp'', ''t'', demo_stack StatusFailed)]"
  let ?ss = "[demo_health StatusOK, demo_health StatusFailed]"
  assume n: "notified ''web'' (stack_cycles 2 (Some (demo_snapshot StatusOK)) ?hs ! 1)"
  have p: "mget (prev_services (Some (demo_snapshot StatusOK))) ''web'' = Some (demo_health StatusOK)"
    by (simp add: demo_snapshot_def)
  have l: "list_all2 (seen ''web'') ?hs ?ss" by (simp add: seen_def demo_stack_def wf_gmap_def)
  from reported_status_was_stable [OF p l _ n, of 0] show False
    by (simp add: demo_health_def StatusOK_def StatusFailed_def)
qed

text \<open>
  C39. A service that appears in a known stack is never reported while it keeps the status it
  appears with, whatever that status is, when more than one stable cycle is required: after its
  first cycle the status seen then counts as the one notified.
\<close>

theorem new_service_never_reported:
  assumes "prev_services snap \<noteq> []" "mget (prev_services snap) name = None" "2 \<le> cycles"
    and "\<forall>c \<in> set hs. \<exists>s. seen name c s \<and> sh_Status s = x" "i < length hs"
  shows "\<not> notified name (stack_cycles cycles snap hs ! i)"
proof -
  obtain c hs' where hs: "hs = c # hs'" using assms(5) by (cases hs) auto
  obtain fp now h where c: "c = (fp, now, h)" by (cases c)
  obtain s where s: "seen name c s" "sh_Status s = x" using assms(4) hs by auto
  then have h: "wf_gmap (stk_Services h)" "mget (stk_Services h) name = Some s"
    using c by (simp_all add: seen_def)
  let ?r = "stabilizeTransitions cycles snap h"
  let ?snap = "Some (snapshot_of fp (fst ?r) now)"
  have eq: "stack_cycles cycles snap hs = snd ?r # stack_cycles cycles ?snap hs'"
    by (simp add: hs c case_prod_beta Let_def)
  show ?thesis
  proof (cases i)
    case 0
    have "\<not> notified name (snd ?r)"
      using stabilizeTransitions_names [OF h(1), of name cycles snap] h(2) assms(1-3)
      by (simp add: notified_def alerts_def)
    with 0 eq show ?thesis by simp
  next
    case (Suc j)
    let ?p = "stored cycles (prev_services snap) name s"
    have p: "mget (prev_services ?snap) name = Some ?p"
      using h by (simp add: stabilizeTransitions_eq map_stored_mget)
    have ref: "reference_status ?p = x"
      using assms(1-3) s(2) by (simp add: stored_def reference_status_def)
    obtain ss where ss: "list_all2 (seen name) hs' ss" "\<forall>s \<in> set ss. sh_Status s = x"
      using list_all2_status [of hs' name x] assms(4) hs by auto
    have j: "j < length hs'" "length ss = length hs'" using assms(5) Suc hs seen_take [OF ss(1)] by simp_all
    have "\<forall>s \<in> set (take j ss). sh_Status s = x" using ss(2) by (meson in_set_takeD)
    from settled_state [OF this ref, of cycles] have "\<not> known_alert cycles (known_after cycles ?p (take j ss)) (ss ! j)"
      using ss(2) j by (simp add: known_alert_def)
    with stack_cycles_known [OF p ss(1) j(1), of cycles] Suc eq show ?thesis by simp
  qed
qed

lemma new_service_never_reported_witness:
  "\<not> notified ''web'' (stack_cycles 2 (Some (snapshot_of ''fp'' [(''db'', demo_health StatusOK)] ''t''))
      (replicate 100 (''fp'', ''t'', demo_stack StatusFailed)) ! 99)"
proof -
  have "seen ''web'' (''fp'', ''t'', demo_stack StatusFailed) (demo_health StatusFailed)"
    "sh_Status (demo_health StatusFailed) = StatusFailed"
    by (simp_all add: seen_def demo_stack_def demo_health_def wf_gmap_def)
  then show ?thesis
    by (intro new_service_never_reported [where x = StatusFailed])
      (auto simp: set_replicate_conv_if)
qed

section \<open>Persisting\<close>

text \<open>Only the map that a snapshot's services are matters, not the order of its entries.\<close>

lemma map_of_filter: "map_of m k = (case filter (\<lambda>e. fst e = k) m of [] \<Rightarrow> None | e # _ \<Rightarrow> Some (snd e))"
  by (induction m) auto

lemma sort_map_map_of: "map_of (sort_map m) = map_of m"
proof
  fix k
  have "filter (\<lambda>e. fst e = k) (sort_map m) = filter (\<lambda>e. fst e = k) m"
    unfolding sort_map_def by (rule sort_key_stable)
  then show "map_of (sort_map m) k = map_of m k" by (simp only: map_of_filter)
qed

lemma prev_services_norm:
  "map_of (prev_services (map_option norm_snapshot prev)) = map_of (prev_services prev)"
  "prev_services (map_option norm_snapshot prev) = [] \<longleftrightarrow> prev_services prev = []"
proof -
  have nil: "sort_map m = [] \<longleftrightarrow> m = []" for m :: "service_health gmap"
    by (metis set_empty sort_map_set)
  show "map_of (prev_services (map_option norm_snapshot prev)) = map_of (prev_services prev)"
    by (cases prev; cases "sn_Services (the prev)")
      (simp_all add: prev_services_def norm_snapshot_def sort_map_map_of)
  show "prev_services (map_option norm_snapshot prev) = [] \<longleftrightarrow> prev_services prev = []"
    by (cases prev; cases "sn_Services (the prev)")
      (simp_all add: prev_services_def norm_snapshot_def nil)
qed

lemma stabilizeTransitions_cong:
  assumes "wf_gmap (stk_Services h)" "map_of (prev_services p) = map_of (prev_services q)"
    and "prev_services p = [] \<longleftrightarrow> prev_services q = []"
  shows "stabilizeTransitions cycles p h = stabilizeTransitions cycles q h"
proof -
  have "stab cycles (prev_services p) = stab cycles (prev_services q)"
    unfolding stab_def fun_eq_iff using assms(2,3) by simp
  then have elig: "eligible_services cycles (prev_services p) = eligible_services cycles (prev_services q)"
    unfolding eligible_services_def fun_eq_iff by simp
  have "alerts cycles (prev_services p) = alerts cycles (prev_services q)"
    unfolding alerts_def fun_eq_iff using assms(2,3) by (auto split: option.splits)
  then have "stored cycles (prev_services p) = stored cycles (prev_services q)"
    unfolding stored_def fun_eq_iff using assms(2,3) by (auto split: option.splits)
  moreover have "transition_of (prev_services p) = transition_of (prev_services q)"
    unfolding transition_of_def fun_eq_iff using assms(2) by simp
  ultimately show ?thesis
    using elig by (simp add: stabilizeTransitions_eq [OF assms(1)] DetectServiceTransitions_eq)
qed

lemma stabilizeTransitions_norm:
  "wf_gmap (stk_Services h) \<Longrightarrow>
   stabilizeTransitions cycles (map_option norm_snapshot prev) h = stabilizeTransitions cycles prev h"
  by (intro stabilizeTransitions_cong prev_services_norm)

text \<open>For every store that keeps the contract.\<close>

context state_store
begin

lemma persist_spec:
  assumes "inv w" "wf_gmap (stk_Services h)"
    and valid: "\<And>prev. valid_snapshot (snapshot_of (rn_composeHash r)
          (fst (stabilizeTransitions (rn_alertStabilizationCycles r) prev h)) now)"
    and "persist r store now h w = (res, w')"
  shows "inv w' \<and>
    (case res of
       Inl e \<Rightarrow> view w' = view w
     | Inr ts \<Rightarrow> (let (upd, ts') = stabilizeTransitions (rn_alertStabilizationCycles r) (view w (stackKey r)) h
         in ts = ts' \<and> view w' = (view w)(stackKey r \<mapsto>
              norm_snapshot (snapshot_of (rn_composeHash r) upd now))))"
proof -
  obtain l w1 where l: "st_Load store w = (l, w1)" by fastforce
  show ?thesis
  proof (cases l)
    case (Inl e)
    with assms(4) l load_inv [OF assms(1) l] show ?thesis by (auto simp: persist_def)
  next
    case (Inr s)
    let ?prev = "mget (nilmap (gs_Stacks s)) (stackKey r)"
    obtain upd ts where st: "stabilizeTransitions (rn_alertStabilizationCycles r) ?prev h = (upd, ts)"
      by fastforce
    let ?sn = "snapshot_of (rn_composeHash r) upd now"
    obtain e w2 where save: "st_Save store (put_stack (stackKey r) ?sn s) w1 = (e, w2)" by fastforce
    have v: "valid_snapshot ?sn" using valid [of ?prev] st by simp
    have prev: "stabilizeTransitions (rn_alertStabilizationCycles r) (view w (stackKey r)) h = (upd, ts)"
      using load_lookup [OF assms(1) l [unfolded Inr], of "stackKey r"]
        stabilizeTransitions_norm [OF assms(2), of "rn_alertStabilizationCycles r" ?prev] st by simp
    from load_put_save [OF assms(1) l [unfolded Inr] v save] prev assms(4) l Inr st save show ?thesis
      by (cases e) (auto simp: persist_def Let_def)
  qed
qed

end

lemma streak_in_int64: "in_int64 (streak p s)"
  by (simp add: streak_def) (simp add: in_int64_def)

lemma stored_health_ok: "health_ok s \<Longrightarrow> health_ok (stored cycles prevs name s)"
  using streak_in_int64 by (auto simp: stored_def health_ok_def in_int64_def split: option.splits)

lemma stabilised_snapshot_ok:
  assumes "wf_gmap (stk_Services h)" "list_all (\<lambda>(n, s). health_ok s) (stk_Services h)" "time_ok now"
  shows "snapshot_ok time_ok (snapshot_of fp (fst (stabilizeTransitions cycles prev h)) now)"
  using assms(2,3) stored_health_ok wf_map_stored assms(1)
  by (auto simp: stabilizeTransitions_eq [OF assms(1)] snapshot_ok_def snapshot_of_def list_all_iff)

text \<open>
  C10. A cycle changes nothing but its own stack. With the file store, the critical section of
  \<open>evaluateAndPersist\<close> either fails and leaves what the file holds for every stack as it was, or
  stores for its own stack the stabilised services with the fingerprint and the time, returns the
  transitions measured against what the file held, and leaves every other stack as it was.
\<close>

theorem persist_file_store:
  assumes "file_inv time_ok path w" "wf_gmap (stk_Services h)"
    and "list_all (\<lambda>(n, s). health_ok s) (stk_Services h)" "time_ok now"
    and "persist r (NewFileStore time_ok path) now h w = (res, w')"
  shows "file_inv time_ok path w' \<and>
    (case res of
       Inl e \<Rightarrow> file_view time_ok path w' = file_view time_ok path w
     | Inr ts \<Rightarrow>
         (let (upd, ts') = stabilizeTransitions (rn_alertStabilizationCycles r)
                (file_view time_ok path w (stackKey r)) h
          in ts = ts' \<and> file_view time_ok path w' = (file_view time_ok path w)
               (stackKey r \<mapsto> norm_snapshot (snapshot_of (rn_composeHash r) upd now))))"
  using file_store.persist_spec [OF assms(1,2) _ assms(5)] stabilised_snapshot_ok [of h time_ok now, OF assms(2,3,4)] by blast

definition demo_logger :: "log_event \<Rightarrow> 'w \<Rightarrow> 'w" where
  "demo_logger e w = w"

definition demo_runner :: "'w runner" where
  "demo_runner = NewRunner demo_logger Second \<lparr>tf_New = (\<lambda>d w. w), tf_Stop = (\<lambda>w. w)\<rparr>
     \<lparr>mu_Lock = (\<lambda>w. w), mu_Unlock = (\<lambda>w. w)\<rparr> [WithStackName ''prod'']"

definition demo_world :: file_world where
  "demo_world = \<lparr>fw_fs = (\<lambda>p. None), fw_answers = (\<lambda>n. demo_os\<lparr>os_rename := None\<rparr>)\<rparr>"

lemma demo_runner_simps [simp]:
  "stackKey demo_runner = ''prod''" "rn_composeHash demo_runner = ''''"
  "rn_alertStabilizationCycles demo_runner = 1" "rn_logger demo_runner = demo_logger"
  "rn_pollInterval demo_runner = Second" "rn_stateMu demo_runner = None"
  by (simp_all add: demo_runner_def NewRunner_def WithStackName_def stackKey_def Let_def)

lemma demo_world_inv: "file_inv (\<lambda>t. True) ''/data/state.json'' demo_world"
  by (simp add: file_inv_def demo_world_def good_os_def fresh_temp_def demo_os_def)

lemma persist_file_store_witness:
  "\<exists>w' sn. file_view (\<lambda>t. True) ''/data/state.json'' w' ''prod'' = Some sn
     \<and> file_view (\<lambda>t. True) ''/data/state.json'' w' ''dev'' = None
     \<and> mget (prev_services (Some sn)) ''web'' = Some ((demo_health StatusFailed)
         \<lparr>sh_ConsecutiveCycles := 1, sh_LastNotifiedStatus := StatusFailed\<rparr>)"
proof -
  let ?N = "NewFileStore (\<lambda>t. True) ''/data/state.json''"
  let ?V = "file_view (\<lambda>t. True) ''/data/state.json''"
  let ?h = "demo_stack StatusFailed"
  obtain res w' where p: "persist demo_runner ?N ''t'' ?h demo_world = (res, w')" by fastforce
  have wf: "wf_gmap (stk_Services ?h)" by (simp add: demo_stack_def wf_gmap_def)
  have ok: "list_all (\<lambda>(n, s). health_ok s) (stk_Services ?h)"
    by (simp add: demo_stack_def demo_health_def zero_health_def health_ok_def in_int64_def)
  have empty: "?V demo_world = Map.empty"
    by (simp add: file_view_def demo_world_def Load_def ReadFile_def quiet_os_def is_not_exist_def
        not_exist_def plain_lib_def fresh_state_def lookup_def fun_eq_iff)
  have r: "\<exists>ts. res = Inr ts" using p
    by (auto simp: persist_def NewFileStore_def FileStore_Load_def FileStore_Save_def Load_def ReadFile_def
        demo_world_def demo_os_def is_not_exist_def not_exist_def plain_lib_def Save_result_def Save_def
        next_call_def fresh_state_def Let_def case_prod_beta)
  then obtain ts where "res = Inr ts" ..
  with persist_file_store [OF demo_world_inv wf ok _ p] empty
  have "?V w' = [''prod'' \<mapsto> norm_snapshot (snapshot_of '''' (fst (stabilizeTransitions 1 None ?h)) ''t'')]"
    by (simp add: case_prod_beta Let_def)
  moreover have "fst (stabilizeTransitions 1 None ?h) = [(''web'', (demo_health StatusFailed)
         \<lparr>sh_ConsecutiveCycles := 1, sh_LastNotifiedStatus := StatusFailed\<rparr>)]"
    by (subst stabilizeTransitions_eq [OF wf])
      (simp add: demo_stack_def stored_def prev_services_def StatusFailed_def StatusOK_def demo_health_def zero_health_def)
  ultimately show ?thesis
    by (intro exI [of _ w'] exI) (auto simp: norm_snapshot_def snapshot_of_def prev_services_def sort_map_def)
qed

section \<open>Refreshing the desired state\<close>

text \<open>With a fetcher that keeps its contract a refresh fails only in the fetch or in the parser.\<close>

context compose_fetcher
begin

lemma refresh_errors:
  assumes "rn_composeFetcher r = Some fetch" "refresh_desired sys r w = ((Some e, r'), w')"
  shows "\<exists>err. e = RuntimeError ''compose fetch'' err \<or> e = RuntimeError ''compose parse'' err"
proof -
  obtain x w1 where x: "fetch (rn_composeETag r) w = (x, w1)" by fastforce
  show ?thesis
  proof (cases x)
    case (Inl err)
    with x assms show ?thesis by (auto simp: refresh_desired_def wrapRuntime_def)
  next
    case (Inr result)
    with fetch_body x have "\<not> fr_NotModified result \<Longrightarrow> fr_Body result \<noteq> []" by simp
    with x Inr assms show ?thesis
      by (cases "ParseDesiredState (sy_load sys) (fr_Body result)")
        (auto simp: refresh_desired_def Fingerprint_def wrapRuntime_def Let_def split: if_splits)
  qed
qed

end

text \<open>
  What a run of the runner keeps, for the versions of a compose file: a stored fingerprint is that of
  a version, and when this version parses, the desired state is what it parses to; a stored tag is
  that of a version with the stored fingerprint.
\<close>

definition coherent :: "'w sys \<Rightarrow> (nat \<Rightarrow> string \<times> string) \<Rightarrow> 'w runner \<Rightarrow> bool" where
  "coherent sys version r \<longleftrightarrow>
     (rn_composeHash r \<noteq> '''' \<longrightarrow> (\<exists>n. Fingerprint (sy_sha256 sys) (snd (version n)) = Inr (rn_composeHash r) \<and>
        (\<forall>d. ParseDesiredState (sy_load sys) (snd (version n)) = Inr d \<longrightarrow> rn_lastDesiredState r = Some d))) \<and>
     (rn_composeETag r \<noteq> '''' \<longrightarrow> (\<exists>n. fst (version n) = rn_composeETag r \<and>
        Fingerprint (sy_sha256 sys) (snd (version n)) = Inr (rn_composeHash r)))"

text \<open>
  What HTTP and SHA-256 promise of the versions: a tag is strong, that is, versions with the same tag
  have the same body; tags are used for all versions or for none; no body is empty; and no two
  bodies have the same digest, and none an empty one.
\<close>

definition proper_versions :: "(string \<Rightarrow> string) \<Rightarrow> (nat \<Rightarrow> string \<times> string) \<Rightarrow> bool" where
  "proper_versions sha256 version \<longleftrightarrow>
     (\<forall>n m. fst (version n) \<noteq> '''' \<longrightarrow> fst (version n) = fst (version m) \<longrightarrow> snd (version n) = snd (version m)) \<and>
     ((\<forall>n. fst (version n) = '''') \<or> (\<forall>n. fst (version n) \<noteq> '''')) \<and>
     (\<forall>n. snd (version n) \<noteq> '''') \<and>
     (\<forall>n m. sha256 (snd (version n)) = sha256 (snd (version m)) \<longrightarrow> snd (version n) = snd (version m)) \<and>
     (\<forall>n. sha256 (snd (version n)) \<noteq> '''')"

lemma proper_fingerprint:
  assumes "proper_versions sha256 version"
  shows "\<exists>fp. Fingerprint sha256 (snd (version n)) = Inr fp \<and> fp \<noteq> ''''"
    and "Fingerprint sha256 (snd (version n)) = Fingerprint sha256 (snd (version m)) \<Longrightarrow>
      snd (version n) = snd (version m)"
proof -
  have "hex_encode (sha256 (snd (version n))) \<noteq> ''''"
    using assms by (cases "sha256 (snd (version n))") (auto simp: proper_versions_def hex_encode_def)
  then show "\<exists>fp. Fingerprint sha256 (snd (version n)) = Inr fp \<and> fp \<noteq> ''''"
    using assms by (simp add: proper_versions_def Fingerprint_def)
  assume "Fingerprint sha256 (snd (version n)) = Fingerprint sha256 (snd (version m))"
  then have "sha256 (snd (version n)) = sha256 (snd (version m))"
    using assms hex_encode_inject by (simp add: proper_versions_def Fingerprint_def)
  with assms show "snd (version n) = snd (version m)" unfolding proper_versions_def by blast
qed

lemma coherent_hash:
  assumes "proper_versions (sy_sha256 sys) version" "coherent sys version r"
    and "Fingerprint (sy_sha256 sys) (snd (version n)) = Inr (rn_composeHash r)"
  shows "\<forall>d. ParseDesiredState (sy_load sys) (snd (version n)) = Inr d \<longrightarrow> rn_lastDesiredState r = Some d"
proof -
  from proper_fingerprint(1) [OF assms(1), of n] assms(3) have "rn_composeHash r \<noteq> ''''" by auto
  with assms(2) obtain m where m: "Fingerprint (sy_sha256 sys) (snd (version m)) = Inr (rn_composeHash r)"
    "\<forall>d. ParseDesiredState (sy_load sys) (snd (version m)) = Inr d \<longrightarrow> rn_lastDesiredState r = Some d"
    unfolding coherent_def by blast
  with proper_fingerprint(2) [OF assms(1), of n m] assms(3) show ?thesis by simp
qed

lemma refresh_body:
  assumes "rn_composeFetcher r = Some fetch" "fetch (rn_composeETag r) w = (Inr result, w1)"
    and "\<not> fr_NotModified result" "Fingerprint (sy_sha256 sys) (fr_Body result) = Inr fp"
  shows "fst (refresh_desired sys r w) =
    (let r1 = if fr_ETag result \<noteq> '''' then r\<lparr>rn_composeETag := fr_ETag result\<rparr> else r
     in if fp = rn_composeHash r then (None, r1)
        else case ParseDesiredState (sy_load sys) (fr_Body result) of
          Inl err \<Rightarrow> (Some (wrapRuntime ''compose parse'' err), r1\<lparr>rn_composeHash := fp\<rparr>)
        | Inr d \<Rightarrow> (None, r1\<lparr>rn_composeHash := fp, rn_lastDesiredState := Some d\<rparr>))"
  using assms by (cases "fr_ETag result = ''''")
    (simp_all add: refresh_desired_def Let_def split: sum.split)

text \<open>One refresh, with any outcome.\<close>

lemma refresh_coherent:
  assumes "proper_versions (sy_sha256 sys) version" "coherent sys version r"
    and "rn_composeFetcher r = Some fetch"
    and "\<And>result w'. fetch (rn_composeETag r) w = (Inr result, w') \<Longrightarrow>
      \<exists>n \<ge> published w. tells_version (rn_composeETag r) (version n) result"
    and "refresh_desired sys r w = ((e, r'), w')"
  shows "coherent sys version r' \<and> rn_composeFetcher r' = Some fetch \<and>
    (e = None \<longrightarrow> (\<exists>n \<ge> (published w :: nat). \<forall>d. ParseDesiredState (sy_load sys) (snd (version n)) = Inr d
       \<longrightarrow> rn_lastDesiredState r' = Some d))"
proof -
  obtain x w1 where x: "fetch (rn_composeETag r) w = (x, w1)" by fastforce
  show ?thesis
  proof (cases x)
    case (Inl err)
    with x assms(2,3,5) show ?thesis by (auto simp: refresh_desired_def)
  next
    case (Inr result)
    from assms(4) x Inr obtain n where n: "n \<ge> published w"
      and tells: "tells_version (rn_composeETag r) (version n) result" by blast
    obtain fp where fp: "Fingerprint (sy_sha256 sys) (snd (version n)) = Inr fp" "fp \<noteq> ''''"
      using proper_fingerprint(1) [OF assms(1)] by blast
    show ?thesis
    proof (cases "fr_NotModified result")
      case True
      with tells have tag: "rn_composeETag r \<noteq> ''''" "fst (version n) = rn_composeETag r"
        "fr_ETag result \<in> {'''', rn_composeETag r}" by (simp_all add: tells_version_def)
      have r': "r' = r" "e = None"
        using assms(3,5) x Inr True tag(3) by (auto simp: refresh_desired_def Let_def)
      from assms(2) tag obtain m where "fst (version m) = fst (version n)"
        "Fingerprint (sy_sha256 sys) (snd (version m)) = Inr (rn_composeHash r)"
        unfolding coherent_def by auto
      moreover from this(1) tag have "snd (version m) = snd (version n)"
        using assms(1) unfolding proper_versions_def by metis
      ultimately have "Fingerprint (sy_sha256 sys) (snd (version n)) = Inr (rn_composeHash r)" by simp
      from coherent_hash [OF assms(1,2) this] n r' assms(2,3) show ?thesis by blast
    next
      case False
      with tells have res: "fr_ETag result = fst (version n)" "fr_Body result = snd (version n)"
        by (simp_all add: tells_version_def)
      let ?r1 = "if fst (version n) \<noteq> '''' then r\<lparr>rn_composeETag := fst (version n)\<rparr> else r"
      note body = refresh_body [where r = r and w = w, OF assms(3) x [unfolded Inr] False, of sys fp, unfolded res Let_def]
      have out: "(e, r') = (if fp = rn_composeHash r then (None, ?r1)
        else case ParseDesiredState (sy_load sys) (snd (version n)) of
          Inl err \<Rightarrow> (Some (wrapRuntime ''compose parse'' err), ?r1\<lparr>rn_composeHash := fp\<rparr>)
        | Inr d \<Rightarrow> (None, ?r1\<lparr>rn_composeHash := fp, rn_lastDesiredState := Some d\<rparr>))"
        using body [OF fp(1)] assms(5) by simp
      define r1 where "r1 = (if fst (version n) \<noteq> '''' then r\<lparr>rn_composeETag := fst (version n)\<rparr> else r)"
      have r1: "rn_composeHash r1 = rn_composeHash r" "rn_lastDesiredState r1 = rn_lastDesiredState r"
        "rn_composeFetcher r1 = Some fetch" using assms(3) by (simp_all add: r1_def)
      have tag: "rn_composeETag r1 \<noteq> '''' \<Longrightarrow> rn_composeETag r1 = fst (version n)"
      proof (cases "fst (version n) = ''''")
        case True
        then have "rn_composeETag r = ''''"
          using assms(1,2) unfolding proper_versions_def coherent_def by metis
        then show "rn_composeETag r1 \<noteq> '''' \<Longrightarrow> ?thesis" by (simp add: r1_def True)
      qed (simp add: r1_def)
      show ?thesis
      proof (cases "fp = rn_composeHash r")
        case True
        with out have r': "r' = r1" "e = None" by (simp_all add: r1_def)
        from True fp(1) have "Fingerprint (sy_sha256 sys) (snd (version n)) = Inr (rn_composeHash r)" by simp
        note known = coherent_hash [OF assms(1,2) this] this
        have "coherent sys version r1"
          unfolding coherent_def r1 using known tag by metis
        with known n r' r1 show ?thesis by auto
      next
        case new: False
        define r2 where "r2 = r1\<lparr>rn_composeHash := fp\<rparr>"
        have r2: "rn_composeETag r2 = rn_composeETag r1" "rn_composeHash r2 = fp"
          "rn_composeFetcher r2 = Some fetch" using r1 by (simp_all add: r2_def)
        show ?thesis
        proof (cases "ParseDesiredState (sy_load sys) (snd (version n))")
          case (Inl err)
          with out new have r': "r' = r2" "e \<noteq> None" by (simp_all add: r1_def r2_def)
          have "coherent sys version r2"
            unfolding coherent_def r2 using tag fp(1) Inl by (metis Inl_Inr_False)
          with r' r2 show ?thesis by auto
        next
          case parsed: (Inr d)
          with out new have r': "r' = r2\<lparr>rn_lastDesiredState := Some d\<rparr>" by (simp add: r1_def r2_def)
          have "coherent sys version r'"
            unfolding coherent_def r' using tag fp(1) parsed r2 by fastforce
          with n parsed r' r2 show ?thesis by auto
        qed
      qed
    qed
  qed
qed

lemma collect_and_evaluate_keeps:
  assumes "collect_and_evaluate sys r w = Some ((e, r'), w')"
  shows "rn_composeHash r' = rn_composeHash r" "rn_composeETag r' = rn_composeETag r"
    "rn_lastDesiredState r' = rn_lastDesiredState r" "rn_composeFetcher r' = rn_composeFetcher r"
  using assms by (auto simp: collect_and_evaluate_def Let_def split: option.splits sum.splits prod.splits)

text \<open>A fetcher whose results tell of versions at least as new as the start of the fetch.\<close>

definition follows_versions ::
  "(string \<Rightarrow> 'w \<Rightarrow> (goerror + fetch_result) \<times> 'w) \<Rightarrow> (nat \<Rightarrow> string \<times> string) \<Rightarrow> ('w \<Rightarrow> nat) \<Rightarrow> bool" where
  "follows_versions fetch version published \<longleftrightarrow>
     (\<forall>etag w result w'. fetch etag w = (Inr result, w') \<longrightarrow>
        (\<exists>n \<ge> published w. tells_version etag (version n) result))"

definition in_step :: "'w sys \<Rightarrow> (string \<Rightarrow> 'w \<Rightarrow> (goerror + fetch_result) \<times> 'w) \<Rightarrow>
   (nat \<Rightarrow> string \<times> string) \<Rightarrow> 'w runner \<Rightarrow> bool" where
  "in_step sys fetch version r \<longleftrightarrow> coherent sys version r \<and> rn_composeFetcher r = Some fetch"

lemma RunOnce_in_step:
  assumes "proper_versions (sy_sha256 sys) version" "follows_versions fetch version published"
    and "in_step sys fetch version r" "RunOnce sys r w = Some ((e, r'), w')"
  shows "in_step sys fetch version r'"
proof -
  have default: "in_step sys fetch version r1" if "defaultRunOnce sys r v = Some ((e1, r1), v')" for v e1 r1 v'
  proof (cases "ce_err (sy_ctx sys) v")
    case (Some err)
    with that assms(3) show ?thesis by (simp add: defaultRunOnce_def)
  next
    case None
    obtain e2 r2 v2 where r2: "refresh_desired sys r v = ((e2, r2), v2)" by (metis surj_pair)
    have step2: "in_step sys fetch version r2"
      using refresh_coherent [OF assms(1) _ _ _ r2, of fetch published] assms(2,3)
      unfolding in_step_def follows_versions_def by blast
    show ?thesis
    proof (cases e2)
      case e2: None
      with None that r2 have "collect_and_evaluate sys r2 v2 = Some ((e1, r1), v')"
        by (simp add: defaultRunOnce_def)
      from collect_and_evaluate_keeps [OF this] step2 show ?thesis
        by (simp add: in_step_def coherent_def)
    next
      case (Some err)
      with None that r2 step2 show ?thesis by (simp add: defaultRunOnce_def)
    qed
  qed
  obtain start w1 where now: "sy_now sys w = (start, w1)" by fastforce
  show ?thesis
  proof (cases "rn_runOnce r")
    case None
    with assms(4) now obtain v' where "defaultRunOnce sys r w1 = Some ((e, r'), v')"
      by (auto simp: RunOnce_def split: option.splits)
    then show ?thesis by (rule default)
  next
    case (Some once)
    with assms(4) now have "r' = r" by (auto simp: RunOnce_def split: option.splits)
    with assms(3) show ?thesis by simp
  qed
qed

lemma logged_RunOnce_in_step:
  assumes "proper_versions (sy_sha256 sys) version" "follows_versions fetch version published"
    and "in_step sys fetch version r" "logged_RunOnce sys msg r w = Some (r', w')"
  shows "in_step sys fetch version r'"
proof -
  from assms(4) obtain e v where "RunOnce sys r w = Some ((e, r'), v)"
    by (auto simp: logged_RunOnce_def split: option.splits)
  from RunOnce_in_step [OF assms(1-3) this] show ?thesis .
qed

lemma run_loop_in_step:
  assumes "proper_versions (sy_sha256 sys) version" "follows_versions fetch version published"
    and "run_loop sys events r w = Waiting (r', w')" "in_step sys fetch version r"
  shows "in_step sys fetch version r'"
  using assms(1,3,4)
proof (induction sys events r w rule: run_loop.induct)
  case (3 sys events r w)
  then obtain r1 w1 where step: "logged_RunOnce sys ''run cycle failed'' r w = Some (r1, w1)"
    and loop: "run_loop sys events r1 w1 = Waiting (r', w')"
    by (auto split: option.splits)
  from logged_RunOnce_in_step [OF "3.prems"(1) assms(2) "3.prems"(3) step]
  show ?case using "3.IH" [OF step refl "3.prems"(1) loop] by blast
qed simp_all

lemma Run_in_step:
  assumes "proper_versions (sy_sha256 sys) version" "follows_versions fetch version published"
    and "Run sys events r w = Waiting (r', w')"
    and "rn_composeFetcher r = Some fetch" "rn_composeHash r = ''''" "rn_composeETag r = ''''"
  shows "in_step sys fetch version r'"
proof -
  have r: "in_step sys fetch version r" using assms(4-6) by (simp add: in_step_def coherent_def)
  from assms(3) obtain r1 w1 where "logged_RunOnce sys ''initial run cycle failed'' r w = Some (r1, w1)"
    and loop: "run_loop sys events r1 (tf_New (rn_tickerFactory r1) (rn_pollInterval r1) w1) = Waiting (r', w')"
    by (auto simp: Run_def split: if_splits option.splits)
  from run_loop_in_step [OF assms(1,2) loop] logged_RunOnce_in_step [OF assms(1,2) r this(1)] show ?thesis by simp
qed

definition demo_sys :: "nat sys" where
  "demo_sys = \<lparr>sy_ctx = demo_ctx, sy_now = (\<lambda>w. (1, w)), sy_rfc3339 = (\<lambda>t. ''t''),
     sy_load = (\<lambda>b. if b = ''abc'' then Inl (PlainErr ''yaml: broken'')
       else Inr \<lparr>cp_Services = [], cp_Configs = [], cp_Secrets = []\<rparr>),
     sy_sha256 = (\<lambda>b. b)\<rparr>"

definition fetching_runner :: "nat runner" where
  "fetching_runner = NewRunner demo_logger Second \<lparr>tf_New = (\<lambda>d w. w), tf_Stop = (\<lambda>w. w)\<rparr>
     \<lparr>mu_Lock = (\<lambda>w. w), mu_Unlock = (\<lambda>w. w)\<rparr>
     [WithComposeFetcher (Some (Fetch demo_ctx demo_api demo_fetcher))]"

lemma fetching_runner_simps [simp]:
  "rn_composeFetcher fetching_runner = Some (Fetch demo_ctx demo_api demo_fetcher)"
  "rn_composeHash fetching_runner = ''''" "rn_composeETag fetching_runner = ''''"
  "rn_logger fetching_runner = demo_logger" "rn_lastDesiredState fetching_runner = None"
  by (simp_all add: fetching_runner_def NewRunner_def WithComposeFetcher_def Let_def)

text \<open>A server with a second version from its third answer on.\<close>

definition pub_version :: "nat \<Rightarrow> string \<times> string" where
  "pub_version n = (if n = 0 then (''v0'', ''abc'') else (''v1'', ''def''))"

definition pub_published :: "nat \<Rightarrow> nat" where
  "pub_published w = (if w < 2 then 0 else 1)"

definition pub_api :: "nat http_api" where
  "pub_api = \<lparr>ha_NewRequest = (\<lambda>u. None),
     ha_Do = (\<lambda>req w. let version = pub_version (pub_published w);
         known = ((''If-None-Match'', fst version) \<in> set (rq_Header req))
       in (Inr \<lparr>rs_StatusCode = (if known then 304 else 200), rs_Status = ''s'', rs_Header = (\<lambda>h. fst version),
            rs_Body = (if known then '''' else snd version), rs_BodyError = None\<rparr>, Suc w)),
     ha_CloseBody = (\<lambda>w. w)\<rparr>"

definition pub_sys :: "nat sys" where
  "pub_sys = demo_sys\<lparr>sy_load := (\<lambda>body. Inr \<lparr>cp_Services =
     [(''web'', \<lparr>cps_Image = body, cps_Deploy = None, cps_Scale = Some 1, cps_Configs = [], cps_Secrets = []\<rparr>)],
     cp_Configs = [], cp_Secrets = []\<rparr>)\<rparr>"

definition pub_runner :: "nat runner" where
  "pub_runner = fetching_runner\<lparr>rn_composeFetcher := Some (Fetch demo_ctx pub_api demo_fetcher)\<rparr>"

definition pub_state :: "string \<Rightarrow> desired_state" where
  "pub_state body = \<lparr>dst_Services = [(''web'', \<lparr>ds_Image = body, ds_Mode = ''replicated'', ds_Replicas = 1,
     ds_Configs = [], ds_Secrets = []\<rparr>)]\<rparr>"

lemma pub_honest: "honest_server demo_ctx pub_api (hf_url demo_fetcher) pub_version pub_published"
  unfolding honest_server_def
proof (intro conjI allI impI)
  fix req :: http_request and w w' resp
  assume "ha_Do pub_api req w = (Inr resp, w')"
  then show "\<exists>n \<ge> pub_published w. answers_version req (pub_version n) resp"
    by (intro exI [of _ "pub_published w"]) (auto simp: pub_api_def answers_version_def Let_def split: if_splits)
qed (auto simp: demo_ctx_def pub_api_def pub_published_def Let_def)

lemma pub_proper: "proper_versions (sy_sha256 pub_sys) pub_version"
  by (auto simp: proper_versions_def pub_version_def pub_sys_def demo_sys_def)

lemma pub_fetch: "Fetch demo_ctx pub_api demo_fetcher '''' 0 =
    (Inr \<lparr>fr_Body = ''abc'', fr_ETag = ''v0'', fr_LastModified = ''v0'', fr_NotModified = False\<rparr>, 1)"
  "Fetch demo_ctx pub_api demo_fetcher ''v0'' 5 =
    (Inr \<lparr>fr_Body = ''def'', fr_ETag = ''v1'', fr_LastModified = ''v1'', fr_NotModified = False\<rparr>, 6)"
  by (simp_all add: Fetch_def demo_ctx_def pub_api_def demo_fetcher_def doFetch_def fetch_response_def
      readWithLimit_def read_all_limited_def Let_def numeral_eq_Suc pub_version_def pub_published_def)

lemma pub_parse: "body \<noteq> '''' \<Longrightarrow> ParseDesiredState (sy_load pub_sys) body = Inr (pub_state body)"
  by (simp add: ParseDesiredState_def pub_sys_def pub_state_def parse_service_ok service_ok_def desired_of_def
      resolved_names_def service_deploy_mode_def service_replicas_def defaultDeployMode_def globalDeployMode_def)

lemma pub_runner_simps [simp]:
  "rn_composeFetcher pub_runner = Some (Fetch demo_ctx pub_api demo_fetcher)"
  "rn_composeHash pub_runner = ''''" "rn_composeETag pub_runner = ''''" "rn_logger pub_runner = demo_logger"
  "rn_runOnce pub_runner = None" "rn_swarmClient pub_runner = None" "rn_cycleTracker pub_runner = None"
  "rn_metrics pub_runner = None" "rn_pollInterval pub_runner = Second"
  by (simp_all add: pub_runner_def fetching_runner_def NewRunner_def WithComposeFetcher_def Let_def)

lemma pub_refresh:
  assumes "rn_composeFetcher r = Some (Fetch demo_ctx pub_api demo_fetcher)" "rn_composeETag r = tag"
    and "Fetch demo_ctx pub_api demo_fetcher tag w = (Inr \<lparr>fr_Body = body, fr_ETag = tag',
      fr_LastModified = tag', fr_NotModified = False\<rparr>, w1)"
    and "body \<noteq> ''''" "hex_encode body \<noteq> rn_composeHash r" "tag' \<noteq> ''''"
  shows "\<exists>w'. refresh_desired pub_sys r w = ((None, r\<lparr>rn_composeETag := tag', rn_composeHash := hex_encode body,
    rn_lastDesiredState := Some (pub_state body)\<rparr>), w')"
proof -
  have sha: "sy_sha256 pub_sys = (\<lambda>b. b)" by (simp add: pub_sys_def demo_sys_def)
  from refresh_body [where sys = pub_sys, OF assms(1), unfolded assms(2), OF assms(3), of "hex_encode body"] assms(4-6)
  have "fst (refresh_desired pub_sys r w) = (None, r\<lparr>rn_composeETag := tag', rn_composeHash := hex_encode body,
    rn_lastDesiredState := Some (pub_state body)\<rparr>)"
    by (simp add: Fingerprint_def sha pub_parse)
  then show ?thesis by (metis prod.collapse)
qed

lemma pub_hex: "hex_encode ''abc'' \<noteq> ''''" "hex_encode ''def'' \<noteq> hex_encode ''abc''"
  using hex_encode_inject [of "''def''" "''abc''"] by (auto simp: hex_encode_def)

text \<open>
  C32. The desired state is current. A runner fetches over HTTP from an honest server, which may
  publish new versions at any time (with strong tags for all of them or for none, no empty body,
  and no collision of digests); it has started with \<open>Run\<close> and has done any number of cycles,
  each of which may have failed anywhere (the fetch, the parser, Docker, the state file). When the
  refresh of its next cycle succeeds, there is a version, not older than the newest one at the start
  of that refresh, such that if it parses, its parse is the desired state of the runner. So neither
  the stored tag nor the stored fingerprint ever makes the runner skip a version that it does not
  have already. (When that version does not parse, see the property on broken compose files.)
\<close>

theorem desired_state_current:
  assumes "honest_server ctx api (hf_url f) version published" "hf_maxBytes f < 2 ^ 63"
    and "proper_versions (sy_sha256 sys) version"
    and "rn_composeFetcher r0 = Some (Fetch ctx api f)" "rn_composeHash r0 = ''''" "rn_composeETag r0 = ''''"
    and "Run sys events r0 w0 = Waiting (r, w1)"
    and "refresh_desired sys r w = ((None, r'), w')"
  shows "\<exists>n \<ge> published w. \<forall>d. ParseDesiredState (sy_load sys) (snd (version n)) = Inr d \<longrightarrow>
    rn_lastDesiredState r' = Some d"
proof -
  have follows: "follows_versions (Fetch ctx api f) version published"
    unfolding follows_versions_def using Fetch_version [OF assms(1,2)] by blast
  from Run_in_step [OF assms(3) follows assms(7) assms(4-6)] have r: "coherent sys version r"
    "rn_composeFetcher r = Some (Fetch ctx api f)" by (simp_all add: in_step_def)
  from refresh_coherent [OF assms(3) r _ assms(8), of published] follows
  show ?thesis unfolding follows_versions_def by blast
qed

lemma desired_state_current_witness:
  "\<exists>r w1 r' w'. Run pub_sys [] pub_runner 0 = Waiting (r, w1) \<and>
     refresh_desired pub_sys r 5 = ((None, r'), w') \<and> rn_lastDesiredState r' = Some (pub_state ''def'')"
proof -
  let ?r = "pub_runner\<lparr>rn_composeETag := ''v0'', rn_composeHash := hex_encode ''abc'',
    rn_lastDesiredState := Some (pub_state ''abc'')\<rparr>"
  have alive: "ce_err (sy_ctx pub_sys) w = None" "sy_now pub_sys w = (1, w)" for w
    by (simp_all add: pub_sys_def demo_sys_def demo_ctx_def)
  obtain v where v: "refresh_desired pub_sys pub_runner 0 = ((None, ?r), v)"
    using pub_refresh [of pub_runner "''''" 0 "''abc''" "''v0''" 1] pub_fetch(1) pub_hex by auto
  then obtain w1 where run: "Run pub_sys [] pub_runner 0 = Waiting (?r, w1)"
    by (simp add: Run_def logged_RunOnce_def RunOnce_def defaultRunOnce_def collect_and_evaluate_def
        record_cycle_def alive Second_def)
  obtain r' w' where again: "refresh_desired pub_sys ?r 5 = ((None, r'), w')"
    using pub_refresh [of ?r "''v0''" 5 "''def''" "''v1''" 6] pub_fetch(2) pub_hex by auto
  have limit: "hf_maxBytes demo_fetcher < 2 ^ 63" by (simp add: demo_fetcher_def)
  from desired_state_current [OF pub_honest limit pub_proper _ _ _ run again] obtain n where
    n: "n \<ge> pub_published 5" and d: "\<And>d. ParseDesiredState (sy_load pub_sys) (snd (pub_version n)) = Inr d \<Longrightarrow>
      rn_lastDesiredState r' = Some d" by auto
  from n have "snd (pub_version n) = ''def''" by (simp add: pub_published_def pub_version_def)
  with d pub_parse [of "''def''"] have "rn_lastDesiredState r' = Some (pub_state ''def'')" by simp
  with run again show ?thesis by blast
qed

text \<open>
  Why tags have to be used for all versions or for none: a body that comes without a tag leaves the
  tag of an older body stored. When the server goes back to that older version, it answers \<open>304\<close> to
  the stored tag, and the runner keeps the desired state of the version in between.
\<close>

lemma untagged_body_keeps_old_tag:
  assumes "rn_composeFetcher r = Some fetch" "fetch (rn_composeETag r) w = (Inr result, w1)"
    and "\<not> fr_NotModified result" "fr_ETag result = ''''"
    and "Fingerprint (sy_sha256 sys) (fr_Body result) = Inr fp" "fp \<noteq> rn_composeHash r"
    and "ParseDesiredState (sy_load sys) (fr_Body result) = Inr d"
    and "fetch (rn_composeETag r) v = (Inr again, v1)" "fr_NotModified again" "fr_ETag again \<in> {'''', rn_composeETag r}"
  shows "\<exists>r1 w' r2 v'. refresh_desired sys r w = ((None, r1), w') \<and>
    refresh_desired sys r1 v = ((None, r2), v') \<and> rn_lastDesiredState r2 = Some d"
proof -
  let ?r1 = "r\<lparr>rn_composeHash := fp, rn_lastDesiredState := Some d\<rparr>"
  have "fst (refresh_desired sys r w) = (None, ?r1)"
    using refresh_body [OF assms(1-3,5)] assms(4,6,7) by simp
  then obtain w' where first: "refresh_desired sys r w = ((None, ?r1), w')" by (metis prod.collapse)
  have "refresh_desired sys ?r1 v = ((None, ?r1), v1)"
    using assms(1,8-10) by (auto simp: refresh_desired_def Let_def)
  with first show ?thesis by (intro exI conjI) auto
qed

text \<open>
  C40. A broken compose file is reported once and then ignored. When a cycle fetches a new body that
  does not parse, that cycle fails, but it has stored the body's fingerprint: if the next fetch
  brings the same body (or \<open>304\<close>), the refresh succeeds and the runner goes on with the desired
  state it had before, under the fingerprint of the broken file.
\<close>

theorem broken_compose_ignored_next_cycle:
  assumes "rn_composeFetcher r = Some fetch" "fetch (rn_composeETag r) w = (Inr result, w1)"
    and "\<not> fr_NotModified result" "Fingerprint (sy_sha256 sys) (fr_Body result) = Inr fp"
    and "fp \<noteq> rn_composeHash r" "ParseDesiredState (sy_load sys) (fr_Body result) = Inl err"
    and "\<And>etag v. \<exists>again v'. fetch etag v = (Inr again, v') \<and>
      (fr_NotModified again \<or> fr_Body again = fr_Body result)"
  shows "\<exists>r1 w1 r2 w2. refresh_desired sys r w = ((Some (RuntimeError ''compose parse'' err), r1), w1)
    \<and> refresh_desired sys r1 w1 = ((None, r2), w2)
    \<and> rn_lastDesiredState r2 = rn_lastDesiredState r \<and> rn_composeHash r2 = fp"
proof -
  define r1 where "r1 = (if fr_ETag result \<noteq> '''' then r\<lparr>rn_composeETag := fr_ETag result\<rparr> else r)
    \<lparr>rn_composeHash := fp\<rparr>"
  obtain v where first: "refresh_desired sys r w = ((Some (RuntimeError ''compose parse'' err), r1), v)"
    using assms(1-6) by (cases "fr_ETag result = ''''") (simp_all add: refresh_desired_def wrapRuntime_def r1_def Let_def)
  have r1: "rn_composeFetcher r1 = Some fetch" "rn_composeHash r1 = fp"
    "rn_lastDesiredState r1 = rn_lastDesiredState r"
    using assms(1) by (simp_all add: r1_def)
  obtain again v' where again: "fetch (rn_composeETag r1) v = (Inr again, v')"
    "fr_NotModified again \<or> fr_Body again = fr_Body result" using assms(7) by blast
  define r2 where "r2 = (if fr_ETag again \<noteq> '''' then r1\<lparr>rn_composeETag := fr_ETag again\<rparr> else r1)"
  have "refresh_desired sys r1 v = ((None, r2), v')"
    using again r1 assms(4) by (auto simp: refresh_desired_def r2_def Let_def)
  moreover have "rn_lastDesiredState r2 = rn_lastDesiredState r" "rn_composeHash r2 = fp"
    using r1 by (simp_all add: r2_def)
  ultimately show ?thesis using first by blast
qed

definition stubborn_fetch :: "string \<Rightarrow> nat \<Rightarrow> (goerror + fetch_result) \<times> nat" where
  "stubborn_fetch etag w =
     (Inr \<lparr>fr_Body = ''abc'', fr_ETag = '''', fr_LastModified = '''', fr_NotModified = False\<rparr>, w)"

lemma broken_compose_ignored_next_cycle_witness:
  "\<exists>r1 w1 r2 w2. refresh_desired demo_sys (fetching_runner\<lparr>rn_composeFetcher := Some stubborn_fetch\<rparr>) 0
      = ((Some (RuntimeError ''compose parse'' (WrapErr ''load compose: '' (PlainErr ''yaml: broken''))), r1), w1)
    \<and> refresh_desired demo_sys r1 w1 = ((None, r2), w2) \<and> rn_lastDesiredState r2 = None"
  using broken_compose_ignored_next_cycle [where r = "fetching_runner\<lparr>rn_composeFetcher := Some stubborn_fetch\<rparr>"
      and fetch = stubborn_fetch and w = 0 and sys = demo_sys and fp = "hex_encode ''abc''"
      and err = "WrapErr ''load compose: '' (PlainErr ''yaml: broken'')"
      and result = "\<lparr>fr_Body = ''abc'', fr_ETag = '''', fr_LastModified = '''', fr_NotModified = False\<rparr>"]
  by (auto simp: stubborn_fetch_def demo_sys_def Fingerprint_def hex_encode_def ParseDesiredState_def)

section \<open>Cycles that return\<close>

text \<open>A runner whose notifier returns, and whose cycle is not replaced by one that does not, does too.\<close>

definition live :: "'w runner \<Rightarrow> bool" where
  "live r \<longleftrightarrow> (case rn_notifier r of None \<Rightarrow> True | Some notify \<Rightarrow> returns notify)
     \<and> (case rn_runOnce r of None \<Rightarrow> True | Some f \<Rightarrow> (\<forall>w. f w \<noteq> None))"

lemma live_upd [simp]:
  "live (r\<lparr>rn_composeETag := a\<rparr>) = live r" "live (r\<lparr>rn_composeHash := b\<rparr>) = live r"
  "live (r\<lparr>rn_lastDesiredState := c\<rparr>) = live r" "live (r\<lparr>rn_lastActualState := d\<rparr>) = live r"
  by (simp_all add: live_def)

lemma live_notify: "live r \<Longrightarrow> rn_notifier r = Some notify \<Longrightarrow> \<exists>e w'. notify s ts w = Some (e, w')"
  by (simp add: live_def returns_def not_None_eq split: option.splits)

lemma notify_transitions_returns:
  assumes "live r"
  shows "\<exists>w'. notify_transitions r ts w = Some w'"
proof (cases "rn_notifier r")
  case (Some notify)
  with live_notify [OF assms Some, of "stackKey r" ts w] show ?thesis
    by (auto simp: notify_transitions_def split: option.split)
qed (simp add: notify_transitions_def)

lemma evaluateAndPersist_returns:
  assumes "live r"
  shows "\<exists>e w'. evaluateAndPersist sys r store d w = Some (e, w')"
proof -
  obtain now w2 where now: "sy_now sys (log_updates r w) = (now, w2)" by fastforce
  let ?h = "EvaluateStackHealth d (rn_lastActualState r) (rn_stackName r \<noteq> '''')"
  obtain res w3 where p: "withStateLock r (persist r store (sy_rfc3339 sys now) ?h) w2 = (res, w3)" by fastforce
  show ?thesis
  proof (cases res)
    case (Inr ts)
    from notify_transitions_returns [OF assms] Inr now p show ?thesis
      by (auto simp: evaluateAndPersist_def Let_def)
  qed (use now p in \<open>simp add: evaluateAndPersist_def Let_def\<close>)
qed

text \<open>A cycle that returns, with a runner that is live again.\<close>

definition live_step :: "((goerror option \<times> 'w runner) \<times> 'w) option \<Rightarrow> bool" where
  "live_step x = (case x of None \<Rightarrow> False | Some ((e, r), w) \<Rightarrow> live r)"

lemma live_step_Some [simp]: "live_step (Some x) = live (snd (fst x))"
  by (simp add: live_step_def case_prod_beta)

lemma collect_and_evaluate_live:
  assumes "live r"
  shows "live_step (collect_and_evaluate sys r w)"
proof -
  have ev: "live_step (map_option (\<lambda>(e, w3). ((map_option (wrapRuntime s) e, r\<lparr>rn_lastActualState := a\<rparr>), w3))
      (evaluateAndPersist sys (r\<lparr>rn_lastActualState := a\<rparr>) store d w1))" for s a store d w1
    using evaluateAndPersist_returns [of "r\<lparr>rn_lastActualState := a\<rparr>" sys store d w1] assms by auto
  then show ?thesis using assms
    by (simp add: collect_and_evaluate_def Let_def split: option.split prod.split sum.split)
qed

lemma refresh_desired_live: "live r \<Longrightarrow> live (snd (fst (refresh_desired sys r w)))"
  by (simp add: refresh_desired_def Let_def split: option.split prod.split sum.split)

lemma RunOnce_live:
  assumes "live r"
  shows "live_step (RunOnce sys r w)"
proof -
  have d: "live_step (defaultRunOnce sys r v)" for v
  proof -
    obtain e r1 v1 where r1: "refresh_desired sys r v = ((e, r1), v1)" by (metis surj_pair)
    with refresh_desired_live [OF assms, of sys v] have "live r1" by simp
    with r1 collect_and_evaluate_live [of r1 sys v1] assms show ?thesis
      by (simp add: defaultRunOnce_def split: option.split)
  qed
  obtain start w1 where start: "sy_now sys w = (start, w1)" by fastforce
  show ?thesis
  proof (cases "rn_runOnce r")
    case None
    with d [of w1] start show ?thesis
      by (auto simp: RunOnce_def live_step_def split: option.splits)
  next
    case (Some f)
    with assms have "f w1 \<noteq> None" by (simp add: live_def)
    with Some start assms show ?thesis
      by (auto simp: RunOnce_def split: option.split)
  qed
qed

lemma logged_RunOnce_live:
  assumes "live r"
  shows "\<exists>r1 w1. logged_RunOnce sys msg r w = Some (r1, w1) \<and> live r1"
  using RunOnce_live [OF assms, of sys w] by (auto simp: logged_RunOnce_def live_step_def split: option.splits)

section \<open>What the cycles of a run did\<close>

text \<open>
  An observation of the world: the outcomes of the cycles so far, the log, and how many cycles the
  tracker has recorded. \<open>observable\<close>: the runner's cycle may end in any way, with an error or
  without; it, the logger and the tracker change their own component, and the clock and the ticker
  none.
\<close>

type_synonym run_history = "goerror option list \<times> log_event list \<times> nat"

definition observable :: "'w sys \<Rightarrow> 'w runner \<Rightarrow> ('w \<Rightarrow> run_history) \<Rightarrow> bool" where
  "observable sys r obs \<longleftrightarrow>
     (\<forall>w. obs (snd (sy_now sys w)) = obs w) \<and>
     (\<forall>d w. obs (tf_New (rn_tickerFactory r) d w) = obs w \<and> obs (tf_Stop (rn_tickerFactory r) w) = obs w) \<and>
     (\<exists>once. rn_runOnce r = Some once \<and>
        (\<forall>w. \<exists>e w'. once w = Some (e, w') \<and> obs w' = (fst (obs w) @ [e], snd (obs w)))) \<and>
     (\<forall>ev w. obs (rn_logger r ev w) = (fst (obs w), fst (snd (obs w)) @ [ev], snd (snd (obs w)))) \<and>
     (\<exists>track. rn_cycleTracker r = Some track \<and>
        (\<forall>d n w. obs (track d n w) = (fst (obs w), fst (snd (obs w)), Suc (snd (snd (obs w)))))) \<and>
     rn_metrics r = None"

definition failures :: "string \<Rightarrow> goerror option list \<Rightarrow> log_event list" where
  "failures msg es = map (cycle_error_event msg) (List.map_filter id es)"

definition successes :: "goerror option list \<Rightarrow> nat" where
  "successes es = length (filter (\<lambda>e. e = None) es)"

lemma failures_simps [simp]: "failures msg [] = []" "failures msg (None # es) = failures msg es"
  "failures msg (Some e # es) = cycle_error_event msg e # failures msg es"
  by (simp_all add: failures_def List.map_filter_def)

lemma successes_simps [simp]: "successes [] = 0" "successes (None # es) = Suc (successes es)"
  "successes (Some e # es) = successes es"
  by (simp_all add: successes_def)

lemma logged_RunOnce_observed:
  assumes "observable sys r obs"
  shows "\<exists>e w'. logged_RunOnce sys msg r w = Some (r, w') \<and>
    obs w' = (fst (obs w) @ [e], fst (snd (obs w)) @ failures msg [e], snd (snd (obs w)) + successes [e])"
proof -
  obtain start w1 where now: "sy_now sys w = (start, w1)" by fastforce
  with assms have o1: "obs w1 = obs w" unfolding observable_def by (metis snd_conv)
  obtain once e w2 where once: "rn_runOnce r = Some once" "once w1 = Some (e, w2)"
    "obs w2 = (fst (obs w1) @ [e], snd (obs w1))"
    using assms unfolding observable_def by metis
  show ?thesis
  proof (cases e)
    case None
    obtain t w3 where t: "sy_now sys w2 = (t, w3)" by fastforce
    with assms have o3: "obs w3 = obs w2" unfolding observable_def by (metis snd_conv)
    obtain track where track: "rn_cycleTracker r = Some track" "rn_metrics r = None"
      "\<And>d n v. obs (track d n v) = (fst (obs v), fst (snd (obs v)), Suc (snd (snd (obs v))))"
      using assms unfolding observable_def by blast
    show ?thesis
      by (rule exI [of _ None])
        (simp add: logged_RunOnce_def RunOnce_def now once None record_cycle_def t track o3 o1 Let_def)
  next
    case (Some err)
    have "obs (rn_logger r ev v) = (fst (obs v), fst (snd (obs v)) @ [ev], snd (snd (obs v)))" for ev v
      using assms unfolding observable_def by blast
    with now once Some o1 show ?thesis
      by (intro exI [of _ "Some err"]) (simp add: logged_RunOnce_def RunOnce_def)
  qed
qed

lemma run_loop_observed:
  assumes "observable sys r obs"
  shows "\<exists>es w'. run_loop sys (replicate n Tick @ CtxDone # events) r w = Returned None (r, w') \<and>
    length es = n \<and>
    obs w' = (fst (obs w) @ es,
      fst (snd (obs w)) @ failures ''run cycle failed'' es @ [log_event_of LInfo ''runner stopped'' []],
      snd (snd (obs w)) + successes es)"
proof (induction n arbitrary: w)
  case 0
  from assms show ?case by (simp add: observable_def)
next
  case (Suc n)
  obtain e w1 where w1: "logged_RunOnce sys ''run cycle failed'' r w = Some (r, w1)"
    "obs w1 = (fst (obs w) @ [e], fst (snd (obs w)) @ failures ''run cycle failed'' [e],
       snd (snd (obs w)) + successes [e])"
    using logged_RunOnce_observed [OF assms] by blast
  from Suc.IH [of w1] obtain es w' where
    "run_loop sys (replicate n Tick @ CtxDone # events) r w1 = Returned None (r, w')" "length es = n"
    "obs w' = (fst (obs w1) @ es,
      fst (snd (obs w1)) @ failures ''run cycle failed'' es @ [log_event_of LInfo ''runner stopped'' []],
      snd (snd (obs w1)) + successes es)" by blast
  with w1 show ?case by (intro exI [of _ "e # es"]) (cases e; simp)
qed


text \<open>A world that is its own history, and cycles of which every other one fails.\<close>

definition flaky_once :: "run_history \<Rightarrow> (goerror option \<times> run_history) option" where
  "flaky_once w =
     (let e = (if even (length (fst w)) then Some (PlainErr ''down'') else None)
      in Some (e, (fst w @ [e], snd w)))"

definition flaky_runner :: "run_history runner" where
  "flaky_runner = NewRunner (\<lambda>ev (h, l, k). (h, l @ [ev], k)) Second \<lparr>tf_New = (\<lambda>d w. w), tf_Stop = (\<lambda>w. w)\<rparr>
     \<lparr>mu_Lock = (\<lambda>w. w), mu_Unlock = (\<lambda>w. w)\<rparr>
     [WithRunOnce flaky_once, WithCycleTracker (Some (\<lambda>d n (h, l, k). (h, l, Suc k)))]"

definition flaky_sys :: "run_history sys" where
  "flaky_sys = \<lparr>sy_ctx = \<lparr>ce_err = (\<lambda>w. None), ce_wait = (\<lambda>d w. (None, w)),
       ce_with_timeout = (\<lambda>d w. w), ce_cancel = (\<lambda>w. w)\<rparr>,
     sy_now = (\<lambda>w. (1, w)), sy_rfc3339 = (\<lambda>t. ''t''),
     sy_load = (\<lambda>b. Inl (PlainErr ''no compose'')), sy_sha256 = (\<lambda>b. b)\<rparr>"

lemma flaky_observable: "observable flaky_sys flaky_runner (\<lambda>w. w)"
  by (simp add: observable_def flaky_sys_def flaky_runner_def NewRunner_def WithRunOnce_def WithCycleTracker_def
      flaky_once_def Let_def case_prod_beta)


section \<open>Metrics\<close>

definition metrics_ops :: "metrics option metrics_ops" where
  "metrics_ops = \<lparr>mo_IncDockerAPIErrors = IncDockerAPIErrors, mo_SetServicesTotal = SetServicesTotal,
     mo_IncAlertsTotal = IncAlertsTotal, mo_ObserveCycleDuration = ObserveCycleDuration,
     mo_SetLastSuccessfulCycleTimestamp = SetLastSuccessfulCycleTimestamp\<rparr>"

lemma fold_IncAlerts:
  "\<exists>m'. fold (\<lambda>c. IncAlertsTotal stack (g c)) ts (Some m) = Some m'
     \<and> mt_servicesTotal m' = mt_servicesTotal m
     \<and> mt_cycleDuration m' = mt_cycleDuration m
     \<and> (\<forall>l. counter_value (mt_alertsTotal m') l = counter_value (mt_alertsTotal m) l
          + (if fst l = stack then length (filter (\<lambda>c. g c = snd l) ts) else 0))"
proof (induction ts arbitrary: m)
  case (Cons c ts)
  let ?m1 = "m\<lparr>mt_alertsTotal := (mt_alertsTotal m)((stack, g c) \<mapsto>
     counter_value (mt_alertsTotal m) (stack, g c) + 1)\<rparr>"
  from Cons.IH [of ?m1] obtain m' where
    "fold (\<lambda>c. IncAlertsTotal stack (g c)) ts (Some ?m1) = Some m'"
    "mt_servicesTotal m' = mt_servicesTotal ?m1" "mt_cycleDuration m' = mt_cycleDuration ?m1"
    "\<And>l. counter_value (mt_alertsTotal m') l = counter_value (mt_alertsTotal ?m1) l
       + (if fst l = stack then length (filter (\<lambda>c. g c = snd l) ts) else 0)" by blast
  then show ?case by (intro exI [of _ m']) (auto simp: IncAlertsTotal_def)
qed simp

text \<open>
  The metrics say what happened. After \<open>recordMetrics\<close> the three gauges of the stack hold the
  numbers of its services with each status, every alert counter of the stack has grown by the
  number of transitions of its severity, and nothing of another stack has changed.
\<close>

theorem recordMetrics_counts:
  assumes "rn_metrics r = Some metrics_ops" "length (stk_Services h) < 2 ^ 63"
  shows "\<exists>m'. recordMetrics r h ts (Some m) = Some m'
    \<and> mt_servicesTotal m' (stackKey r, ''ok'')
        = Some (int (length (filter (\<lambda>(_, s). sh_Status s = StatusOK) (stk_Services h))))
    \<and> mt_servicesTotal m' (stackKey r, ''degraded'')
        = Some (int (length (filter (\<lambda>(_, s). sh_Status s = StatusDegraded) (stk_Services h))))
    \<and> mt_servicesTotal m' (stackKey r, ''failed'')
        = Some (int (length (filter (\<lambda>(_, s). sh_Status s = StatusFailed) (stk_Services h))))
    \<and> (\<forall>sev. counter_value (mt_alertsTotal m') (stackKey r, sev) =
         counter_value (mt_alertsTotal m) (stackKey r, sev)
         + length (filter (\<lambda>t. transition_severity t = sev) ts))
    \<and> (\<forall>stack l. stack \<noteq> stackKey r \<longrightarrow> mt_servicesTotal m' (stack, l) = mt_servicesTotal m (stack, l)
         \<and> counter_value (mt_alertsTotal m') (stack, l) = counter_value (mt_alertsTotal m) (stack, l))"
proof -
  let ?n = "\<lambda>x. length (filter (\<lambda>(_, s). sh_Status s = x) (stk_Services h))"
  have "?n x < 2 ^ 63" for x using assms(2) length_filter_le [of _ "stk_Services h"] by (rule le_less_trans [rotated])
  then have "int (?n x) < 2 ^ 63" for x by (simp only: of_nat_less_iff [symmetric, where 'a = int]) simp
  then have count: "count_status x (stk_Services h) = int (?n x)" for x by (simp add: count_status_def)
  let ?m1 = "m\<lparr>mt_servicesTotal := (mt_servicesTotal m)
    ((stackKey r, ''ok'') \<mapsto> int (?n StatusOK), (stackKey r, ''degraded'') \<mapsto> int (?n StatusDegraded),
     (stackKey r, ''failed'') \<mapsto> int (?n StatusFailed))\<rparr>"
  have "recordMetrics r h ts (Some m) =
      fold (\<lambda>c. IncAlertsTotal (stackKey r) (transition_severity c)) ts (Some ?m1)"
    using assms(1) by (simp add: recordMetrics_def metrics_ops_def SetServicesTotal_def count Let_def)
  with fold_IncAlerts [of "stackKey r" transition_severity ts ?m1] show ?thesis by auto
qed

lemma demo_runner_name [simp]: "rn_stackName demo_runner = ''prod''"
  by (simp add: demo_runner_def NewRunner_def WithStackName_def Let_def)

lemma recordMetrics_counts_witness:
  "\<exists>m'. recordMetrics (demo_runner\<lparr>rn_metrics := Some metrics_ops\<rparr>) (demo_stack StatusFailed) [] (Some NewMetrics)
      = Some m' \<and> mt_servicesTotal m' (''prod'', ''failed'') = Some 1
      \<and> mt_servicesTotal m' (''prod'', ''ok'') = Some 0"
  using recordMetrics_counts [of "demo_runner\<lparr>rn_metrics := Some metrics_ops\<rparr>" "demo_stack StatusFailed" "[]" NewMetrics]
  by (auto simp: demo_stack_def demo_health_def stackKey_def StatusOK_def StatusFailed_def StatusDegraded_def)

end
