(* ===== verification/Config.thy ===== *)
theory Config
  imports Go_Errors
begin

text \<open>
  \<open>internal/config\<close>: the configuration from the environment and the mapping file. \<open>sys_env\<close> holds
  the environment variables as they are once \<open>.env\<close> is loaded (which overrides none), the files,
  and the parsers of URLs, durations and YAML. \<open>strconv\<close> (in \<open>Go_Errors\<close>) is modelled for ASCII text.
\<close>

section \<open>The environment\<close>

record stack_mapping =
  sm_Name :: string
  sm_ComposeURL :: string
  sm_Timeout :: int

record sys_env =
  ev_DotEnv :: "goerror option"
  ev_LookupEnv :: "string \<Rightarrow> string option"
  ev_ReadFile :: "string \<Rightarrow> goerror + string"
  ev_Stat :: "string \<Rightarrow> bool"
  ev_ParseURL :: "string \<Rightarrow> goerror + go_url"
  ev_ParseDuration :: "string \<Rightarrow> goerror + int"
  ev_JoinPath :: "string \<Rightarrow> string \<Rightarrow> string"
  ev_ParseMapping :: "string \<Rightarrow> goerror + stack_mapping list"

definition lookupTrimmed :: "sys_env \<Rightarrow> string \<Rightarrow> string option" where
  "lookupTrimmed env key = map_option TrimSpace (ev_LookupEnv env key)"

text \<open>The pair of Go's value and whether it is set; an unset variable is false.\<close>

definition lookupBool :: "sys_env \<Rightarrow> string \<Rightarrow> goerror + bool \<times> bool" where
  "lookupBool env key =
     (case lookupTrimmed env key of
        None \<Rightarrow> Inr (False, False)
      | Some value \<Rightarrow>
          (case ParseBool value of
             Inl err \<Rightarrow> Inl (WrapErr (''invalid '' @ key @ '': '') err)
           | Inr parsed \<Rightarrow> Inr (parsed, True)))"

definition Getenv :: "sys_env \<Rightarrow> string \<Rightarrow> string" where
  "Getenv env key = (case ev_LookupEnv env key of None \<Rightarrow> '''' | Some v \<Rightarrow> v)"

definition loadSecretFromFile :: "sys_env \<Rightarrow> string \<Rightarrow> string" where
  "loadSecretFromFile env envVar =
     (case lookupTrimmed env (envVar @ ''_FILE'') of
        Some filePath \<Rightarrow>
          (case ev_ReadFile env filePath of
             Inl err \<Rightarrow> TrimSpace (Getenv env envVar)
           | Inr content \<Rightarrow> TrimSpace content)
      | None \<Rightarrow> TrimSpace (Getenv env envVar))"

definition loadDotEnvIfPresent :: "sys_env \<Rightarrow> goerror option" where
  "loadDotEnvIfPresent env =
     (case ev_DotEnv env of
        None \<Rightarrow> None
      | Some err \<Rightarrow> if is_not_exist err then None else Some err)"

section \<open>URLs\<close>

definition validateURL :: "sys_env \<Rightarrow> string \<Rightarrow> string \<Rightarrow> goerror option" where
  "validateURL env v name =
     (case ev_ParseURL env v of
        Inl err \<Rightarrow> Some (WrapErr (''invalid '' @ name @ '': '') err)
      | Inr parsed \<Rightarrow>
          if u_Scheme parsed = '''' \<or> u_Host parsed = ''''
          then Some (PlainErr (''invalid '' @ name @ '': must include scheme and host'')) else None)"

definition blockedHosts :: "string list" where
  "blockedHosts = [''169.254.169.254'', ''metadata.google.internal'', ''metadata.goog'',
     ''metadata.azure.com'', ''169.254.170.2'', ''fd00:ec2::254'']"

definition validateNotMetadataEndpoint :: "go_url \<Rightarrow> string \<Rightarrow> goerror option" where
  "validateNotMetadataEndpoint u name =
     (let hostname = ToLower (u_Hostname u)
      in if hostname \<in> set blockedHosts
         then Some (PlainErr (name @ '' cannot target cloud metadata endpoint: '' @ hostname))
         else if HasPrefix hostname ''169.254.''
         then Some (PlainErr (name @ '' cannot target link-local address: '' @ hostname))
         else None)"

definition validateHTTPURL :: "sys_env \<Rightarrow> string \<Rightarrow> string \<Rightarrow> goerror option" where
  "validateHTTPURL env v name =
     (case ev_ParseURL env v of
        Inl err \<Rightarrow> Some (WrapErr (''invalid '' @ name @ '': '') err)
      | Inr parsed \<Rightarrow>
          if u_Scheme parsed = '''' \<or> u_Host parsed = ''''
          then Some (PlainErr (''invalid '' @ name @ '': must include scheme and host''))
          else if u_Scheme parsed \<noteq> ''http'' \<and> u_Scheme parsed \<noteq> ''https''
          then Some (PlainErr (''invalid '' @ name @ '': must be http or https URL''))
          else validateNotMetadataEndpoint parsed name)"

section \<open>The mapping file\<close>

fun validate_loop :: "sys_env \<Rightarrow> nat \<Rightarrow> string list \<Rightarrow> stack_mapping list \<Rightarrow> goerror option" where
  "validate_loop env i seen [] = None"
| "validate_loop env i seen (m # rest) =
     (if sm_Name m = '''' then Some (PlainErr (''stack '' @ itoa (int i) @ '': name is required''))
      else if sm_ComposeURL m = ''''
      then Some (PlainErr (''stack '' @ go_quote (sm_Name m) @ '': compose_url is required''))
      else case validateHTTPURL env (sm_ComposeURL m) ''compose_url'' of
        Some err \<Rightarrow> Some (WrapErr (''stack '' @ go_quote (sm_Name m) @ '': '') err)
      | None \<Rightarrow>
          if sm_Name m \<in> set seen
          then Some (PlainErr (''stack '' @ go_quote (sm_Name m) @ '': duplicate name''))
          else if sm_Timeout m < 0
          then Some (PlainErr (''stack '' @ go_quote (sm_Name m) @ '': timeout cannot be negative''))
          else validate_loop env (i + 1) (sm_Name m # seen) rest)"

definition validateMappings :: "sys_env \<Rightarrow> stack_mapping list \<Rightarrow> goerror option" where
  "validateMappings env mappings =
     (if mappings = [] then Some (PlainErr ''mapping file contains no stacks'')
      else validate_loop env 0 [] mappings)"

definition LoadMappingFile :: "sys_env \<Rightarrow> string \<Rightarrow> goerror + stack_mapping list" where
  "LoadMappingFile env path =
     (if path = '''' then Inr []
      else case ev_ReadFile env path of
        Inl err \<Rightarrow> Inl (WrapErr ''read mapping file: '' err)
      | Inr text \<Rightarrow>
          (case ev_ParseMapping env text of
             Inl err \<Rightarrow> Inl (WrapErr ''parse mapping file: '' err)
           | Inr mappings \<Rightarrow>
               (case validateMappings env mappings of
                  Some err \<Rightarrow> Inl err
                | None \<Rightarrow> Inr mappings)))"

definition defaultSwarmConfigPath :: string where
  "defaultSwarmConfigPath = ''/run/configs/compose-mapping.yaml''"

definition defaultSwarmSecretPath :: string where
  "defaultSwarmSecretPath = ''/run/secrets/compose-mapping.yaml''"

definition defaultLocalPath :: string where
  "defaultLocalPath = ''./compose-mapping.yaml''"

definition FindMappingFile :: "sys_env \<Rightarrow> goerror + string" where
  "FindMappingFile env =
     (case lookupTrimmed env ''SS_COMPOSE_MAPPING_FILE'' of
        Some path \<Rightarrow>
          if ev_Stat env path then Inr path
          else Inl (PlainErr (''SS_COMPOSE_MAPPING_FILE specified but not found: '' @ path))
      | None \<Rightarrow>
          if ev_Stat env defaultSwarmConfigPath then Inr defaultSwarmConfigPath
          else if ev_Stat env defaultSwarmSecretPath then Inr defaultSwarmSecretPath
          else if ev_Stat env defaultLocalPath then Inr defaultLocalPath
          else Inr '''')"

section \<open>The configuration\<close>

record config =
  cg_PollInterval :: int
  cg_ComposeTimeout :: int
  cg_DockerAPITimeout :: int
  cg_ComposeURL :: string
  cg_SlackWebhookURL :: string
  cg_WebhookURL :: string
  cg_WebhookTemplate :: string
  cg_DockerProxyURL :: string
  cg_StackName :: string
  cg_DockerTLSEnabled :: bool
  cg_DockerTLSVerify :: bool
  cg_DockerTLSCA :: string
  cg_DockerTLSCert :: string
  cg_DockerTLSKey :: string
  cg_LogLevel :: string
  cg_StatePath :: string
  cg_AlertStabilizationCycles :: int
  cg_HealthPort :: int
  cg_MetricsPort :: int
  cg_DryRun :: bool

definition default_config :: config where
  "default_config = \<lparr>cg_PollInterval = 30 * Second, cg_ComposeTimeout = 10 * Second,
     cg_DockerAPITimeout = 30 * Second, cg_ComposeURL = '''', cg_SlackWebhookURL = '''',
     cg_WebhookURL = '''', cg_WebhookTemplate = '''', cg_DockerProxyURL = ''http://localhost:2375'',
     cg_StackName = '''', cg_DockerTLSEnabled = False, cg_DockerTLSVerify = False,
     cg_DockerTLSCA = '''', cg_DockerTLSCert = '''', cg_DockerTLSKey = '''', cg_LogLevel = ''info'',
     cg_StatePath = ''/var/lib/swarm-sentinel/state.json'', cg_AlertStabilizationCycles = 2,
     cg_HealthPort = 8080, cg_MetricsPort = 9090, cg_DryRun = False\<rparr>"

text \<open>The settings that \<open>Load\<close> reads in one way: a positive duration, a string, a bounded number.\<close>

definition duration_setting ::
  "sys_env \<Rightarrow> string \<Rightarrow> (int \<Rightarrow> config \<Rightarrow> config) \<Rightarrow> config \<Rightarrow> goerror + config" where
  "duration_setting env key upd cfg =
     (case lookupTrimmed env key of
        None \<Rightarrow> Inr cfg
      | Some value \<Rightarrow>
          (case ev_ParseDuration env value of
             Inl err \<Rightarrow> Inl (WrapErr (''invalid '' @ key @ '': '') err)
           | Inr d \<Rightarrow>
               if d \<le> 0 then Inl (PlainErr (key @ '' must be greater than zero''))
               else Inr (upd d cfg)))"

definition string_setting ::
  "sys_env \<Rightarrow> string \<Rightarrow> (string \<Rightarrow> config \<Rightarrow> config) \<Rightarrow> config \<Rightarrow> config" where
  "string_setting env key upd cfg =
     (case lookupTrimmed env key of None \<Rightarrow> cfg | Some value \<Rightarrow> upd value cfg)"

definition number_setting ::
  "sys_env \<Rightarrow> string \<Rightarrow> (int \<Rightarrow> bool) \<Rightarrow> string \<Rightarrow> (int \<Rightarrow> config \<Rightarrow> config) \<Rightarrow> config \<Rightarrow> goerror + config"
  where
  "number_setting env key accepted complaint upd cfg =
     (case lookupTrimmed env key of
        None \<Rightarrow> Inr cfg
      | Some value \<Rightarrow>
          (case Atoi value of
             Inl err \<Rightarrow> Inl (WrapErr (''invalid '' @ key @ '': '') err)
           | Inr parsed \<Rightarrow>
               if \<not> accepted parsed then Inl (PlainErr (key @ complaint)) else Inr (upd parsed cfg)))"

definition and_then :: "goerror + 'a \<Rightarrow> ('a \<Rightarrow> goerror + 'b) \<Rightarrow> goerror + 'b" where
  "and_then r f = (case r of Inl err \<Rightarrow> Inl err | Inr a \<Rightarrow> f a)"

definition check_that :: "goerror option \<Rightarrow> 'a \<Rightarrow> goerror + 'a" where
  "check_that err a = (case err of Some e \<Rightarrow> Inl e | None \<Rightarrow> Inr a)"

definition port_ok :: "int \<Rightarrow> bool" where
  "port_ok p \<longleftrightarrow> \<not> (p < 0 \<or> p > 65535)"

text \<open>The settings in the order they are read: up to the dry-run flag, then those of TLS.\<close>

definition state_path_setting :: "sys_env \<Rightarrow> config \<Rightarrow> goerror + config" where
  "state_path_setting env cfg =
     (case lookupTrimmed env ''SS_STATE_PATH'' of
        None \<Rightarrow> Inr cfg
      | Some value \<Rightarrow>
          if value = '''' then Inl (PlainErr ''SS_STATE_PATH must not be empty'')
          else Inr (cfg\<lparr>cg_StatePath := value\<rparr>))"

definition load_basic :: "sys_env \<Rightarrow> goerror + config" where
  "load_basic env =
     and_then (duration_setting env ''SS_POLL_INTERVAL'' (\<lambda>d c. c\<lparr>cg_PollInterval := d\<rparr>) default_config)
     (\<lambda>c. let c = string_setting env ''SS_COMPOSE_URL'' (\<lambda>v c. c\<lparr>cg_ComposeURL := v\<rparr>) c in
     and_then (duration_setting env ''SS_COMPOSE_TIMEOUT'' (\<lambda>d c. c\<lparr>cg_ComposeTimeout := d\<rparr>) c)
     (\<lambda>c. let c = c\<lparr>cg_SlackWebhookURL := loadSecretFromFile env ''SS_SLACK_WEBHOOK_URL'',
                 cg_WebhookURL := loadSecretFromFile env ''SS_WEBHOOK_URL''\<rparr>;
              c = string_setting env ''SS_WEBHOOK_TEMPLATE'' (\<lambda>v c. c\<lparr>cg_WebhookTemplate := v\<rparr>) c;
              c = string_setting env ''SS_DOCKER_PROXY_URL'' (\<lambda>v c. c\<lparr>cg_DockerProxyURL := v\<rparr>) c;
              c = string_setting env ''SS_STACK_NAME'' (\<lambda>v c. c\<lparr>cg_StackName := v\<rparr>) c in
     and_then (duration_setting env ''SS_DOCKER_API_TIMEOUT'' (\<lambda>d c. c\<lparr>cg_DockerAPITimeout := d\<rparr>) c)
     (\<lambda>c. let c = string_setting env ''SS_LOG_LEVEL'' (\<lambda>v c. c\<lparr>cg_LogLevel := v\<rparr>) c in
     and_then (state_path_setting env c) (\<lambda>c.
     and_then (number_setting env ''SS_ALERT_STABILIZATION_CYCLES'' (\<lambda>n. \<not> n \<le> 0)
       '' must be greater than zero'' (\<lambda>n c. c\<lparr>cg_AlertStabilizationCycles := n\<rparr>) c) (\<lambda>c.
     and_then (number_setting env ''SS_HEALTH_PORT'' port_ok '' must be between 0 and 65535''
       (\<lambda>n c. c\<lparr>cg_HealthPort := n\<rparr>) c) (\<lambda>c.
     and_then (number_setting env ''SS_METRICS_PORT'' port_ok '' must be between 0 and 65535''
       (\<lambda>n c. c\<lparr>cg_MetricsPort := n\<rparr>) c) (\<lambda>c.
     and_then (lookupBool env ''SS_DRY_RUN'') (\<lambda>(dryRun, dryRunSet).
       Inr (if dryRunSet then c\<lparr>cg_DryRun := dryRun\<rparr> else c)))))))))"

definition tls_verify_setting :: "sys_env \<Rightarrow> goerror + bool" where
  "tls_verify_setting env =
     and_then (lookupBool env ''SS_DOCKER_TLS_VERIFY'') (\<lambda>(tlsVerify, tlsVerifySet).
       if tlsVerifySet then Inr tlsVerify
       else and_then (lookupBool env ''DOCKER_TLS_VERIFY'') (\<lambda>(v, _). Inr v))"

definition cert_path_setting :: "sys_env \<Rightarrow> config \<Rightarrow> config" where
  "cert_path_setting env cfg =
     (case lookupTrimmed env ''DOCKER_CERT_PATH'' of
        None \<Rightarrow> cfg
      | Some dockerCertPath \<Rightarrow>
          let c1 = (if cg_DockerTLSCA cfg = ''''
                then cfg\<lparr>cg_DockerTLSCA := ev_JoinPath env dockerCertPath ''ca.pem''\<rparr> else cfg);
              c2 = (if cg_DockerTLSCert c1 = ''''
                then c1\<lparr>cg_DockerTLSCert := ev_JoinPath env dockerCertPath ''cert.pem''\<rparr> else c1)
          in if cg_DockerTLSKey c2 = ''''
             then c2\<lparr>cg_DockerTLSKey := ev_JoinPath env dockerCertPath ''key.pem''\<rparr> else c2)"

definition load_tls :: "sys_env \<Rightarrow> config \<Rightarrow> goerror + config" where
  "load_tls env cfg =
     and_then (tls_verify_setting env) (\<lambda>tlsVerify.
       let c = cfg\<lparr>cg_DockerTLSVerify := tlsVerify\<rparr>;
           c = string_setting env ''SS_DOCKER_TLS_CA'' (\<lambda>v c. c\<lparr>cg_DockerTLSCA := v\<rparr>) c;
           c = string_setting env ''SS_DOCKER_TLS_CERT'' (\<lambda>v c. c\<lparr>cg_DockerTLSCert := v\<rparr>) c;
           c = string_setting env ''SS_DOCKER_TLS_KEY'' (\<lambda>v c. c\<lparr>cg_DockerTLSKey := v\<rparr>) c;
           c = cert_path_setting env c
       in Inr (c\<lparr>cg_DockerTLSEnabled := cg_DockerTLSVerify c \<or> cg_DockerTLSCA c \<noteq> ''''
                 \<or> cg_DockerTLSCert c \<noteq> '''' \<or> cg_DockerTLSKey c \<noteq> ''''\<rparr>))"

text \<open>The checks of the whole configuration, in the code's order.\<close>

definition missing_tls :: "config \<Rightarrow> string list" where
  "missing_tls cfg =
     (if cg_DockerTLSCert cfg = '''' then [''SS_DOCKER_TLS_CERT''] else [])
     @ (if cg_DockerTLSKey cfg = '''' then [''SS_DOCKER_TLS_KEY''] else [])
     @ (if cg_DockerTLSVerify cfg \<and> cg_DockerTLSCA cfg = '''' then [''SS_DOCKER_TLS_CA''] else [])"

definition validate_config :: "sys_env \<Rightarrow> config \<Rightarrow> goerror + config" where
  "validate_config env cfg =
     and_then (FindMappingFile env) (\<lambda>mappingPath.
       if mappingPath \<noteq> '''' \<and> cg_ComposeURL cfg \<noteq> '''' then
         Inl (PlainErr (''SS_COMPOSE_URL and compose mapping file are mutually exclusive: '' @ mappingPath))
       else if mappingPath = '''' \<and> cg_ComposeURL cfg = '''' then
         Inl (PlainErr ''SS_COMPOSE_URL is required when no compose mapping file is present'')
       else
     and_then (check_that (if cg_ComposeURL cfg \<noteq> ''''
         then validateHTTPURL env (cg_ComposeURL cfg) ''SS_COMPOSE_URL'' else None) ()) (\<lambda>_.
     and_then (check_that (validateURL env (cg_DockerProxyURL cfg) ''SS_DOCKER_PROXY_URL'') ()) (\<lambda>_.
       if cg_DockerTLSEnabled cfg \<and> length (missing_tls cfg) > 0 then
         Inl (PlainErr (''docker tls enabled but missing '' @ Join (missing_tls cfg) '', ''))
       else if (case ev_ParseURL env (cg_DockerProxyURL cfg) of Inl _ \<Rightarrow> False | Inr u \<Rightarrow> u_Scheme u = ''https'')
           \<and> \<not> cg_DockerTLSEnabled cfg then
         Inl (PlainErr ''https docker host requires TLS configuration'')
       else
     and_then (check_that (if cg_SlackWebhookURL cfg \<noteq> ''''
         then validateURL env (cg_SlackWebhookURL cfg) ''SS_SLACK_WEBHOOK_URL'' else None) ()) (\<lambda>_.
     and_then (check_that (if cg_WebhookURL cfg \<noteq> ''''
         then validateURL env (cg_WebhookURL cfg) ''SS_WEBHOOK_URL'' else None) ()) (\<lambda>_. Inr cfg)))))"

definition LoadConfig :: "sys_env \<Rightarrow> goerror + config" where
  "LoadConfig env =
     (case loadDotEnvIfPresent env of
        Some err \<Rightarrow> Inl err
      | None \<Rightarrow> and_then (load_basic env) (\<lambda>c. and_then (load_tls env c) (validate_config env)))"

section \<open>What an accepted configuration satisfies\<close>

lemma and_then_Inr: "and_then r f = Inr b \<longleftrightarrow> (\<exists>a. r = Inr a \<and> f a = Inr b)"
  by (simp add: and_then_def split: sum.splits)

definition numbers_ok :: "config \<Rightarrow> bool" where
  "numbers_ok cfg \<longleftrightarrow> cg_PollInterval cfg > 0 \<and> cg_ComposeTimeout cfg > 0 \<and> cg_DockerAPITimeout cfg > 0
     \<and> cg_AlertStabilizationCycles cfg > 0 \<and> 0 \<le> cg_HealthPort cfg \<and> cg_HealthPort cfg \<le> 65535
     \<and> 0 \<le> cg_MetricsPort cfg \<and> cg_MetricsPort cfg \<le> 65535 \<and> cg_StatePath cfg \<noteq> ''''"

definition holds :: "('a \<Rightarrow> bool) \<Rightarrow> goerror + 'a \<Rightarrow> bool" where
  "holds P r \<longleftrightarrow> (case r of Inl _ \<Rightarrow> True | Inr a \<Rightarrow> P a)"

lemma holds_simps [simp]: "holds P (Inl e)" "holds P (Inr a) = P a"
  by (simp_all add: holds_def)

lemma holds_and_then:
  "holds numbers_ok r \<Longrightarrow> (\<And>a. numbers_ok a \<Longrightarrow> holds Q (f a)) \<Longrightarrow> holds Q (and_then r f)"
  by (cases r) (simp_all add: and_then_def)

lemma holds_duration:
  "numbers_ok cfg \<Longrightarrow> (\<And>d. 0 < d \<Longrightarrow> numbers_ok (upd d cfg)) \<Longrightarrow>
   holds numbers_ok (duration_setting env key upd cfg)"
  by (auto simp: duration_setting_def split: option.splits sum.splits)

lemma holds_number:
  "numbers_ok cfg \<Longrightarrow> (\<And>n. accepted n \<Longrightarrow> numbers_ok (upd n cfg)) \<Longrightarrow>
   holds numbers_ok (number_setting env key accepted complaint upd cfg)"
  by (auto simp: number_setting_def split: option.splits sum.splits)

lemma string_setting_inv:
  "P cfg \<Longrightarrow> (\<And>v c. P c \<Longrightarrow> P (upd v c)) \<Longrightarrow> P (string_setting env key upd cfg)"
  by (auto simp: string_setting_def split: option.splits)

lemma holds_state_path: "numbers_ok cfg \<Longrightarrow> holds numbers_ok (state_path_setting env cfg)"
  by (auto simp: state_path_setting_def numbers_ok_def split: option.splits)

lemma default_numbers_ok: "numbers_ok default_config"
  by (simp add: numbers_ok_def default_config_def Second_def)

lemma load_basic_numbers: "holds numbers_ok (load_basic env)"
  unfolding load_basic_def Let_def
  apply (rule holds_and_then)
   apply (rule holds_duration, rule default_numbers_ok, simp add: numbers_ok_def default_config_def Second_def)
  apply (rule holds_and_then)
   apply (rule holds_duration)
    apply (rule string_setting_inv, assumption, simp add: numbers_ok_def)
   apply (simp add: numbers_ok_def string_setting_def split: option.splits)
  apply (rule holds_and_then)
   apply (rule holds_duration)
    apply (simp add: numbers_ok_def string_setting_def split: option.splits)
   apply (simp add: numbers_ok_def string_setting_def split: option.splits)
  apply (rule holds_and_then)
   apply (rule holds_state_path)
   apply (simp add: numbers_ok_def string_setting_def split: option.splits)
  apply (rule holds_and_then)
   apply (rule holds_number, assumption, simp add: numbers_ok_def)
  apply (rule holds_and_then)
   apply (rule holds_number, assumption, simp add: numbers_ok_def port_ok_def)
  apply (rule holds_and_then)
   apply (rule holds_number, assumption, simp add: numbers_ok_def port_ok_def)
  apply (simp add: and_then_def numbers_ok_def split: sum.splits prod.splits)
  done

definition tls_derived :: "config \<Rightarrow> bool" where
  "tls_derived cfg \<longleftrightarrow> cg_DockerTLSEnabled cfg = (cg_DockerTLSVerify cfg \<or> cg_DockerTLSCA cfg \<noteq> ''''
     \<or> cg_DockerTLSCert cfg \<noteq> '''' \<or> cg_DockerTLSKey cfg \<noteq> '''')"

lemma cert_path_numbers: "numbers_ok (cert_path_setting env cfg) = numbers_ok cfg"
  by (auto simp: cert_path_setting_def numbers_ok_def Let_def split: option.splits)

lemma load_tls_facts:
  assumes "load_tls env cfg = Inr c"
  shows "numbers_ok c = numbers_ok cfg \<and> tls_derived c"
proof -
  obtain c0 v where c: "c = (cert_path_setting env c0)\<lparr>cg_DockerTLSEnabled := v\<rparr>"
    and v: "v \<longleftrightarrow> (cg_DockerTLSVerify (cert_path_setting env c0) \<or> cg_DockerTLSCA (cert_path_setting env c0) \<noteq> ''''
      \<or> cg_DockerTLSCert (cert_path_setting env c0) \<noteq> '''' \<or> cg_DockerTLSKey (cert_path_setting env c0) \<noteq> '''')"
    and c0: "numbers_ok c0 = numbers_ok cfg"
    using assms by (auto simp: load_tls_def and_then_Inr Let_def numbers_ok_def string_setting_def
        split: option.splits)
  have "numbers_ok c = numbers_ok (cert_path_setting env c0)" using c by (simp add: numbers_ok_def)
  with c c0 v show ?thesis by (simp add: cert_path_numbers tls_derived_def)
qed

definition sources_ok :: "sys_env \<Rightarrow> config \<Rightarrow> bool" where
  "sources_ok env cfg \<longleftrightarrow> (\<exists>path. FindMappingFile env = Inr path \<and> (path = '''') = (cg_ComposeURL cfg \<noteq> ''''))
     \<and> (if cg_ComposeURL cfg = '''' then True else validateHTTPURL env (cg_ComposeURL cfg) ''SS_COMPOSE_URL'' = None)"

definition tls_complete :: "sys_env \<Rightarrow> config \<Rightarrow> bool" where
  "tls_complete env cfg \<longleftrightarrow>
     (if cg_DockerTLSEnabled cfg
      then cg_DockerTLSCert cfg \<noteq> '''' \<and> cg_DockerTLSKey cfg \<noteq> ''''
        \<and> (if cg_DockerTLSVerify cfg then cg_DockerTLSCA cfg \<noteq> '''' else True)
      else (\<exists>u. ev_ParseURL env (cg_DockerProxyURL cfg) = Inr u \<and> u_Scheme u \<noteq> ''https''))"

lemma validateURL_None: "validateURL env v name = None \<longleftrightarrow>
    (\<exists>u. ev_ParseURL env v = Inr u \<and> u_Scheme u \<noteq> '''' \<and> u_Host u \<noteq> '''')"
  by (auto simp: validateURL_def split: sum.splits)

lemma check_that_Inr: "check_that e a = Inr b \<longleftrightarrow> e = None \<and> b = a"
  by (auto simp: check_that_def split: option.splits)

lemma missing_tls_Nil:
  "missing_tls cfg = [] \<longleftrightarrow> cg_DockerTLSCert cfg \<noteq> '''' \<and> cg_DockerTLSKey cfg \<noteq> ''''
     \<and> (cg_DockerTLSVerify cfg \<longrightarrow> cg_DockerTLSCA cfg \<noteq> '''')"
  by (simp add: missing_tls_def)

lemma validate_config_Inr:
  assumes "validate_config env cfg = Inr c"
  shows "c = cfg \<and> sources_ok env cfg \<and> tls_complete env cfg"
proof -
  from assms obtain path where p: "FindMappingFile env = Inr path"
    "(path = '''') = (cg_ComposeURL cfg \<noteq> '''')"
    by (auto simp: validate_config_def and_then_Inr split: if_splits)
  from assms have "c = cfg" "cg_ComposeURL cfg \<noteq> '''' \<Longrightarrow> validateHTTPURL env (cg_ComposeURL cfg) ''SS_COMPOSE_URL'' = None"
    "validateURL env (cg_DockerProxyURL cfg) ''SS_DOCKER_PROXY_URL'' = None"
    "cg_DockerTLSEnabled cfg \<Longrightarrow> missing_tls cfg = []"
    "\<not> cg_DockerTLSEnabled cfg \<Longrightarrow> \<not> (case ev_ParseURL env (cg_DockerProxyURL cfg) of Inl _ \<Rightarrow> False | Inr u \<Rightarrow> u_Scheme u = ''https'')"
    by (auto simp: validate_config_def and_then_Inr check_that_Inr split: if_splits)
  with p show ?thesis
    by (auto simp: sources_ok_def tls_complete_def validateURL_None missing_tls_Nil split: sum.splits)
qed

lemma LoadConfig_facts:
  assumes "LoadConfig env = Inr cfg"
  shows "numbers_ok cfg \<and> tls_derived cfg \<and> sources_ok env cfg \<and> tls_complete env cfg"
proof -
  obtain c1 c2 where c: "load_basic env = Inr c1" "load_tls env c1 = Inr c2" "validate_config env c2 = Inr cfg"
    using assms by (auto simp: LoadConfig_def and_then_Inr split: option.splits)
  from load_basic_numbers [of env] c(1) have "numbers_ok c1" by simp
  with load_tls_facts [OF c(2)] validate_config_Inr [OF c(3)] show ?thesis by simp
qed

lemma LoadConfig_docker_url:
  assumes "LoadConfig env = Inr cfg"
  shows "\<exists>u. ev_ParseURL env (cg_DockerProxyURL cfg) = Inr u \<and> u_Scheme u \<noteq> '''' \<and> u_Host u \<noteq> ''''"
proof -
  obtain c where c: "validate_config env c = Inr cfg"
    using assms by (auto simp: LoadConfig_def and_then_Inr split: option.splits)
  then have "validateURL env (cg_DockerProxyURL c) ''SS_DOCKER_PROXY_URL'' = None"
    by (auto simp: validate_config_def and_then_Inr check_that_Inr split: if_splits)
  with validate_config_Inr [OF c] show ?thesis by (simp add: validateURL_None)
qed

text \<open>A port that is not set keeps its default.\<close>

lemma holds_and_then_P:
  "holds P r \<Longrightarrow> (\<And>a. P a \<Longrightarrow> holds Q (f a)) \<Longrightarrow> holds Q (and_then r f)"
  by (cases r) (simp_all add: and_then_def)

lemma holds_duration_P:
  "P cfg \<Longrightarrow> (\<And>d. P (upd d cfg)) \<Longrightarrow> holds P (duration_setting env key upd cfg)"
  by (auto simp: duration_setting_def split: option.splits sum.splits)

lemma holds_number_P:
  "P cfg \<Longrightarrow> (\<And>n. P (upd n cfg)) \<Longrightarrow> holds P (number_setting env key accepted complaint upd cfg)"
  by (auto simp: number_setting_def split: option.splits sum.splits)

definition default_health_port :: "config \<Rightarrow> bool" where
  "default_health_port c \<longleftrightarrow> cg_HealthPort c = 8080"

lemmas health_port_then = holds_and_then_P [where P = default_health_port and Q = default_health_port]

lemmas health_port_settings =
  holds_duration_P [where P = default_health_port] holds_number_P [where P = default_health_port]

lemma load_basic_health_port:
  assumes "lookupTrimmed env ''SS_HEALTH_PORT'' = None"
  shows "holds default_health_port (load_basic env)"
  unfolding load_basic_def Let_def
  apply (rule health_port_then)
   apply (rule health_port_settings;
      simp add: default_health_port_def default_config_def)
  apply (rule health_port_then)
   apply (rule health_port_settings;
      simp add: default_health_port_def string_setting_def split: option.split)
  apply (rule health_port_then)
   apply (rule health_port_settings;
      simp add: default_health_port_def string_setting_def split: option.split)
  apply (rule health_port_then)
   apply (simp add: default_health_port_def state_path_setting_def string_setting_def split: option.split)
  apply (rule health_port_then)
   apply (rule health_port_settings; (assumption | simp add: default_health_port_def))
  apply (rule health_port_then)
   apply (simp add: number_setting_def assms)
  apply (rule health_port_then)
   apply (rule health_port_settings; (assumption | simp add: default_health_port_def))
  apply (simp add: and_then_def default_health_port_def split: sum.split prod.split)
  done

lemma cert_path_health_port [simp]: "cg_HealthPort (cert_path_setting env c) = cg_HealthPort c"
  by (simp add: cert_path_setting_def Let_def split: option.split)

lemma LoadConfig_health_port:
  assumes "LoadConfig env = Inr cfg" "lookupTrimmed env ''SS_HEALTH_PORT'' = None"
  shows "cg_HealthPort cfg = 8080"
proof -
  obtain c1 c2 where c: "load_basic env = Inr c1" "load_tls env c1 = Inr c2" "validate_config env c2 = Inr cfg"
    using assms(1) by (auto simp: LoadConfig_def and_then_Inr split: option.splits)
  from load_basic_health_port [OF assms(2)] c(1) have "cg_HealthPort c1 = 8080" by (simp add: default_health_port_def)
  moreover have "cg_HealthPort c2 = cg_HealthPort c1"
    using c(2) by (auto simp: load_tls_def and_then_Inr Let_def string_setting_def split: option.splits)
  ultimately show ?thesis using validate_config_Inr [OF c(3)] by simp
qed

section \<open>Mappings and URLs\<close>

lemma validateHTTPURL_None:
  "validateHTTPURL env v name = None \<longleftrightarrow>
     (\<exists>u. ev_ParseURL env v = Inr u \<and> u_Scheme u \<in> {''http'', ''https''} \<and> u_Host u \<noteq> ''''
        \<and> ToLower (u_Hostname u) \<notin> set blockedHosts \<and> \<not> HasPrefix (ToLower (u_Hostname u)) ''169.254.'')"
  by (auto simp: validateHTTPURL_def validateNotMetadataEndpoint_def Let_def split: sum.splits)

definition mapping_ok :: "sys_env \<Rightarrow> stack_mapping \<Rightarrow> bool" where
  "mapping_ok env m \<longleftrightarrow> sm_Name m \<noteq> '''' \<and> sm_ComposeURL m \<noteq> ''''
     \<and> validateHTTPURL env (sm_ComposeURL m) ''compose_url'' = None \<and> 0 \<le> sm_Timeout m"

lemma validate_loop_None:
  "validate_loop env i seen ms = None \<longleftrightarrow>
     list_all (mapping_ok env) ms \<and> distinct (map sm_Name ms) \<and> set (map sm_Name ms) \<inter> set seen = {}"
  by (induction env i seen ms rule: validate_loop.induct)
    (auto simp: mapping_ok_def split: option.splits)

text \<open>The host with a trailing dot names the same machine and is not blocked.\<close>

lemma trailing_dot_accepted:
  assumes "ev_ParseURL env v = Inr u" "u_Scheme u = ''http''" "u_Host u = ''metadata.google.internal.''"
    and "u_Hostname u = ''metadata.google.internal.''"
  shows "validateHTTPURL env v name = None"
  using assms by (simp add: validateHTTPURL_None blockedHosts_def str_defs)

section \<open>Properties\<close>

text \<open>
  C18. Every configuration that \<open>Load\<close> accepts is usable. Intervals, timeouts and the number of
  stabilisation cycles are positive, ports are ports, the state path is not empty; exactly one of
  the compose URL and the mapping file is there, and the URL is http(s) and does not name a
  blocked host; TLS is on exactly when one of its settings asks for it, and then certificate and
  key are there, and the CA when verification is asked for; without TLS the Docker host is not
  https.
\<close>

theorem LoadConfig_usable:
  assumes "LoadConfig env = Inr cfg"
  shows "cg_PollInterval cfg > 0 \<and> cg_ComposeTimeout cfg > 0 \<and> cg_DockerAPITimeout cfg > 0
    \<and> cg_AlertStabilizationCycles cfg > 0 \<and> cg_HealthPort cfg \<in> {0..65535}
    \<and> cg_MetricsPort cfg \<in> {0..65535} \<and> cg_StatePath cfg \<noteq> ''''
    \<and> (\<exists>path. FindMappingFile env = Inr path \<and> (path = '''') = (cg_ComposeURL cfg \<noteq> ''''))
    \<and> (if cg_ComposeURL cfg = '''' then True
       else (\<exists>u. ev_ParseURL env (cg_ComposeURL cfg) = Inr u \<and> u_Scheme u \<in> {''http'', ''https''}
         \<and> ToLower (u_Hostname u) \<notin> set blockedHosts))
    \<and> cg_DockerTLSEnabled cfg = (cg_DockerTLSVerify cfg \<or> cg_DockerTLSCA cfg \<noteq> ''''
        \<or> cg_DockerTLSCert cfg \<noteq> '''' \<or> cg_DockerTLSKey cfg \<noteq> '''')
    \<and> (if cg_DockerTLSEnabled cfg
       then cg_DockerTLSCert cfg \<noteq> '''' \<and> cg_DockerTLSKey cfg \<noteq> ''''
         \<and> (if cg_DockerTLSVerify cfg then cg_DockerTLSCA cfg \<noteq> '''' else True)
       else (\<exists>u. ev_ParseURL env (cg_DockerProxyURL cfg) = Inr u \<and> u_Scheme u \<noteq> ''https''))"
proof -
  from LoadConfig_facts [OF assms] have f: "numbers_ok cfg" "tls_derived cfg" "sources_ok env cfg"
    "tls_complete env cfg" by simp_all
  moreover have "cg_ComposeURL cfg \<noteq> '''' \<Longrightarrow> \<exists>u. ev_ParseURL env (cg_ComposeURL cfg) = Inr u
      \<and> u_Scheme u \<in> {''http'', ''https''} \<and> ToLower (u_Hostname u) \<notin> set blockedHosts"
    using f(3) by (auto simp: sources_ok_def validateHTTPURL_None)
  ultimately show ?thesis
    unfolding numbers_ok_def tls_derived_def sources_ok_def tls_complete_def by auto
qed

definition demo_parse_url :: "string \<Rightarrow> goerror + go_url" where
  "demo_parse_url s =
     (if s = ''http://c/x.yml'' then Inr \<lparr>u_Scheme = ''http'', u_Host = ''c'', u_Hostname = ''c''\<rparr>
      else Inr \<lparr>u_Scheme = ''http'', u_Host = ''localhost:2375'', u_Hostname = ''localhost''\<rparr>)"

definition demo_env :: sys_env where
  "demo_env = \<lparr>ev_DotEnv = None,
     ev_LookupEnv = (\<lambda>k. if k = ''SS_COMPOSE_URL'' then Some '' http://c/x.yml'' else None),
     ev_ReadFile = (\<lambda>p. Inl (PlainErr ''no such file'')), ev_Stat = (\<lambda>p. False),
     ev_ParseURL = demo_parse_url, ev_ParseDuration = (\<lambda>s. Inl (PlainErr ''time: invalid duration'')),
     ev_JoinPath = (\<lambda>a b. a @ ''/'' @ b), ev_ParseMapping = (\<lambda>s. Inr [])\<rparr>"

lemma demo_env_config: "LoadConfig demo_env = Inr (default_config\<lparr>cg_ComposeURL := ''http://c/x.yml''\<rparr>)"
proof -
  have look: "lookupTrimmed demo_env k = (if k = ''SS_COMPOSE_URL'' then Some ''http://c/x.yml'' else None)" for k
    by (simp add: lookupTrimmed_def demo_env_def str_defs)
  have sec: "loadSecretFromFile demo_env k = ''''" if "k \<noteq> ''SS_COMPOSE_URL''" "k @ ''_FILE'' \<noteq> ''SS_COMPOSE_URL''" for k
    using that by (simp add: loadSecretFromFile_def look Getenv_def) (simp add: demo_env_def str_defs)
  have unset: "duration_setting demo_env k f c = Inr c" "string_setting demo_env k g c = c"
    "number_setting demo_env k a m f c = Inr c" "lookupBool demo_env k = Inr (False, False)"
    if "k \<noteq> ''SS_COMPOSE_URL''" for k f g a m c
    using that by (simp_all add: duration_setting_def string_setting_def number_setting_def lookupBool_def look)
  have set: "string_setting demo_env ''SS_COMPOSE_URL'' g c = g ''http://c/x.yml'' c" for g c
    by (simp add: string_setting_def look)
  have path: "state_path_setting demo_env c = Inr c" for c by (simp add: state_path_setting_def look)
  have step: "and_then (Inr c) f = f c" for c :: 'x and f :: "'x \<Rightarrow> goerror + 'y" by (simp add: and_then_def)
  have "load_basic demo_env = Inr (default_config\<lparr>cg_ComposeURL := ''http://c/x.yml'',
      cg_SlackWebhookURL := '''', cg_WebhookURL := ''''\<rparr>)"
    by (simp add: load_basic_def step unset set path sec Let_def)
  also have "default_config\<lparr>cg_ComposeURL := ''http://c/x.yml'', cg_SlackWebhookURL := '''', cg_WebhookURL := ''''\<rparr>
      = default_config\<lparr>cg_ComposeURL := ''http://c/x.yml''\<rparr>" by (simp add: default_config_def)
  finally have "load_basic demo_env = Inr (default_config\<lparr>cg_ComposeURL := ''http://c/x.yml''\<rparr>)" .
  moreover have "load_tls demo_env (default_config\<lparr>cg_ComposeURL := ''http://c/x.yml''\<rparr>)
      = Inr (default_config\<lparr>cg_ComposeURL := ''http://c/x.yml''\<rparr>)"
    by (simp add: load_tls_def tls_verify_setting_def and_then_def lookupBool_def string_setting_def
        cert_path_setting_def look Let_def default_config_def)
  moreover have "validate_config demo_env (default_config\<lparr>cg_ComposeURL := ''http://c/x.yml''\<rparr>)
      = Inr (default_config\<lparr>cg_ComposeURL := ''http://c/x.yml''\<rparr>)"
  proof -
    have "FindMappingFile demo_env = Inr ''''"
      by (simp add: FindMappingFile_def look) (simp add: demo_env_def)
    moreover have "validateHTTPURL demo_env ''http://c/x.yml'' n = None" for n
      by (simp add: validateHTTPURL_None blockedHosts_def demo_env_def demo_parse_url_def str_defs)
    moreover have url: "ev_ParseURL demo_env ''http://localhost:2375'' =
        Inr \<lparr>u_Scheme = ''http'', u_Host = ''localhost:2375'', u_Hostname = ''localhost''\<rparr>"
      by (simp add: demo_env_def demo_parse_url_def)
    moreover have "validateURL demo_env ''http://localhost:2375'' n = None" for n
      by (simp add: validateURL_None url)
    ultimately show ?thesis
      by (simp add: validate_config_def step check_that_def default_config_def)
  qed
  moreover have "loadDotEnvIfPresent demo_env = None"
    by (simp add: loadDotEnvIfPresent_def demo_env_def)
  ultimately show ?thesis by (simp add: LoadConfig_def and_then_def)
qed

lemma LoadConfig_usable_witness:
  "\<exists>cfg. LoadConfig demo_env = Inr cfg \<and> cg_AlertStabilizationCycles cfg > 0"
  using LoadConfig_usable [OF demo_env_config] demo_env_config by blast

text \<open>
  C37. A mapping file is accepted exactly when it names at least one stack, every stack has a name, an
  acceptable compose URL and no negative timeout, and no two stacks share a name; so the stacks'
  names can serve as keys of the state and of the runners.
\<close>

theorem validateMappings_spec:
  "(validateMappings env mappings = None) =
     (mappings \<noteq> [] \<and> distinct (map sm_Name mappings)
      \<and> list_all (\<lambda>m. sm_Name m \<noteq> '''' \<and> sm_ComposeURL m \<noteq> ''''
           \<and> validateHTTPURL env (sm_ComposeURL m) ''compose_url'' = None \<and> 0 \<le> sm_Timeout m) mappings)"
proof -
  have "mapping_ok env = (\<lambda>m. sm_Name m \<noteq> '''' \<and> sm_ComposeURL m \<noteq> ''''
           \<and> validateHTTPURL env (sm_ComposeURL m) ''compose_url'' = None \<and> 0 \<le> sm_Timeout m)"
    by (simp add: mapping_ok_def fun_eq_iff)
  then show ?thesis
    using validate_loop_None [of env 0 "[]" mappings] by (auto simp: validateMappings_def)
qed

end
