(* ===== verification/Coordinator.thy ===== *)
theory Coordinator
  imports Runner Config
begin

text \<open>
  \<open>internal/coordinator\<close>: one runner per stack over one store. The first part builds the runners
  from the configuration as \<open>spawnRunner\<close> does and runs them; a goroutine is one step there, since
  it touches the coordinator's maps only under its own name. What the goroutines do share is the
  store: the second part lets their critical sections interleave, call by call, as a step
  relation, with the mutex they take.
\<close>

section \<open>The coordinator\<close>

text \<open>
  \<open>co_cancel\<close> and \<open>co_done\<close>: whether the function that ends the context of the runners, and the
  channel that is closed when \<open>Run\<close> returns, are there.
\<close>

record 'w coordinator =
  co_logger :: "log_event \<Rightarrow> 'w \<Rightarrow> 'w"
  co_cfg :: config
  co_mappings :: "stack_mapping list"
  co_swarmClient :: "(string \<Rightarrow> 'w \<Rightarrow> (goerror + actual_state option) \<times> 'w) option"
  co_stateStore :: "'w store option"
  co_stateMu :: "'w mutex option"
  co_notifier :: "'w notifier option"
  co_cycleTracker :: "(int \<Rightarrow> int \<Rightarrow> 'w \<Rightarrow> 'w) option"
  co_metrics :: "'w metrics_ops option"
  co_alertStabilizationCycles :: int
  co_runners :: "'w runner gmap"
  co_runnerErrors :: "goerror gmap"
  co_cancel :: bool
  co_done :: bool

type_synonym 'w coordinator_option = "'w coordinator \<Rightarrow> 'w coordinator"

definition NewCoordinator ::
  "(log_event \<Rightarrow> 'w \<Rightarrow> 'w) \<Rightarrow> config \<Rightarrow> stack_mapping list \<Rightarrow>
   (string \<Rightarrow> 'w \<Rightarrow> (goerror + actual_state option) \<times> 'w) option \<Rightarrow> 'w coordinator_option list \<Rightarrow> 'w coordinator"
  where
  "NewCoordinator logger cfg mappings swarmClient opts = fold (\<lambda>opt c. opt c) opts
     \<lparr>co_logger = logger, co_cfg = cfg, co_mappings = mappings, co_swarmClient = swarmClient,
      co_stateStore = None, co_stateMu = None, co_notifier = None, co_cycleTracker = None,
      co_metrics = None, co_alertStabilizationCycles = 0, co_runners = [], co_runnerErrors = [],
      co_cancel = False, co_done = False\<rparr>"

definition CoWithStateStore :: "'w store option \<Rightarrow> 'w mutex option \<Rightarrow> 'w coordinator_option" where
  "CoWithStateStore store lock c = c\<lparr>co_stateStore := store, co_stateMu := lock\<rparr>"

definition CoWithNotifier ::
  "'w notifier option \<Rightarrow> 'w coordinator_option" where
  "CoWithNotifier notifier c = c\<lparr>co_notifier := notifier\<rparr>"

definition CoWithCycleTracker :: "(int \<Rightarrow> int \<Rightarrow> 'w \<Rightarrow> 'w) option \<Rightarrow> 'w coordinator_option" where
  "CoWithCycleTracker tracker c = c\<lparr>co_cycleTracker := tracker\<rparr>"

definition CoWithMetrics :: "'w metrics_ops option \<Rightarrow> 'w coordinator_option" where
  "CoWithMetrics metricsCollector c = c\<lparr>co_metrics := metricsCollector\<rparr>"

definition CoWithAlertStabilizationCycles :: "int \<Rightarrow> 'w coordinator_option" where
  "CoWithAlertStabilizationCycles cycles c = c\<lparr>co_alertStabilizationCycles := cycles\<rparr>"

section \<open>Spawning a runner\<close>

definition stack_timeout :: "'w coordinator \<Rightarrow> stack_mapping \<Rightarrow> int" where
  "stack_timeout c m = (if sm_Timeout m > 0 then sm_Timeout m else cg_ComposeTimeout (co_cfg c))"

definition runner_options ::
  "'w coordinator \<Rightarrow> stack_mapping \<Rightarrow> (string \<Rightarrow> 'w \<Rightarrow> (goerror + fetch_result) \<times> 'w) \<Rightarrow> 'w runner_option list"
  where
  "runner_options c m fetcher =
     [WithComposeFetcher (Some fetcher), WithSwarmClient (co_swarmClient c), WithStackName (sm_Name m)]
     @ (if co_stateStore c \<noteq> None then [WithStateStore (co_stateStore c) (co_stateMu c)] else [])
     @ (if co_notifier c \<noteq> None then [WithNotifier (co_notifier c)] else [])
     @ (if co_cycleTracker c \<noteq> None then [WithCycleTracker (co_cycleTracker c)] else [])
     @ (if co_metrics c \<noteq> None then [WithMetrics (co_metrics c)] else [])
     @ (if co_alertStabilizationCycles c > 0
        then [WithAlertStabilizationCycles (co_alertStabilizationCycles c)] else [])
     @ (if length (co_mappings c) > 0 then [WithStacksEvaluated (int (length (co_mappings c)))] else [])"

text \<open>The logger of a stack writes its name with every event.\<close>

definition stackLogger :: "'w coordinator \<Rightarrow> stack_mapping \<Rightarrow> log_event \<Rightarrow> 'w \<Rightarrow> 'w" where
  "stackLogger c m ev = co_logger c (ev\<lparr>lg_Fields := (''stack'', LStr (sm_Name m)) # lg_Fields ev\<rparr>)"

text \<open>\<open>env\<close>: the HTTP library, the context, the ticker and the mutexes that \<open>New\<close> would make.\<close>

record 'w spawn_env =
  se_sys :: "'w sys"
  se_api :: "'w http_api"
  se_ticker :: "'w ticker_factory"
  se_mutex :: "string \<Rightarrow> 'w mutex"

definition build_runner :: "'w spawn_env \<Rightarrow> 'w coordinator \<Rightarrow> stack_mapping \<Rightarrow> goerror + 'w runner" where
  "build_runner env c m =
     (case NewHTTPFetcher (sm_ComposeURL m) (stack_timeout c m) 0 [] of
        Inl err \<Rightarrow> Inl err
      | Inr f \<Rightarrow> Inr (NewRunner (stackLogger c m) (cg_PollInterval (co_cfg c)) (se_ticker env)
          (se_mutex env (sm_Name m))
          (runner_options c m (Fetch (sy_ctx (se_sys env)) (se_api env) f))))"

definition recordError :: "string \<Rightarrow> goerror \<Rightarrow> 'w coordinator \<Rightarrow> 'w coordinator" where
  "recordError stackName err c = c\<lparr>co_runnerErrors := mput stackName err (co_runnerErrors c)\<rparr>"

text \<open>
  \<open>events\<close> is what the selects of the runner receive; the first component says whether the
  goroutine has come to its end. \<open>None\<close>: it hangs in a cycle.
\<close>

definition spawnRunner ::
  "'w spawn_env \<Rightarrow> run_event list \<Rightarrow> stack_mapping \<Rightarrow> 'w coordinator \<Rightarrow> 'w \<Rightarrow>
   (bool \<times> 'w coordinator \<times> 'w) option" where
  "spawnRunner env events m c w =
     (case build_runner env c m of
        Inl err \<Rightarrow>
          Some (True, recordError (sm_Name m) err c, stackLogger c m (log_event_of LError
             ''failed to initialize compose fetcher'' [(''error'', LErr err)]) w)
      | Inr r \<Rightarrow>
          (case Run (se_sys env) events r (stackLogger c m (log_event_of LInfo ''runner started'' []) w) of
             Hanging \<Rightarrow> None
           | Waiting (r1, w1) \<Rightarrow> Some (False, c\<lparr>co_runners := mput (sm_Name m) r1 (co_runners c)\<rparr>, w1)
           | Returned (Some err) (r1, w1) \<Rightarrow>
               Some (True, recordError (sm_Name m) err (c\<lparr>co_runners := mput (sm_Name m) r1 (co_runners c)\<rparr>),
                stackLogger c m (log_event_of LError ''runner exited with error'' [(''error'', LErr err)]) w1)
           | Returned None (r1, w1) \<Rightarrow>
               Some (True, c\<lparr>co_runners := mput (sm_Name m) r1 (co_runners c)\<rparr>,
                stackLogger c m (log_event_of LInfo ''runner exited cleanly'' []) w1)))"

fun spawn_all ::
  "'w spawn_env \<Rightarrow> (string \<Rightarrow> run_event list) \<Rightarrow> stack_mapping list \<Rightarrow> 'w coordinator \<Rightarrow> 'w \<Rightarrow>
   (bool \<times> 'w coordinator \<times> 'w) option" where
  "spawn_all env events [] c w = Some (True, c, w)"
| "spawn_all env events (m # ms) c w =
     (case spawnRunner env (events (sm_Name m)) m c w of
        None \<Rightarrow> None
      | Some (done1, c1, w1) \<Rightarrow>
          map_option (\<lambda>(done2, c2, w2). (done1 \<and> done2, c2, w2)) (spawn_all env events ms c1 w1))"

text \<open>
  \<open>Run\<close> returns, with no error, once every goroutine has ended; until then it waits. While it runs,
  \<open>cancel\<close> and \<open>done\<close> are set.
\<close>

definition coordinator_Run ::
  "'w spawn_env \<Rightarrow> (string \<Rightarrow> run_event list) \<Rightarrow> 'w coordinator \<Rightarrow> 'w \<Rightarrow> ('w coordinator \<times> 'w) run_result" where
  "coordinator_Run env events c w =
     (let w0 = co_logger c (log_event_of LInfo ''starting coordinator''
            [(''stacks'', LInt (int (length (co_mappings c))))]) w
      in case spawn_all env events (co_mappings c) (c\<lparr>co_cancel := True, co_done := True\<rparr>) w0 of
           None \<Rightarrow> Hanging
         | Some (False, c1, w1) \<Rightarrow> Waiting (c1, w1)
         | Some (True, c1, w1) \<Rightarrow>
             (let w2 = co_logger c1 (log_event_of LInfo ''all runners stopped'' []) w1
              in Returned None (c1\<lparr>co_cancel := False, co_done := False\<rparr>, fold (\<lambda>(stack, err). co_logger c1 (log_event_of LError ''runner error''
                   [(''error'', LErr err), (''stack'', LStr stack)])) (co_runnerErrors c1) w2)))"

text \<open>
  \<open>Stop\<close>, called at the state \<open>s\<close> that the run of \<open>c\<close> from \<open>w\<close> with \<open>events\<close> has reached. Cancelling
  is one more event for every runner, the end of its context; then \<open>Stop\<close> waits for the run.
\<close>

definition Stop ::
  "'w spawn_env \<Rightarrow> (string \<Rightarrow> run_event list) \<Rightarrow> 'w coordinator \<Rightarrow> 'w \<Rightarrow> 'w coordinator \<times> 'w \<Rightarrow>
   ('w coordinator \<times> 'w) run_result" where
  "Stop env events c w s =
     (if co_done (fst s)
      then coordinator_Run env (\<lambda>k. events k @ (if co_cancel (fst s) then [CtxDone] else [])) c w
      else Returned None s)"

definition GetRunners :: "'w coordinator \<Rightarrow> 'w runner gmap" where
  "GetRunners c = fold (\<lambda>(k, v). mput k v) (co_runners c) []"

section \<open>Interleaving\<close>

text \<open>
  Where a runner is in its critical section, what it has loaded there, the holder of the mutex, and
  as a ghost the map of the snapshots whose \<open>Save\<close> has succeeded, the latest for each stack.
  \<open>shared\<close> says whether the runners were given one mutex or each made its own.
\<close>

datatype phase = Outside | Entered | HasLoaded gostate | Finished

record 'w csystem =
  cy_world :: 'w
  cy_holder :: "string option"
  cy_phase :: "string \<Rightarrow> phase"
  cy_committed :: "string \<Rightarrow> stack_snapshot option"

inductive cstep ::
  "bool \<Rightarrow> 'w store \<Rightarrow> (stack_snapshot \<Rightarrow> bool) \<Rightarrow> 'w csystem \<Rightarrow> 'w csystem \<Rightarrow> bool"
  for shared store valid_snapshot where
  acquire: "cy_phase s k = Outside \<Longrightarrow> (if shared then cy_holder s = None else True) \<Longrightarrow>
    cstep shared store valid_snapshot s
      (s\<lparr>cy_holder := Some k, cy_phase := (cy_phase s)(k := Entered)\<rparr>)"
| loads: "cy_phase s k = Entered \<Longrightarrow> st_Load store (cy_world s) = (Inr st, w') \<Longrightarrow>
    cstep shared store valid_snapshot s
      (s\<lparr>cy_world := w', cy_phase := (cy_phase s)(k := HasLoaded st)\<rparr>)"
| load_fails: "cy_phase s k = Entered \<Longrightarrow> st_Load store (cy_world s) = (Inl e, w') \<Longrightarrow>
    cstep shared store valid_snapshot s
      (s\<lparr>cy_world := w', cy_phase := (cy_phase s)(k := Finished)\<rparr>)"
| saves: "cy_phase s k = HasLoaded st \<Longrightarrow> valid_snapshot sn \<Longrightarrow>
    st_Save store (put_stack k sn st) (cy_world s) = (None, w') \<Longrightarrow>
    cstep shared store valid_snapshot s
      (s\<lparr>cy_world := w', cy_phase := (cy_phase s)(k := Finished),
         cy_committed := (cy_committed s)(k \<mapsto> norm_snapshot sn)\<rparr>)"
| save_fails: "cy_phase s k = HasLoaded st \<Longrightarrow> valid_snapshot sn \<Longrightarrow>
    st_Save store (put_stack k sn st) (cy_world s) = (Some e, w') \<Longrightarrow>
    cstep shared store valid_snapshot s
      (s\<lparr>cy_world := w', cy_phase := (cy_phase s)(k := Finished)\<rparr>)"
| release: "cy_phase s k = Finished \<Longrightarrow>
    cstep shared store valid_snapshot s
      (s\<lparr>cy_holder := None, cy_phase := (cy_phase s)(k := Outside)\<rparr>)"

definition cstart :: "('w \<Rightarrow> string \<Rightarrow> stack_snapshot option) \<Rightarrow> 'w \<Rightarrow> 'w csystem" where
  "cstart view w = \<lparr>cy_world = w, cy_holder = None, cy_phase = (\<lambda>k. Outside), cy_committed = view w\<rparr>"

text \<open>A runner's \<open>persist\<close> is such a sequence of steps, when nothing comes between.\<close>

lemma persist_is_steps:
  assumes "persist r store now h (cy_world s) = (res, w')" "cy_phase s (stackKey r) = Entered"
    and valid: "\<And>prev. valid_snapshot (snapshot_of (rn_composeHash r)
          (fst (stabilizeTransitions (rn_alertStabilizationCycles r) prev h)) now)"
  shows "\<exists>s'. (cstep shared store valid_snapshot)\<^sup>*\<^sup>* s s' \<and> cy_world s' = w'
    \<and> cy_phase s' (stackKey r) = Finished"
proof -
  let ?k = "stackKey r" and ?R = "cstep shared store valid_snapshot"
  obtain l w1 where l: "st_Load store (cy_world s) = (l, w1)" by fastforce
  show ?thesis
  proof (cases l)
    case (Inl e)
    with l assms(1) have w': "w' = w1" by (simp add: persist_def)
    have "?R s (s\<lparr>cy_world := w1, cy_phase := (cy_phase s)(?k := Finished)\<rparr>)"
      using l Inl assms(2) by (intro load_fails) simp_all
    with w' show ?thesis by (intro exI [of _ "s\<lparr>cy_world := w1, cy_phase := (cy_phase s)(?k := Finished)\<rparr>"]) auto
  next
    case (Inr st)
    let ?s1 = "s\<lparr>cy_world := w1, cy_phase := (cy_phase s)(?k := HasLoaded st)\<rparr>"
    have s1: "?R s ?s1" using l Inr assms(2) by (intro loads) simp_all
    let ?prev = "mget (nilmap (gs_Stacks st)) ?k"
    let ?sn = "snapshot_of (rn_composeHash r)
      (fst (stabilizeTransitions (rn_alertStabilizationCycles r) ?prev h)) now"
    obtain e w2 where sv: "st_Save store (put_stack ?k ?sn st) w1 = (e, w2)" by fastforce
    with assms(1) l Inr have w': "w' = w2"
      by (cases e) (simp_all add: persist_def Let_def case_prod_beta)
    have "\<exists>s2. ?R ?s1 s2 \<and> cy_world s2 = w2 \<and> cy_phase s2 ?k = Finished"
    proof (cases e)
      case None
      have "?R ?s1 (?s1\<lparr>cy_world := w2, cy_phase := (cy_phase ?s1)(?k := Finished),
          cy_committed := (cy_committed ?s1)(?k \<mapsto> norm_snapshot ?sn)\<rparr>)"
        by (rule saves [where st = st]) (use sv None valid in simp_all)
      then show ?thesis by force
    next
      case (Some err)
      have "?R ?s1 (?s1\<lparr>cy_world := w2, cy_phase := (cy_phase ?s1)(?k := Finished)\<rparr>)"
        by (rule save_fails [where st = st and sn = ?sn and e = err]) (use sv Some valid in simp_all)
      then show ?thesis by force
    qed
    then obtain s2 where s2: "?R ?s1 s2" "cy_world s2 = w2" "cy_phase s2 ?k = Finished" by blast
    from s1 s2(1) have "?R\<^sup>*\<^sup>* s s2" by (rule converse_rtranclp_into_rtranclp [OF _ r_into_rtranclp])
    with s2 w' show ?thesis by (intro exI [of _ s2]) simp
  qed
qed

context state_store
begin

definition cinv :: "'w csystem \<Rightarrow> bool" where
  "cinv s \<longleftrightarrow> inv (cy_world s) \<and> view (cy_world s) = cy_committed s
     \<and> (\<forall>k. (cy_phase s k \<noteq> Outside) = (cy_holder s = Some k))
     \<and> (\<forall>k st. cy_phase s k = HasLoaded st \<longrightarrow> valid st \<and> lookup st = view (cy_world s))"

lemma cinv_start: "inv w \<Longrightarrow> cinv (cstart view w)"
  by (simp add: cinv_def cstart_def)

lemma cinv_step:
  assumes "cstep True store valid_snapshot s s'" "cinv s"
  shows "cinv s'"
  using assms
proof (cases rule: cstep.cases)
  case (loads k st w')
  have i: "inv (cy_world s)" using assms(2) by (simp add: cinv_def)
  from load_inv [OF i loads(3)] load_view [OF i loads(3)] loads(1,2) assms(2) show ?thesis
    by (auto simp: cinv_def split: if_splits)
next
  case (load_fails k e w')
  have i: "inv (cy_world s)" using assms(2) by (simp add: cinv_def)
  from load_inv [OF i load_fails(3)] load_fails(1,2) assms(2) show ?thesis
    by (auto simp: cinv_def split: if_splits)
next
  case (saves k st sn w')
  have st: "inv (cy_world s)" "valid st" "lookup st = cy_committed s"
    using assms(2) saves(2) by (auto simp: cinv_def)
  from save_ok [OF st(1) valid_put [OF st(2) saves(3)] saves(4)]
  have "inv w'" "view w' = (cy_committed s)(k \<mapsto> norm_snapshot sn)"
    by (simp_all add: lookup_put_stack st(3))
  with saves(1,2) assms(2) show ?thesis
    by (auto simp: cinv_def split: if_splits) (metis option.sel phase.distinct(3))+
next
  case (save_fails k st sn e w')
  have i: "inv (cy_world s)" using assms(2) by (simp add: cinv_def)
  from save_error [OF i save_fails(4)] save_fails(1,2) assms(2) show ?thesis
    by (auto simp: cinv_def split: if_splits)
next
  case (release k)
  have "cy_phase s k' = Outside" if "k' \<noteq> k" for k'
  proof -
    from assms(2) release(2) have "cy_holder s = Some k" by (auto simp: cinv_def)
    with assms(2) that show ?thesis unfolding cinv_def by fastforce
  qed
  with release(1) assms(2) show ?thesis by (auto simp: cinv_def)
qed (auto simp: cinv_def split: if_splits)

lemma no_lost_update:
  assumes "inv w" "(cstep True store valid_snapshot)\<^sup>*\<^sup>* (cstart view w) s"
  shows "view (cy_world s) = cy_committed s"
proof -
  have "cinv s" using assms(2)
    by (induction rule: rtranclp_induct) (use cinv_start [OF assms(1)] cinv_step in auto)
  then show ?thesis by (simp add: cinv_def)
qed

end

section \<open>What the runners have in common\<close>

lemma fold_option_if: "fold (\<lambda>opt r. opt r) (if b then [f] else []) r = (if b then f r else r)"
  by simp

lemmas runner_option_defs = WithComposeFetcher_def WithSwarmClient_def WithStackName_def
  WithStateStore_def WithNotifier_def WithCycleTracker_def WithMetrics_def
  WithAlertStabilizationCycles_def WithStacksEvaluated_def

lemma build_runner_fields:
  assumes "build_runner env c m = Inr r"
  shows "rn_stackName r = sm_Name m" "rn_stateStore r = co_stateStore c"
    "rn_pollInterval r = cg_PollInterval (co_cfg c)" "rn_runOnce r = None"
    "rn_stateMu r = (if co_stateStore c = None then None else
       (case co_stateMu c of None \<Rightarrow> Some (se_mutex env (sm_Name m)) | Some mu \<Rightarrow> Some mu))"
    "rn_alertStabilizationCycles r = (if co_alertStabilizationCycles c > 0
       then co_alertStabilizationCycles c else 1)"
    "rn_notifier r = co_notifier c" "rn_swarmClient r = co_swarmClient c"
proof -
  obtain f where "r = NewRunner (stackLogger c m) (cg_PollInterval (co_cfg c)) (se_ticker env)
      (se_mutex env (sm_Name m)) (runner_options c m f)"
    using assms by (auto simp: build_runner_def split: sum.splits)
  note r = this [unfolded NewRunner_def runner_options_def fold_append comp_def fold_option_if Let_def
      runner_option_defs]
  note dist = if_distrib [of rn_stackName] if_distrib [of rn_stateStore] if_distrib [of rn_pollInterval]
    if_distrib [of rn_runOnce] if_distrib [of rn_stateMu] if_distrib [of rn_alertStabilizationCycles]
    if_distrib [of rn_notifier] if_distrib [of rn_swarmClient]
  show "rn_stackName r = sm_Name m" "rn_stateStore r = co_stateStore c"
    "rn_pollInterval r = cg_PollInterval (co_cfg c)" "rn_runOnce r = None"
    "rn_alertStabilizationCycles r = (if co_alertStabilizationCycles c > 0
       then co_alertStabilizationCycles c else 1)"
    "rn_notifier r = co_notifier c" "rn_swarmClient r = co_swarmClient c"
    unfolding r by (simp_all add: dist cong: if_cong)
  show "rn_stateMu r = (if co_stateStore c = None then None else
       (case co_stateMu c of None \<Rightarrow> Some (se_mutex env (sm_Name m)) | Some mu \<Rightarrow> Some mu))"
    unfolding r by (cases "co_stateStore c"; cases "co_stateMu c") (simp_all add: dist cong: if_cong)
qed

lemma build_runner_accepts:
  assumes "TrimSpace (sm_ComposeURL m) \<noteq> ''''" "0 \<le> sm_Timeout m" "0 < cg_ComposeTimeout (co_cfg c)"
    and "HasPrefix (sm_ComposeURL m) ''http://'' \<or> HasPrefix (sm_ComposeURL m) ''https://''"
  shows "\<exists>r. build_runner env c m = Inr r"
  using assms by (auto simp: build_runner_def NewHTTPFetcher_def stack_timeout_def Let_def)

text \<open>
  A mapping that the configuration accepts but whose URL is not spelt with a lower-case scheme
  (\<open>url.Parse\<close> lowers it) is refused by the fetcher: its stack is not monitored, and the
  coordinator goes on.
\<close>

lemma upper_case_scheme_unmonitored:
  assumes "sm_ComposeURL m = ''HTTP://c/x.yml''"
  shows "spawnRunner env events m c w =
    Some (True, recordError (sm_Name m) (PlainErr ''compose url must use http or https scheme'') c,
     co_logger c (log_event_of LError ''failed to initialize compose fetcher''
       [(''stack'', LStr (sm_Name m)), (''error'', LErr (PlainErr ''compose url must use http or https scheme''))]) w)"
  using assms by (simp add: spawnRunner_def build_runner_def NewHTTPFetcher_def stackLogger_def log_event_of_def str_defs)

section \<open>Properties\<close>

text \<open>
  C28. Runners that may run side by side are kept apart. For the stacks of an accepted mapping file,
  the runners that \<open>spawnRunner\<close> builds use the coordinator's store, and its mutex when it has one;
  and two of them have the same key in that store only if they are for the same mapping.
\<close>

theorem runners_share_lock_not_keys:
  assumes "validateMappings env' (co_mappings c) = None" "co_stateStore c = Some store"
    and "co_stateMu c = Some mu" "m \<in> set (co_mappings c)" "m' \<in> set (co_mappings c)"
    and "build_runner env c m = Inr r" "build_runner env c m' = Inr r'"
  shows "rn_stateStore r = Some store \<and> rn_stateMu r = Some mu \<and> rn_stateMu r' = Some mu
    \<and> (stackKey r = stackKey r') = (m = m')"
proof -
  note ok = validate_loop_None [of env' 0 "[]" "co_mappings c"]
  have "distinct (map sm_Name (co_mappings c))" "list_all (mapping_ok env') (co_mappings c)"
    using assms(1) ok by (auto simp: validateMappings_def split: if_splits)
  then have inj: "sm_Name m = sm_Name m' \<Longrightarrow> m = m'" and ne: "sm_Name m \<noteq> ''''" "sm_Name m' \<noteq> ''''"
    using assms(4,5) by (auto simp: distinct_map inj_on_def list_all_iff mapping_ok_def)
  have "stackKey r = sm_Name m" "stackKey r' = sm_Name m'"
    using build_runner_fields(1) [OF assms(6)] build_runner_fields(1) [OF assms(7)] ne
    by (simp_all add: stackKey_def)
  with inj assms(2,3) build_runner_fields(2,5) [OF assms(6)] build_runner_fields(2,5) [OF assms(7)]
  show ?thesis by auto
qed

definition demo_mapping :: "string \<Rightarrow> stack_mapping" where
  "demo_mapping name = \<lparr>sm_Name = name, sm_ComposeURL = ''http://c/x.yml'', sm_Timeout = 0\<rparr>"

definition demo_mutex :: "'w mutex" where
  "demo_mutex = \<lparr>mu_Lock = (\<lambda>w. w), mu_Unlock = (\<lambda>w. w)\<rparr>"

definition demo_store :: "nat store" where
  "demo_store = \<lparr>st_Load = (\<lambda>w. (Inr fresh_state, w)), st_Save = (\<lambda>s w. (None, w + 1))\<rparr>"

definition demo_coordinator :: "nat coordinator" where
  "demo_coordinator = NewCoordinator demo_logger default_config [demo_mapping ''a'', demo_mapping ''b''] None
     [CoWithStateStore (Some demo_store) (Some demo_mutex)]"

definition demo_spawn :: "nat spawn_env" where
  "demo_spawn = \<lparr>se_sys = demo_sys, se_api = demo_api,
     se_ticker = \<lparr>tf_New = (\<lambda>d w. w), tf_Stop = (\<lambda>w. w)\<rparr>, se_mutex = (\<lambda>k. demo_mutex)\<rparr>"

lemma demo_coordinator_simps [simp]:
  "co_mappings demo_coordinator = [demo_mapping ''a'', demo_mapping ''b'']"
  "co_stateStore demo_coordinator = Some demo_store" "co_stateMu demo_coordinator = Some demo_mutex"
  "co_cfg demo_coordinator = default_config"
  by (simp_all add: demo_coordinator_def NewCoordinator_def CoWithStateStore_def)

lemma runners_share_lock_not_keys_witness:
  "\<exists>r r'. build_runner demo_spawn demo_coordinator (demo_mapping ''a'') = Inr r
     \<and> build_runner demo_spawn demo_coordinator (demo_mapping ''b'') = Inr r'
     \<and> rn_stateMu r = rn_stateMu r' \<and> stackKey r \<noteq> stackKey r'"
proof -
  have "\<exists>r. build_runner demo_spawn demo_coordinator (demo_mapping n) = Inr r" for n
    by (rule build_runner_accepts) (simp_all add: demo_mapping_def default_config_def Second_def str_defs)
  then obtain r r' where r: "build_runner demo_spawn demo_coordinator (demo_mapping ''a'') = Inr r"
    "build_runner demo_spawn demo_coordinator (demo_mapping ''b'') = Inr r'" by blast
  have "validateMappings demo_env (co_mappings demo_coordinator) = None"
    using validate_loop_None [of demo_env 0 "[]" "co_mappings demo_coordinator"]
    by (auto simp: validateMappings_def mapping_ok_def demo_mapping_def validateHTTPURL_None blockedHosts_def
        demo_env_def demo_parse_url_def str_defs)
  from runners_share_lock_not_keys [OF this _ _ _ _ r] r show ?thesis by (auto simp: demo_mapping_def)
qed

text \<open>
  C3. No update is lost. However the critical sections of any number of runners interleave, load by
  load and save by save, with failures anywhere: when they share one mutex, the file holds for
  every stack the snapshot of its last successful save (and what it held at the start when there
  was none).
\<close>

theorem no_lost_updates:
  assumes "file_inv time_ok path w"
    and "(cstep True (NewFileStore time_ok path) (snapshot_ok time_ok))\<^sup>*\<^sup>*
           (cstart (file_view time_ok path) w) s"
  shows "file_view time_ok path (cy_world s) = cy_committed s"
  using file_store.no_lost_update [OF assms] .

text \<open>Two sections, one after the other or overlapping, as a run of the step relation.\<close>

lemma two_loads:
  assumes "st_Load store w = (Inr st, w1)" "st_Load store w1 = (Inr st', w2)" "a \<noteq> b"
    and "ok sna" "ok snb" "st_Save store (put_stack a sna st) w2 = (None, w3)"
    and "st_Save store (put_stack b snb st') w3 = (None, w4)"
  shows "\<exists>s. (cstep False store ok)\<^sup>*\<^sup>* (cstart view w) s \<and> cy_world s = w4
    \<and> cy_committed s = (view w)(a \<mapsto> norm_snapshot sna, b \<mapsto> norm_snapshot snb)"
proof -
  let ?R = "cstep False store ok" and ?s0 = "cstart view w"
  let ?s1 = "?s0\<lparr>cy_holder := Some a, cy_phase := (cy_phase ?s0)(a := Entered)\<rparr>"
  let ?s2 = "?s1\<lparr>cy_holder := Some b, cy_phase := (cy_phase ?s1)(b := Entered)\<rparr>"
  let ?s3 = "?s2\<lparr>cy_world := w1, cy_phase := (cy_phase ?s2)(a := HasLoaded st)\<rparr>"
  let ?s4 = "?s3\<lparr>cy_world := w2, cy_phase := (cy_phase ?s3)(b := HasLoaded st')\<rparr>"
  let ?s5 = "?s4\<lparr>cy_world := w3, cy_phase := (cy_phase ?s4)(a := Finished),
    cy_committed := (cy_committed ?s4)(a \<mapsto> norm_snapshot sna)\<rparr>"
  let ?s6 = "?s5\<lparr>cy_world := w4, cy_phase := (cy_phase ?s5)(b := Finished),
    cy_committed := (cy_committed ?s5)(b \<mapsto> norm_snapshot snb)\<rparr>"
  have 1: "?R ?s0 ?s1" by (rule acquire) (simp_all add: cstart_def)
  have 2: "?R ?s1 ?s2" by (rule acquire) (use assms(3) in \<open>simp_all add: cstart_def\<close>)
  have 3: "?R ?s2 ?s3" by (rule loads) (use assms(1,3) in \<open>simp_all add: cstart_def\<close>)
  have 4: "?R ?s3 ?s4" by (rule loads) (use assms(2,3) in \<open>simp_all add: cstart_def\<close>)
  have 5: "?R ?s4 ?s5" by (rule saves [where st = st]) (use assms(3,4,6) in simp_all)
  have 6: "?R ?s5 ?s6" by (rule saves [where st = st']) (use assms(3,5,7) in simp_all)
  from 1 2 3 4 5 6 have "?R\<^sup>*\<^sup>* ?s0 ?s6" by (meson converse_rtranclp_into_rtranclp r_into_rtranclp)
  moreover have "cy_world ?s6 = w4" "cy_committed ?s6 = (view w)(a \<mapsto> norm_snapshot sna, b \<mapsto> norm_snapshot snb)"
    by (simp_all add: cstart_def)
  ultimately show ?thesis by blast
qed

definition demo_sn :: stack_snapshot where
  "demo_sn = snapshot_of ''fp'' [] ''t''"

lemma demo_sn_ok: "snapshot_ok (\<lambda>t. True) demo_sn"
  by (simp add: snapshot_ok_def demo_sn_def snapshot_of_def)

abbreviation demo_fs :: "file_world store" where
  "demo_fs \<equiv> NewFileStore (\<lambda>t. True) ''/data/state.json''"

lemma demo_load:
  assumes "fw_answers w = fw_answers demo_world"
  shows "\<exists>st. st_Load demo_fs w = (Inr st, w)"
proof -
  have "next_call (fw_answers w) = fw_answers w" using assms by (simp add: next_call_def demo_world_def)
  moreover have "\<exists>st. Load (\<lambda>t. True) (fw_answers w 0) ''/data/state.json'' (fw_fs w) = Inr st"
    using assms by (auto simp: Load_def ReadFile_def demo_world_def demo_os_def is_not_exist_def not_exist_def
        plain_lib_def split: option.splits file_content.splits)
  ultimately show ?thesis by (auto simp: NewFileStore_def FileStore_Load_def)
qed

lemma demo_save:
  assumes "fw_answers w = fw_answers demo_world" "fw_fs w ''/data/.state-1.json'' = None"
  shows "\<exists>w'. st_Save demo_fs s w = (None, w') \<and> fw_answers w' = fw_answers demo_world
    \<and> fw_fs w' ''/data/.state-1.json'' = None"
  using assms by (simp add: NewFileStore_def FileStore_Save_def Save_result_def Save_def demo_world_def demo_os_def
      next_call_def Let_def case_prod_beta)

lemma no_lost_updates_witness:
  "\<exists>s. (cstep True demo_fs (snapshot_ok (\<lambda>t. True)))\<^sup>*\<^sup>*
      (cstart (file_view (\<lambda>t. True) ''/data/state.json'') demo_world) s
    \<and> file_view (\<lambda>t. True) ''/data/state.json'' (cy_world s) ''a'' = Some (norm_snapshot demo_sn)"
proof -
  let ?V = "file_view (\<lambda>t. True) ''/data/state.json''" and ?ok = "snapshot_ok (\<lambda>t. True)"
  let ?s0 = "cstart ?V demo_world" and ?R = "cstep True demo_fs (snapshot_ok (\<lambda>t. True))"
  obtain st where st: "st_Load demo_fs demo_world = (Inr st, demo_world)" using demo_load [OF refl] by blast
  obtain w' where w': "st_Save demo_fs (put_stack ''a'' demo_sn st) demo_world = (None, w')"
    using demo_save [of demo_world] by (auto simp: demo_world_def)
  let ?s1 = "?s0\<lparr>cy_holder := Some ''a'', cy_phase := (cy_phase ?s0)(''a'' := Entered)\<rparr>"
  let ?s2 = "?s1\<lparr>cy_world := demo_world, cy_phase := (cy_phase ?s1)(''a'' := HasLoaded st)\<rparr>"
  let ?s3 = "?s2\<lparr>cy_world := w', cy_phase := (cy_phase ?s2)(''a'' := Finished),
    cy_committed := (cy_committed ?s2)(''a'' \<mapsto> norm_snapshot demo_sn)\<rparr>"
  have 1: "?R ?s0 ?s1" by (rule acquire) (simp_all add: cstart_def)
  have 2: "?R ?s1 ?s2" by (rule loads) (use st in \<open>simp_all add: cstart_def\<close>)
  have 3: "?R ?s2 ?s3" by (rule saves [where st = st]) (use w' demo_sn_ok in simp_all)
  from 1 2 3 have run: "?R\<^sup>*\<^sup>* ?s0 ?s3" by (meson converse_rtranclp_into_rtranclp r_into_rtranclp)
  from no_lost_updates [OF demo_world_inv run] have "?V (cy_world ?s3) ''a'' = Some (norm_snapshot demo_sn)"
    by simp
  with run show ?thesis by blast
qed

text \<open>
  The shared mutex is needed: when every runner makes its own (a store without a lock), there is
  a run in which both saves succeed and one of them is lost from the file.
\<close>

theorem private_mutexes_lose_updates:
  "\<exists>s. (cstep False (NewFileStore (\<lambda>t. True) ''/data/state.json'') (snapshot_ok (\<lambda>t. True)))\<^sup>*\<^sup>*
      (cstart (file_view (\<lambda>t. True) ''/data/state.json'') demo_world) s
    \<and> cy_committed s ''a'' \<noteq> None
    \<and> file_view (\<lambda>t. True) ''/data/state.json'' (cy_world s) ''a'' = None"
proof -
  let ?V = "file_view (\<lambda>t. True) ''/data/state.json''"
  obtain st where st: "st_Load demo_fs demo_world = (Inr st, demo_world)" using demo_load [OF refl] by blast
  obtain w1 where w1: "st_Save demo_fs (put_stack ''a'' demo_sn st) demo_world = (None, w1)"
    "fw_answers w1 = fw_answers demo_world" "fw_fs w1 ''/data/.state-1.json'' = None"
    using demo_save [of demo_world] by (auto simp: demo_world_def)
  obtain w2 where w2: "st_Save demo_fs (put_stack ''b'' demo_sn st) w1 = (None, w2)"
    using demo_save [OF w1(2,3)] by blast
  have ab: "''a'' \<noteq> ''b''" by simp
  from two_loads [where ok = "snapshot_ok (\<lambda>t. True)" and view = ?V,
      OF st st ab demo_sn_ok demo_sn_ok w1(1) w2] obtain s where
    s: "(cstep False demo_fs (snapshot_ok (\<lambda>t. True)))\<^sup>*\<^sup>* (cstart ?V demo_world) s" "cy_world s = w2"
    "cy_committed s = (?V demo_world)(''a'' \<mapsto> norm_snapshot demo_sn, ''b'' \<mapsto> norm_snapshot demo_sn)" by blast
  have inv1: "file_inv (\<lambda>t. True) ''/data/state.json'' w1" using demo_world_inv w1(2) by (simp add: file_inv_def)
  from file_store.load_view [OF demo_world_inv st] have v: "valid_state (\<lambda>t. True) st" "lookup st = ?V demo_world"
    by simp_all
  have eq: "?V w2 = lookup (put_stack ''b'' demo_sn st)"
    using file_store.save_ok [OF inv1 file_store.valid_put [OF v(1) demo_sn_ok] w2] by simp
  have "?V demo_world ''a'' = None"
    by (simp add: file_view_def demo_world_def Load_def ReadFile_def quiet_os_def is_not_exist_def
        not_exist_def plain_lib_def fresh_state_def lookup_def)
  with eq s(2) have "?V (cy_world s) ''a'' = None" by (simp add: lookup_put_stack v(2))
  moreover have "cy_committed s ''a'' \<noteq> None" using s(3) by simp
  ultimately show ?thesis using s(1) by blast
qed

section \<open>When the coordinator returns\<close>

definition run_ended :: "'s run_result \<Rightarrow> bool option" where
  "run_ended x = (case x of Returned e s \<Rightarrow> Some True | Waiting s \<Rightarrow> Some False | Hanging \<Rightarrow> None)"

lemma run_loop_returns:
  assumes "live r"
  shows "run_ended (run_loop sys events r w) = Some (CtxDone \<in> set events)"
  using assms
proof (induction sys events r w rule: run_loop.induct)
  case (3 sys events r w)
  from logged_RunOnce_live [OF "3.prems", of sys "''run cycle failed''" w] "3.IH" show ?case by fastforce
qed (simp_all add: run_ended_def)

lemma Run_returns:
  assumes "live r"
  shows "run_ended (Run sys events r w) = Some (rn_pollInterval r \<le> 0 \<or> CtxDone \<in> set events)"
proof -
  obtain r1 w1 where "logged_RunOnce sys ''initial run cycle failed'' r w = Some (r1, w1)" "live r1"
    using logged_RunOnce_live [OF assms] by blast
  then show ?thesis using run_loop_returns [of r1 sys events] by (simp add: Run_def run_ended_def)
qed

definition ends :: "'w spawn_env \<Rightarrow> 'w coordinator \<Rightarrow> (string \<Rightarrow> run_event list) \<Rightarrow> stack_mapping \<Rightarrow> bool" where
  "ends env c events m \<longleftrightarrow> (\<exists>err. build_runner env c m = Inl err) \<or> cg_PollInterval (co_cfg c) \<le> 0
     \<or> CtxDone \<in> set (events (sm_Name m))"

lemma build_runner_maps:
  "build_runner env (c\<lparr>co_runners := a, co_runnerErrors := b\<rparr>) m = build_runner env c m"
  "build_runner env (c\<lparr>co_runners := a\<rparr>) m = build_runner env c m"
  "build_runner env (c\<lparr>co_runnerErrors := b\<rparr>) m = build_runner env c m"
  "build_runner env (c\<lparr>co_cancel := x, co_done := y\<rparr>) m = build_runner env c m"
  by (simp_all add: build_runner_def runner_options_def stack_timeout_def stackLogger_def [abs_def] cong: sum.case_cong)

text \<open>What every goroutine leaves alone.\<close>

definition same_setup :: "'w coordinator \<Rightarrow> 'w coordinator \<Rightarrow> bool" where
  "same_setup c c' \<longleftrightarrow> (\<exists>a b. c' = c\<lparr>co_runners := a, co_runnerErrors := b\<rparr>)"

lemma same_setup_ends: "same_setup c c' \<Longrightarrow> ends env c' events = ends env c events"
  by (auto simp: same_setup_def ends_def fun_eq_iff build_runner_maps)

lemma same_setup_upd [simp]:
  "same_setup c (recordError n e (c\<lparr>co_runners := a\<rparr>))" "same_setup c (recordError n e c)"
  "same_setup c (c\<lparr>co_runners := a\<rparr>)"
  unfolding same_setup_def recordError_def
    apply (intro exI [of _ a] exI [of _ "mput n e (co_runnerErrors c)"], simp)
   apply (intro exI [of _ "co_runners c"] exI [of _ "mput n e (co_runnerErrors c)"], simp)
  apply (intro exI [of _ a] exI [of _ "co_runnerErrors c"], simp)
  done

lemma same_setup_refl: "same_setup c c"
  unfolding same_setup_def by (intro exI [of _ "co_runners c"] exI [of _ "co_runnerErrors c"]) simp

lemma same_setup_trans: "same_setup a b \<Longrightarrow> same_setup b c \<Longrightarrow> same_setup a c"
  unfolding same_setup_def by (elim exE, simp) blast

lemma same_setup_notifier: "same_setup c c' \<Longrightarrow> co_notifier c' = co_notifier c"
  by (auto simp: same_setup_def)

definition alerts_return :: "'w coordinator \<Rightarrow> bool" where
  "alerts_return c \<longleftrightarrow> (case co_notifier c of None \<Rightarrow> True | Some notify \<Rightarrow> returns notify)"

lemma spawnRunner_ends:
  assumes "alerts_return c"
  shows "\<exists>c' w'. spawnRunner env (events (sm_Name m)) m c w = Some (ends env c events m, c', w')
    \<and> same_setup c c'"
proof (cases "build_runner env c m")
  case (Inl err)
  then show ?thesis by (simp add: spawnRunner_def ends_def)
next
  case (Inr r)
  have live: "live r"
    using build_runner_fields(4,7) [OF Inr] assms by (simp add: live_def alerts_return_def)
  have "run_ended (Run (se_sys env) (events (sm_Name m)) r
      (stackLogger c m (log_event_of LInfo ''runner started'' []) w)) = Some (ends env c events m)"
    using Run_returns [OF live, of "se_sys env" "events (sm_Name m)"
      "stackLogger c m (log_event_of LInfo ''runner started'' []) w"] build_runner_fields(3) [OF Inr] Inr
    by (simp add: ends_def)
  with Inr show ?thesis
    by (auto simp: spawnRunner_def run_ended_def split: run_result.splits option.split)
qed

lemma spawn_all_ends:
  assumes "alerts_return c"
  shows "\<exists>c' w'. spawn_all env events ms c w = Some (list_all (ends env c events) ms, c', w')
    \<and> same_setup c c'"
  using assms
proof (induction ms arbitrary: c w)
  case (Cons m ms)
  obtain c' w' where s: "spawnRunner env (events (sm_Name m)) m c w = Some (ends env c events m, c', w')"
    "same_setup c c'"
    using spawnRunner_ends [OF Cons.prems] by blast
  then have "alerts_return c'" using Cons.prems same_setup_notifier [OF s(2)] by (simp add: alerts_return_def)
  from Cons.IH [OF this, of w'] s(1) same_setup_ends [OF s(2)] same_setup_trans [OF s(2)] show ?case by auto
qed (simp add: same_setup_refl)

lemma same_setup_flags: "same_setup c c' \<Longrightarrow> co_cancel c' = co_cancel c \<and> co_done c' = co_done c"
  by (auto simp: same_setup_def)

text \<open>The run up to its end, or up to where it waits; the two flags say which.\<close>

lemma coordinator_Run_ends:
  assumes "alerts_return c"
  shows "\<exists>c' w'. coordinator_Run env events c w =
      (if list_all (ends env c events) (co_mappings c) then Returned None (c', w') else Waiting (c', w'))
    \<and> co_cancel c' = (\<not> list_all (ends env c events) (co_mappings c))
    \<and> co_done c' = (\<not> list_all (ends env c events) (co_mappings c))"
proof -
  let ?c = "c\<lparr>co_cancel := True, co_done := True\<rparr>"
  have e: "ends env ?c events = ends env c events" by (simp add: ends_def fun_eq_iff build_runner_maps)
  have "alerts_return ?c" using assms by (simp add: alerts_return_def)
  from spawn_all_ends [OF this, of env events "co_mappings c"
      "co_logger c (log_event_of LInfo ''starting coordinator'' [(''stacks'', LInt (int (length (co_mappings c))))]) w"]
  obtain c' w' where s: "spawn_all env events (co_mappings c) ?c
      (co_logger c (log_event_of LInfo ''starting coordinator'' [(''stacks'', LInt (int (length (co_mappings c))))]) w)
     = Some (list_all (ends env c events) (co_mappings c), c', w')" "same_setup ?c c'"
    unfolding e by blast
  from s(2) have f: "co_cancel c' \<and> co_done c'" by (simp add: same_setup_flags)
  show ?thesis
  proof (cases "list_all (ends env c events) (co_mappings c)")
    case True
    with s(1) show ?thesis
      by (simp add: coordinator_Run_def Let_def)
  next
    case False
    with s(1) f show ?thesis by (simp add: coordinator_Run_def Let_def)
  qed
qed

text \<open>
  C35. When the notifier returns, \<open>Run\<close> of the coordinator never returns an error and never hangs: it
  returns exactly when every stack is at its end, which is when its runner could not be built, or
  its loop has received the end of the context (or the interval is not positive, which \<open>Load\<close>
  excludes), and waits otherwise. Failing cycles and failing stacks do not stop it.
\<close>

theorem coordinator_Run_returns:
  assumes "\<And>notify. co_notifier c = Some notify \<Longrightarrow> returns notify"
  shows "\<exists>s. coordinator_Run env events c w =
     (if list_all (\<lambda>m. (\<exists>err. build_runner env c m = Inl err) \<or> cg_PollInterval (co_cfg c) \<le> 0
          \<or> CtxDone \<in> set (events (sm_Name m))) (co_mappings c)
      then Returned None s else Waiting s)"
proof -
  have "alerts_return c" using assms by (simp add: alerts_return_def split: option.split)
  from coordinator_Run_ends [OF this, of env events w] show ?thesis by (auto simp: ends_def [abs_def])
qed

lemma coordinator_Run_returns_witness:
  "\<exists>s. coordinator_Run demo_spawn (\<lambda>k. [Tick]) demo_coordinator 0 = Waiting s"
proof -
  obtain r where "build_runner demo_spawn demo_coordinator (demo_mapping ''a'') = Inr r"
    using build_runner_accepts [of "demo_mapping ''a''" demo_coordinator demo_spawn]
    by (auto simp: demo_mapping_def default_config_def Second_def str_defs)
  moreover have "co_notifier demo_coordinator = None"
    by (simp add: demo_coordinator_def NewCoordinator_def CoWithStateStore_def)
  ultimately show ?thesis
    using coordinator_Run_returns [of demo_coordinator demo_spawn "\<lambda>k. [Tick]" 0]
    by (simp add: default_config_def Second_def)
qed

text \<open>
  \<open>Stop\<close> stops. Called while \<open>Run\<close> waits, with a notifier that returns, it returns once \<open>Run\<close> has
  returned, without an error, whatever the runners were doing; both fields are reset, so that
  calling \<open>Stop\<close> again does nothing.
\<close>

theorem Stop_stops:
  assumes "\<And>notify. co_notifier c = Some notify \<Longrightarrow> returns notify"
    and "coordinator_Run env events c w = Waiting s"
  shows "\<exists>s'. Stop env events c w s = Returned None s'
    \<and> coordinator_Run env (\<lambda>k. events k @ [CtxDone]) c w = Returned None s'
    \<and> Stop env events' c' w' s' = Returned None s'"
proof -
  have a: "alerts_return c" using assms(1) by (simp add: alerts_return_def split: option.split)
  have "list_all (ends env c (\<lambda>k. events k @ [CtxDone])) (co_mappings c)" by (simp add: ends_def list_all_iff)
  with coordinator_Run_ends [OF a, of env "\<lambda>k. events k @ [CtxDone]" w] obtain s' where
    s': "coordinator_Run env (\<lambda>k. events k @ [CtxDone]) c w = Returned None s'" "\<not> co_done (fst s')" by auto
  from coordinator_Run_ends [OF a, of env events w] assms(2) have "co_done (fst s)" "co_cancel (fst s)"
    by (auto split: if_splits)
  with s' show ?thesis by (simp add: Stop_def)
qed

lemma Stop_stops_witness:
  "\<exists>s s'. coordinator_Run demo_spawn (\<lambda>k. [Tick]) demo_coordinator 0 = Waiting s
     \<and> Stop demo_spawn (\<lambda>k. [Tick]) demo_coordinator 0 s = Returned None s'"
proof -
  obtain r where r: "build_runner demo_spawn demo_coordinator (demo_mapping ''a'') = Inr r"
    using build_runner_accepts [of "demo_mapping ''a''" demo_coordinator demo_spawn]
    by (auto simp: demo_mapping_def default_config_def Second_def str_defs)
  have n: "co_notifier demo_coordinator = None"
    by (simp add: demo_coordinator_def NewCoordinator_def CoWithStateStore_def)
  then have "alerts_return demo_coordinator" by (simp add: alerts_return_def)
  from coordinator_Run_ends [OF this, of demo_spawn "\<lambda>k. [Tick]" 0] r obtain s where
    "coordinator_Run demo_spawn (\<lambda>k. [Tick]) demo_coordinator 0 = Waiting s"
    by (auto simp: ends_def demo_mapping_def default_config_def Second_def)
  with Stop_stops [OF _ this] n show ?thesis by (metis option.simps(3))
qed

end
