(* ===== verification/Cycle.thy ===== *)
theory Cycle
  imports Coordinator
begin

text \<open>
  A whole cycle on a store that keeps its contract: what a \<open>RunOnce\<close> does to the map of snapshots.
  The functions a runner is given may do anything in the world except to that map: they \<open>keep\<close> it.
\<close>

section \<open>What does not touch the store\<close>

text \<open>The part of a runner that \<open>refresh_desired\<close> changes.\<close>

definition refreshed_from :: "'w runner \<Rightarrow> 'w runner \<Rightarrow> bool" where
  "refreshed_from r r1 \<longleftrightarrow> r1\<lparr>rn_composeETag := rn_composeETag r, rn_composeHash := rn_composeHash r,
     rn_lastDesiredState := rn_lastDesiredState r\<rparr> = r"

lemma refreshed_from_upd [simp]:
  "refreshed_from r r" "refreshed_from r (r\<lparr>rn_composeETag := a\<rparr>)"
  "refreshed_from r (r\<lparr>rn_composeHash := b\<rparr>)"
  "refreshed_from r (r\<lparr>rn_composeETag := a, rn_composeHash := b\<rparr>)"
  "refreshed_from r (r\<lparr>rn_composeHash := b, rn_lastDesiredState := c\<rparr>)"
  "refreshed_from r (r\<lparr>rn_composeETag := a, rn_composeHash := b, rn_lastDesiredState := c\<rparr>)"
  by (simp_all add: refreshed_from_def)

lemma refreshed_fields:
  assumes "refreshed_from r r1"
  shows "rn_logger r1 = rn_logger r" "rn_composeFetcher r1 = rn_composeFetcher r"
    "rn_swarmClient r1 = rn_swarmClient r" "rn_stateMu r1 = rn_stateMu r" "rn_metrics r1 = rn_metrics r"
    "rn_cycleTracker r1 = rn_cycleTracker r" "rn_notifier r1 = rn_notifier r" "rn_stackName r1 = rn_stackName r"
    "rn_stateStore r1 = rn_stateStore r" "rn_alertStabilizationCycles r1 = rn_alertStabilizationCycles r"
    "rn_runOnce r1 = rn_runOnce r" "rn_stacksEvaluated r1 = rn_stacksEvaluated r"
  using assms unfolding refreshed_from_def by (cases r1; cases r; simp)+

lemma refresh_desired_from: "refreshed_from r (snd (fst (refresh_desired sys r w)))"
  by (simp add: refresh_desired_def Let_def split: option.split prod.split sum.split)

text \<open>What the runner makes of its two states, and the map of snapshots with its verdict stored.\<close>

definition verdict_of :: "'w runner \<Rightarrow> desired_state \<Rightarrow> stack_health" where
  "verdict_of r desired = EvaluateStackHealth desired (rn_lastActualState r) (rn_stackName r \<noteq> '''')"

definition with_verdict ::
  "'w runner \<Rightarrow> desired_state \<Rightarrow> string \<Rightarrow> (string \<Rightarrow> stack_snapshot option) \<Rightarrow> string \<Rightarrow> stack_snapshot option" where
  "with_verdict r desired now v = v(stackKey r \<mapsto> norm_snapshot (snapshot_of (rn_composeHash r)
     (fst (stabilizeTransitions (rn_alertStabilizationCycles r) (v (stackKey r)) (verdict_of r desired))) now))"

definition keeps :: "('w \<Rightarrow> bool) \<Rightarrow> ('w \<Rightarrow> 'v) \<Rightarrow> ('w \<Rightarrow> 'w) \<Rightarrow> bool" where
  "keeps ok g f \<longleftrightarrow> (\<forall>w. if ok w then ok (f w) \<and> g (f w) = g w else True)"

lemma keepsD: "keeps ok g f \<Longrightarrow> ok w \<Longrightarrow> ok (f w) \<and> g (f w) = g w"
  by (simp add: keeps_def)

lemma keeps_id [simp]: "keeps ok g (\<lambda>w. w)"
  by (simp add: keeps_def)

lemma keeps_comp: "keeps ok g f \<Longrightarrow> keeps ok g f' \<Longrightarrow> keeps ok g (\<lambda>w. f' (f w))"
  by (simp add: keeps_def)

lemma keeps_fold: "(\<And>x. keeps ok g (f x)) \<Longrightarrow> keeps ok g (fold f xs)"
  by (induction xs) (simp_all add: keeps_def)

text \<open>Everything around the store of a runner keeps the map.\<close>

definition metrics_keep :: "('w \<Rightarrow> bool) \<Rightarrow> ('w \<Rightarrow> 'v) \<Rightarrow> 'w metrics_ops \<Rightarrow> bool" where
  "metrics_keep ok g m \<longleftrightarrow> keeps ok g (mo_IncDockerAPIErrors m) \<and> (\<forall>s l n. keeps ok g (mo_SetServicesTotal m s l n))
     \<and> (\<forall>s l. keeps ok g (mo_IncAlertsTotal m s l)) \<and> (\<forall>d. keeps ok g (mo_ObserveCycleDuration m d))
     \<and> (\<forall>t. keeps ok g (mo_SetLastSuccessfulCycleTimestamp m t))"

definition surroundings_keep :: "('w \<Rightarrow> bool) \<Rightarrow> ('w \<Rightarrow> 'v) \<Rightarrow> 'w sys \<Rightarrow> 'w runner \<Rightarrow> bool" where
  "surroundings_keep ok g sys r \<longleftrightarrow> (\<forall>ev. keeps ok g (rn_logger r ev)) \<and> keeps ok g (\<lambda>w. snd (sy_now sys w))
     \<and> (\<forall>fetch etag. rn_composeFetcher r \<noteq> Some fetch \<or> keeps ok g (\<lambda>w. snd (fetch etag w)))
     \<and> (\<forall>get s. rn_swarmClient r \<noteq> Some get \<or> keeps ok g (\<lambda>w. snd (get s w)))
     \<and> (\<forall>mu. rn_stateMu r \<noteq> Some mu \<or> keeps ok g (mu_Lock mu) \<and> keeps ok g (mu_Unlock mu))
     \<and> (\<forall>m. rn_metrics r \<noteq> Some m \<or> metrics_keep ok g m)
     \<and> (\<forall>record d n. rn_cycleTracker r \<noteq> Some record \<or> keeps ok g (record d n))
     \<and> (\<forall>notify s ts. rn_notifier r \<noteq> Some notify
          \<or> keeps ok g (\<lambda>w. case notify s ts w of None \<Rightarrow> w | Some (e, w') \<Rightarrow> w'))"

lemma surroundings:
  assumes "surroundings_keep ok g sys r"
  shows "keeps ok g (rn_logger r ev)" "keeps ok g (\<lambda>w. snd (sy_now sys w))"
    "rn_composeFetcher r = Some fetch \<Longrightarrow> keeps ok g (\<lambda>w. snd (fetch etag w))"
    "rn_swarmClient r = Some get \<Longrightarrow> keeps ok g (\<lambda>w. snd (get s w))"
    "rn_stateMu r = Some mu \<Longrightarrow> keeps ok g (mu_Lock mu) \<and> keeps ok g (mu_Unlock mu)"
    "rn_metrics r = Some m \<Longrightarrow> metrics_keep ok g m"
    "rn_cycleTracker r = Some record \<Longrightarrow> keeps ok g (record d n)"
    "rn_notifier r = Some notify \<Longrightarrow> keeps ok g (\<lambda>w. case notify s ts w of None \<Rightarrow> w | Some (e, w') \<Rightarrow> w')"
  using assms unfolding surroundings_keep_def by blast+

lemma surroundings_refreshed:
  "refreshed_from r r1 \<Longrightarrow> surroundings_keep ok g sys r1 = surroundings_keep ok g sys r"
  "surroundings_keep ok g sys (r\<lparr>rn_lastActualState := a\<rparr>) = surroundings_keep ok g sys r"
  by (simp_all add: surroundings_keep_def refreshed_fields)

lemma keeps_by: "keeps (\<lambda>w. True) get f \<Longrightarrow> keeps (\<lambda>w. ok (get w)) (\<lambda>w. g (get w)) f"
  by (simp add: keeps_def)

lemma metrics_by:
  "metrics_keep (\<lambda>w. True) get m \<Longrightarrow> metrics_keep (\<lambda>w. ok (get w)) (\<lambda>w. g (get w)) m"
  by (simp add: metrics_keep_def keeps_by)

lemma surroundings_by:
  assumes "surroundings_keep (\<lambda>w. True) get sys r"
  shows "surroundings_keep (\<lambda>w. ok (get w)) (\<lambda>w. g (get w)) sys r"
proof -
  note s = surroundings [OF assms]
  note fs = keeps_by [OF s(1)] keeps_by [OF s(2)] keeps_by [OF s(3)] keeps_by [OF s(4)]
    keeps_by [OF s(5) [THEN conjunct1]] keeps_by [OF s(5) [THEN conjunct2]] metrics_by [OF s(6)]
    keeps_by [OF s(7)] keeps_by [OF s(8)]
  show ?thesis unfolding surroundings_keep_def
    by (intro conjI allI imp_conv_disj [THEN iffD1] impI fs; assumption)
qed

section \<open>The steps of a cycle\<close>

lemma keeps_refresh:
  assumes "surroundings_keep ok g sys r"
  shows "keeps ok g (\<lambda>w. snd (refresh_desired sys r w))"
proof (cases "rn_composeFetcher r")
  case None
  then show ?thesis by (simp add: refresh_desired_def)
next
  case (Some fetch)
  have f: "ok w \<Longrightarrow> ok (snd (fetch etag w)) \<and> g (snd (fetch etag w)) = g w" for etag w
    using keepsD [OF surroundings(3) [OF assms Some]] by simp
  have l: "ok w \<Longrightarrow> ok (rn_logger r ev w) \<and> g (rn_logger r ev w) = g w" for ev w
    using keepsD [OF surroundings(1) [OF assms]] by simp
  show ?thesis unfolding keeps_def
  proof (clarsimp)
    fix w assume "ok w"
    obtain res w1 where r: "fetch (rn_composeETag r) w = (res, w1)" by fastforce
    with f [OF \<open>ok w\<close>, of "rn_composeETag r"] have w1: "ok w1" "g w1 = g w" by simp_all
    then show "ok (snd (refresh_desired sys r w)) \<and> g (snd (refresh_desired sys r w)) = g w"
      using r Some l by (simp add: refresh_desired_def Let_def split: sum.split)
  qed
qed

lemma keeps_notify:
  assumes "surroundings_keep ok g sys r" "ok w" "notify_transitions r ts w = Some w'"
  shows "ok w' \<and> g w' = g w"
proof (cases "rn_notifier r")
  case None
  with assms show ?thesis by (simp add: notify_transitions_def)
next
  case (Some notify)
  show ?thesis
  proof (cases "notify (stackKey r) ts w")
    case None
    with Some assms show ?thesis by (simp add: notify_transitions_def split: if_splits)
  next
    case out: (Some out)
    obtain e w1 where w1: "out = (e, w1)" by fastforce
    have "ok w1 \<and> g w1 = g w"
      using keepsD [OF surroundings(8) [OF assms(1) Some] assms(2), of "stackKey r" ts] out w1 by simp
    with Some out w1 assms keepsD [OF surroundings(1) [OF assms(1)]] show ?thesis
      by (auto simp: notify_transitions_def split: if_splits option.splits)
  qed
qed

lemma keeps_recordMetrics:
  assumes "surroundings_keep ok g sys r"
  shows "keeps ok g (recordMetrics r h ts)"
proof (cases "rn_metrics r")
  case None
  then have "recordMetrics r h ts = (\<lambda>w. w)" by (simp add: recordMetrics_def fun_eq_iff)
  then show ?thesis by simp
next
  case (Some m)
  from surroundings(6) [OF assms Some] have m: "keeps ok g (mo_SetServicesTotal m s l n)" "keeps ok g (mo_IncAlertsTotal m s l)" for s l n
    by (simp_all add: metrics_keep_def)
  let ?count = "\<lambda>s w. mo_SetServicesTotal m (stackKey r) (fst s) (snd s) w"
  have count: "keeps ok g (fold ?count ss)" for ss by (rule keeps_fold) (rule m(1))
  have "keeps ok g (fold (\<lambda>c. mo_IncAlertsTotal m (stackKey r) (transition_severity c)) ts)"
    by (rule keeps_fold) (rule m(2))
  note keeps_comp [OF count this]
  from this [of "[(''ok'', count_status StatusOK (stk_Services h)), (''degraded'', count_status StatusDegraded (stk_Services h)),
      (''failed'', count_status StatusFailed (stk_Services h))]"] Some
  show ?thesis by (simp add: recordMetrics_def Let_def keeps_def)
qed

lemma keeps_log_updates:
  assumes "surroundings_keep ok g sys r"
  shows "keeps ok g (log_updates r)"
  unfolding log_updates_def
  by (rule keeps_fold) (use surroundings(1) [OF assms] in \<open>auto simp: keeps_def\<close>)

lemma keeps_record_cycle:
  assumes "surroundings_keep ok g sys r"
  shows "keeps ok g (record_cycle sys r start)"
proof -
  note s = surroundings [OF assms]
  have track: "keeps ok g (\<lambda>w. case rn_cycleTracker r of None \<Rightarrow> w | Some record \<Rightarrow> record d n w)" for d n
    using s(7) by (cases "rn_cycleTracker r") simp_all
  have metrics: "keeps ok g (\<lambda>w. case rn_metrics r of None \<Rightarrow> w | Some m \<Rightarrow>
      (let (t', w3) = sy_now sys (mo_ObserveCycleDuration m d w) in mo_SetLastSuccessfulCycleTimestamp m t' w3))" for d
  proof (cases "rn_metrics r")
    case (Some m)
    from s(6) [OF Some] have m: "keeps ok g (mo_ObserveCycleDuration m d)" "keeps ok g (mo_SetLastSuccessfulCycleTimestamp m t)" for t
      by (simp_all add: metrics_keep_def)
    show ?thesis using keepsD [OF m(1)] keepsD [OF m(2)] keepsD [OF s(2)] Some
      by (simp add: keeps_def case_prod_beta Let_def)
  qed simp
  show ?thesis unfolding keeps_def
  proof (clarsimp)
    fix w assume "ok w"
    obtain t w1 where t: "sy_now sys w = (t, w1)" by fastforce
    with keepsD [OF s(2) \<open>ok w\<close>] have w1: "ok w1" "g w1 = g w" by simp_all
    show "ok (record_cycle sys r start w) \<and> g (record_cycle sys r start w) = g w"
      using t w1(2) keepsD [OF track w1(1)] keepsD [OF metrics] by (simp add: record_cycle_def Let_def)
  qed
qed

context state_store
begin

lemma evaluate_spec:
  assumes keep: "surroundings_keep inv view sys r" and "inv w" "wf_gmap (stk_Services (verdict_of r desired))"
    and valid: "\<And>prev now. valid_snapshot (snapshot_of (rn_composeHash r)
          (fst (stabilizeTransitions (rn_alertStabilizationCycles r) prev (verdict_of r desired))) (sy_rfc3339 sys now))"
    and run: "evaluateAndPersist sys r store desired w = Some (e, w')"
  shows "inv w' \<and> (case e of
      Some err \<Rightarrow> view w' = view w
    | None \<Rightarrow> \<exists>now. view w' = with_verdict r desired (sy_rfc3339 sys now) (view w))"
proof -
  obtain now w2 where now: "sy_now sys (log_updates r w) = (now, w2)" by fastforce
  have w2: "inv w2 \<and> view w2 = view w"
    using keepsD [OF keeps_log_updates [OF keep] assms(2)] keepsD [OF surroundings(2) [OF keep], of "log_updates r w"] now
    by simp
  let ?lock = "\<lambda>w. case rn_stateMu r of None \<Rightarrow> w | Some mu \<Rightarrow> mu_Lock mu w"
  let ?unlock = "\<lambda>w. case rn_stateMu r of None \<Rightarrow> w | Some mu \<Rightarrow> mu_Unlock mu w"
  have lock: "keeps inv view ?lock" "keeps inv view ?unlock"
    using surroundings(5) [OF keep] by (cases "rn_stateMu r"; simp)+
  obtain res w3 where p: "persist r store (sy_rfc3339 sys now) (verdict_of r desired) (?lock w2) = (res, w3)" by fastforce
  then have l: "withStateLock r (persist r store (sy_rfc3339 sys now) (verdict_of r desired)) w2 = (res, ?unlock w3)"
    by (simp add: withStateLock_def Let_def split: option.splits)
  have w2': "inv (?lock w2)" "view (?lock w2) = view w" using keepsD [OF lock(1), of w2] w2 by simp_all
  from persist_spec [OF w2'(1) assms(3) valid p] have
    "inv w3" "case res of Inl e \<Rightarrow> view w3 = view w
     | Inr ts \<Rightarrow> view w3 = with_verdict r desired (sy_rfc3339 sys now) (view w)"
    by (auto simp: w2'(2) with_verdict_def case_prod_beta Let_def split: sum.splits)
  moreover have "inv (?unlock w3) \<and> view (?unlock w3) = view w3" using keepsD [OF lock(2) calculation(1)] by simp
  ultimately have w4: "inv (?unlock w3)" "case res of Inl e \<Rightarrow> view (?unlock w3) = view w
     | Inr ts \<Rightarrow> view (?unlock w3) = with_verdict r desired (sy_rfc3339 sys now) (view w)"
    by (simp_all split: sum.splits)
  note run' = run [unfolded evaluateAndPersist_def Let_def, folded verdict_of_def, unfolded now prod.case l]
  show ?thesis
  proof (cases res)
    case (Inl err)
    with run' w4 show ?thesis by auto
  next
    case (Inr ts)
    let ?w5 = "fold (\<lambda>change. rn_logger r (transition_event r change)) ts
      (recordMetrics r (verdict_of r desired) ts (logCycleSummary r (verdict_of r desired) ts (?unlock w3)))"
    have sum: "keeps inv view (logCycleSummary r (verdict_of r desired) ts)"
      unfolding logCycleSummary_def by (rule surroundings(1) [OF keep])
    have log: "keeps inv view (fold (\<lambda>change. rn_logger r (transition_event r change)) ts)"
      by (rule keeps_fold) (rule surroundings(1) [OF keep])
    have "inv ?w5 \<and> view ?w5 = view (?unlock w3)"
      using keepsD [OF sum w4(1)] keepsD [OF keeps_recordMetrics [OF keep], of _ "verdict_of r desired" ts]
        keepsD [OF log] by simp
    moreover from run' Inr obtain w6 where "notify_transitions r ts ?w5 = Some w6" "e = None" "w' = w6" by auto
    ultimately show ?thesis using keeps_notify [OF keep, of ?w5 ts w6] w4(2) Inr by auto
  qed
qed

text \<open>The second half of a cycle, and the record of its time.\<close>

definition cycle_outcome ::
  "'w sys \<Rightarrow> 'w runner \<Rightarrow> (string \<Rightarrow> stack_snapshot option) \<Rightarrow> goerror option \<Rightarrow> 'w \<Rightarrow> bool" where
  "cycle_outcome sys r v e w' \<longleftrightarrow> inv w' \<and> (case e of
      Some err \<Rightarrow> view w' = v
    | None \<Rightarrow> (if rn_swarmClient r = None \<or> rn_lastDesiredState r = None then view w' = v
        else \<exists>now. view w' = with_verdict r (the (rn_lastDesiredState r)) (sy_rfc3339 sys now) v))"

definition fits :: "'w sys \<Rightarrow> 'w runner \<Rightarrow> bool" where
  "fits sys r \<longleftrightarrow> (case rn_lastDesiredState r of None \<Rightarrow> True | Some desired \<Rightarrow>
     wf_gmap (stk_Services (verdict_of r desired))
     \<and> (\<forall>prev now. valid_snapshot (snapshot_of (rn_composeHash r)
          (fst (stabilizeTransitions (rn_alertStabilizationCycles r) prev (verdict_of r desired))) (sy_rfc3339 sys now))))"

lemma collect_spec:
  assumes keep: "surroundings_keep inv view sys r" and "inv w" "rn_stateStore r = Some store"
    and run: "collect_and_evaluate sys r w = Some ((e, r'), w')" and fits: "fits sys r'"
  shows "cycle_outcome sys r' (view w) e w'"
proof (cases "rn_swarmClient r")
  case None
  with run assms(2) show ?thesis by (auto simp: collect_and_evaluate_def cycle_outcome_def)
next
  case (Some get)
  obtain a w1 where a: "get (rn_stackName r) w = (a, w1)" by fastforce
  with keepsD [OF surroundings(4) [OF keep Some] assms(2), of "rn_stackName r"]
  have w1: "inv w1" "view w1 = view w" by simp_all
  show ?thesis
  proof (cases "ce_err (sy_ctx sys) w")
    case err: (Some err)
    with run Some assms(2) have "e = Some err" "r' = r" "w' = w" by (simp_all add: collect_and_evaluate_def)
    with assms(2) show ?thesis by (simp add: cycle_outcome_def)
  next
    case ctx: None
    show ?thesis
    proof (cases a)
      case (Inl err)
      have "keeps inv view (\<lambda>w. case rn_metrics r of None \<Rightarrow> w | Some m \<Rightarrow> mo_IncDockerAPIErrors m w)"
        using surroundings(6) [OF keep] by (cases "rn_metrics r") (simp_all add: metrics_keep_def)
      from keepsD [OF this w1(1)] Inl run Some ctx a w1 show ?thesis
        by (auto simp: collect_and_evaluate_def cycle_outcome_def)
    next
      case (Inr actual)
      let ?r = "r\<lparr>rn_lastActualState := actual\<rparr>" and ?w2 = "rn_logger r (collected_event r actual) w1"
      have w2: "inv ?w2" "view ?w2 = view w" using keepsD [OF surroundings(1) [OF keep] w1(1)] w1(2) by simp_all
      have k: "surroundings_keep inv view sys ?r" using keep by (simp add: surroundings_refreshed)
      show ?thesis
      proof (cases "rn_lastDesiredState r")
        case None
        with Inr run Some ctx a w2 assms(3) show ?thesis by (auto simp: collect_and_evaluate_def cycle_outcome_def)
      next
        case d: (Some desired)
        with Inr run Some ctx a assms(3) obtain e2 where ev: "evaluateAndPersist sys ?r store desired ?w2 = Some (e2, w')"
          and e: "e = map_option (wrapRuntime ''state evaluation'') e2" "r' = ?r"
          by (auto simp: collect_and_evaluate_def Let_def)
        from fits d e(2) have "wf_gmap (stk_Services (verdict_of ?r desired))"
          "\<And>prev now. valid_snapshot (snapshot_of (rn_composeHash ?r)
            (fst (stabilizeTransitions (rn_alertStabilizationCycles ?r) prev (verdict_of ?r desired))) (sy_rfc3339 sys now))"
          by (simp_all add: fits_def)
        from evaluate_spec [OF k w2(1) this ev] d e w2(2) Some show ?thesis
          by (auto simp: cycle_outcome_def split: option.splits)
      qed
    qed
  qed
qed

lemma cycle_spec:
  assumes keep: "surroundings_keep inv view sys r" and "inv w" "rn_stateStore r = Some store" "rn_runOnce r = None"
    and run: "RunOnce sys r w = Some ((e, r'), w')" and fits: "fits sys r'"
  shows "cycle_outcome sys r' (view w) e w'"
proof -
  obtain start w0 where start: "sy_now sys w = (start, w0)" by fastforce
  then have w0: "inv w0" "view w0 = view w" using keepsD [OF surroundings(2) [OF keep] assms(2)] by simp_all
  from run start assms(4) obtain w1 where d: "defaultRunOnce sys r w0 = Some ((e, r'), w1)"
    and w': "w' = (case e of None \<Rightarrow> record_cycle sys r' start w1 | Some err \<Rightarrow> w1)"
    by (auto simp: RunOnce_def split: option.splits prod.splits)
  have "surroundings_keep inv view sys r' \<and> cycle_outcome sys r' (view w) e w1"
  proof (cases "ce_err (sy_ctx sys) w0")
    case (Some err)
    with d w0 have "e = Some err" "r' = r" "w1 = w0" by (simp_all add: defaultRunOnce_def)
    with w0 keep show ?thesis by (simp add: cycle_outcome_def)
  next
    case ctx: None
    obtain e1 r1 w2 where ref: "refresh_desired sys r w0 = ((e1, r1), w2)" by (metis surj_pair)
    with keepsD [OF keeps_refresh [OF keep] w0(1)] w0 have w2: "inv w2" "view w2 = view w" by simp_all
    from ref refresh_desired_from [of r sys w0] have "refreshed_from r r1" by simp
    with keep assms(3) have r1: "surroundings_keep inv view sys r1" "rn_stateStore r1 = Some store"
      by (simp_all add: surroundings_refreshed refreshed_fields)
    show ?thesis
    proof (cases e1)
      case (Some err)
      with d ctx ref r1 w2 show ?thesis by (auto simp: defaultRunOnce_def cycle_outcome_def)
    next
      case None
      with d ctx ref have c: "collect_and_evaluate sys r1 w2 = Some ((e, r'), w1)" by (simp add: defaultRunOnce_def)
      have "r' = r1 \<or> (\<exists>a. r' = r1\<lparr>rn_lastActualState := a\<rparr>)"
        using c by (auto simp: collect_and_evaluate_def Let_def split: option.splits prod.splits sum.splits)
      with r1(1) have "surroundings_keep inv view sys r'" by (auto simp: surroundings_refreshed)
      with collect_spec [OF r1(1) w2(1) r1(2) c fits] w2(2) show ?thesis by simp
    qed
  qed
  with w' keepsD [OF keeps_record_cycle [of inv view sys r' start], of w1] show ?thesis
    by (auto simp: cycle_outcome_def split: option.splits)
qed

end

end
