(* ===== verification/Server.thy ===== *)
theory Server
  imports Metrics Logging
begin

text \<open>
  \<open>internal/server\<close>: the HTTP servers of the probes and of the metrics. A handler answers in the
  world of the moment; the tracker and the collectors are pointers, so their values are read from
  that world. \<open>promhttp\<close> and the listening and shutting down of \<open>net/http\<close> are parameters.
\<close>

datatype reply = JsonReply http_reply | PromReply string

text \<open>A tracker that is \<open>nil\<close> is always \<open>None\<close>; \<open>hn_metrics\<close> is \<open>None\<close> for a \<open>nil\<close> collector.\<close>

record 'w handler_env =
  hn_tracker :: "'w \<Rightarrow> tracker option"
  hn_metrics :: "('w \<Rightarrow> metrics) option"
  hn_now :: "'w \<Rightarrow> gotime"
  hn_rfc3339 :: "gotime \<Rightarrow> string"
  hn_promDefault :: string
  hn_promFor :: "metrics \<Rightarrow> string"

type_synonym 'w mux = "(string \<times> ('w \<Rightarrow> reply)) list"

definition registerHealthRoutes :: "'w handler_env \<Rightarrow> int \<Rightarrow> 'w mux \<Rightarrow> 'w mux" where
  "registerHealthRoutes env pollInterval mux = mux @
     [(''/healthz'', \<lambda>w. JsonReply (HealthHandler (hn_rfc3339 env) (hn_tracker env w) pollInterval (hn_now env w))),
      (''/readyz'', \<lambda>w. JsonReply (ReadyHandler (hn_rfc3339 env) (hn_tracker env w)))]"

definition registerMetricsRoute :: "'w handler_env \<Rightarrow> 'w mux \<Rightarrow> 'w mux" where
  "registerMetricsRoute env mux =
     (case hn_metrics env of
        None \<Rightarrow> mux
      | Some collector \<Rightarrow> mux @ [(''/metrics'', \<lambda>w.
          PromReply (Metrics_Handler (hn_promDefault env) (hn_promFor env) (Some (collector w))))])"

record 'w server =
  sv_Port :: int
  sv_Label :: string
  sv_Handler :: "'w mux"

text \<open>\<open>Start\<close>: the servers it starts, in order.\<close>

definition Start :: "'w handler_env \<Rightarrow> int \<Rightarrow> int \<Rightarrow> int \<Rightarrow> 'w server list" where
  "Start env pollInterval healthPort metricsPort =
     (if healthPort = 0 \<and> metricsPort = 0 then []
      else if healthPort > 0 \<and> metricsPort > 0 \<and> healthPort = metricsPort then
        [\<lparr>sv_Port = healthPort, sv_Label = ''health/metrics'',
          sv_Handler = registerMetricsRoute env (registerHealthRoutes env pollInterval [])\<rparr>]
      else
        (if healthPort > 0 then
           [\<lparr>sv_Port = healthPort, sv_Label = ''health'', sv_Handler = registerHealthRoutes env pollInterval []\<rparr>]
         else [])
        @ (if metricsPort > 0 then
             [\<lparr>sv_Port = metricsPort, sv_Label = ''metrics'', sv_Handler = registerMetricsRoute env []\<rparr>]
           else []))"

section \<open>The two goroutines of a server\<close>

definition shutdownTimeout :: int where
  "shutdownTimeout = 5 * Second"

definition server_addr :: "'w server \<Rightarrow> string" where
  "server_addr s = '':'' @ itoa (sv_Port s)"

text \<open>\<open>sb_closed\<close> is \<open>errors.Is(err, http.ErrServerClosed)\<close>.\<close>

record 'w server_lib =
  sb_ListenAndServe :: "string \<Rightarrow> 'w mux \<Rightarrow> 'w \<Rightarrow> goerror option \<times> 'w"
  sb_Shutdown :: "string \<Rightarrow> int \<Rightarrow> 'w \<Rightarrow> goerror option \<times> 'w"
  sb_closed :: "goerror \<Rightarrow> bool"

definition server_fields :: "'w server \<Rightarrow> (string \<times> log_value) list" where
  "server_fields s = [(''server'', LStr (sv_Label s)), (''port'', LInt (sv_Port s))]"

definition serve_server :: "'w server_lib \<Rightarrow> (log_event \<Rightarrow> 'w \<Rightarrow> 'w) \<Rightarrow> 'w server \<Rightarrow> 'w \<Rightarrow> 'w" where
  "serve_server lib logger s w =
     (let w1 = logger (log_event_of LInfo ''http server starting'' (server_fields s)) w;
          (res, w2) = sb_ListenAndServe lib (server_addr s) (sv_Handler s) w1
      in case res of
           Some err \<Rightarrow> if \<not> sb_closed lib err
             then logger (log_event_of LError ''http server failed'' ((''error'', LErr err) # server_fields s)) w2
             else w2
         | None \<Rightarrow> w2)"

text \<open>Once the context is done:\<close>

definition stop_server :: "'w server_lib \<Rightarrow> (log_event \<Rightarrow> 'w \<Rightarrow> 'w) \<Rightarrow> 'w server \<Rightarrow> 'w \<Rightarrow> 'w" where
  "stop_server lib logger s w =
     (case sb_Shutdown lib (server_addr s) shutdownTimeout w of
        (Some err, w1) \<Rightarrow>
          logger (log_event_of LError ''http server shutdown failed'' ((''error'', LErr err) # server_fields s)) w1
      | (None, w1) \<Rightarrow> w1)"

section \<open>Properties\<close>

text \<open>What a request for a path on a port gets; \<open>None\<close>: nobody listens, or not found.\<close>

definition answer :: "'w server list \<Rightarrow> int \<Rightarrow> string \<Rightarrow> 'w \<Rightarrow> reply option" where
  "answer servers port path w =
     (case find (\<lambda>s. sv_Port s = port) servers of
        None \<Rightarrow> None
      | Some s \<Rightarrow> map_option (\<lambda>h. h w) (map_of (sv_Handler s) path))"

text \<open>
  The probes and the metrics are where the configuration puts them. For any two ports, also equal
  ones, \<open>Start\<close> starts at most one server per port; \<open>/healthz\<close> and \<open>/readyz\<close> are answered by their
  handlers on the health port, \<open>/metrics\<close> on the metrics port when there is a collector, a port that
  is 0 serves nothing, and there is nothing else on any port.
\<close>

theorem Start_answers:
  "distinct (map sv_Port (Start env poll healthPort metricsPort))
   \<and> answer (Start env poll healthPort metricsPort) port path w =
      (if port \<le> 0 then None
       else if port = healthPort \<and> path = ''/healthz'' then
         Some (JsonReply (HealthHandler (hn_rfc3339 env) (hn_tracker env w) poll (hn_now env w)))
       else if port = healthPort \<and> path = ''/readyz'' then
         Some (JsonReply (ReadyHandler (hn_rfc3339 env) (hn_tracker env w)))
       else if port = metricsPort \<and> path = ''/metrics'' then
         map_option (\<lambda>collector. PromReply (hn_promFor env (collector w))) (hn_metrics env)
       else None)"
  by (auto simp: Start_def answer_def registerHealthRoutes_def registerMetricsRoute_def Metrics_Handler_def
      split: option.splits)

end
