(* ===== verification/Http_Poster.thy ===== *)
theory Http_Poster
  imports Logging Go_Http
begin

text \<open>
  \<open>internal/notify/http_poster.go\<close>: posting a payload with rate limiting and retries. The HTTP
  client, the rate limiter, the exponential back-off, the clock and the parser of HTTP dates are
  parameters. The retry loop has no bound of its own: it is a partial function, and \<open>None\<close> means
  that it does not return.
\<close>

section \<open>Timing and libraries\<close>

definition httpErrorBodyLimit :: nat where
  "httpErrorBodyLimit = 1024"

record timing_config =
  tc_timeout :: int
  tc_rateInterval :: int
  tc_rateBurst :: int
  tc_backoffMaxElapsed :: int
  tc_backoffMax :: int
  tc_backoffInitial :: int

definition defaultTiming :: timing_config where
  "defaultTiming = \<lparr>tc_timeout = 10 * Second, tc_rateInterval = 1 * Second, tc_rateBurst = 1,
     tc_backoffMaxElapsed = 30 * Second, tc_backoffMax = 10 * Second, tc_backoffInitial = 1 * Second\<rparr>"

text \<open>How the code sets up the client of \<open>go-retryablehttp\<close>: it never retries by itself.\<close>

record post_client =
  pc_RetryMax :: int
  pc_CheckRetry :: "goerror + http_response \<Rightarrow> bool \<times> goerror option"
  pc_Timeout :: int

text \<open>
  The libraries, in a world \<open>'w\<close>: the context, the client, \<open>rate.NewLimiter(rate.Every(d), burst)\<close>
  and \<open>Wait\<close>, a back-off with initial and greatest interval and greatest elapsed time and its
  \<open>NextBackOff\<close> (\<open>None\<close> is \<open>backoff.Stop\<close>), \<open>time.Now\<close> and \<open>http.ParseTime\<close>.
\<close>

record ('l, 'b, 'w) post_libs =
  pl_ctx :: "'w ctx_env"
  pl_http :: "post_client \<Rightarrow> 'w http_api"
  pl_NewLimiter :: "int \<Rightarrow> int \<Rightarrow> 'w \<Rightarrow> 'l \<times> 'w"
  pl_Wait :: "'l \<Rightarrow> 'w \<Rightarrow> goerror option \<times> 'w"
  pl_NewBackOff :: "int \<Rightarrow> int \<Rightarrow> int \<Rightarrow> 'w \<Rightarrow> 'b \<times> 'w"
  pl_NextBackOff :: "'b \<Rightarrow> 'w \<Rightarrow> int option \<times> 'w"
  pl_Now :: "'w \<Rightarrow> gotime \<times> 'w"
  pl_ParseTime :: "string \<Rightarrow> gotime option"

text \<open>A variable that lives in the world: here the map of limiters.\<close>

record ('s, 'w) cell =
  cl_get :: "'w \<Rightarrow> 's"
  cl_put :: "'s \<Rightarrow> 'w \<Rightarrow> 'w"

definition lawful :: "('s, 'w) cell \<Rightarrow> bool" where
  "lawful c \<longleftrightarrow> (\<forall>s w. cl_get c (cl_put c s w) = s)"

record ('l, 'w) http_poster =
  po_logger :: "log_event \<Rightarrow> 'w \<Rightarrow> 'w"
  po_serviceName :: string
  po_webhookURL :: string
  po_contentType :: string
  po_client :: post_client
  po_timing :: timing_config
  po_limiters :: "('l gmap, 'w) cell"

definition newHTTPPoster ::
  "(log_event \<Rightarrow> 'w \<Rightarrow> 'w) \<Rightarrow> string \<Rightarrow> string \<Rightarrow> string \<Rightarrow> timing_config \<Rightarrow> ('l gmap, 'w) cell \<Rightarrow> 'w \<Rightarrow>
   ('l, 'w) http_poster \<times> 'w" where
  "newHTTPPoster logger serviceName webhookURL contentType timing limiters w =
     (\<lparr>po_logger = logger, po_serviceName = serviceName, po_webhookURL = webhookURL,
       po_contentType = contentType,
       po_client = \<lparr>pc_RetryMax = 0, pc_CheckRetry = (\<lambda>_. (False, None)), pc_Timeout = tc_timeout timing\<rparr>,
       po_timing = timing, po_limiters = limiters\<rparr>,
      cl_put limiters [] w)"

section \<open>Rate limiting\<close>

text \<open>The mutex makes \<open>getLimiter\<close> one step. The limiters it finds and makes are never \<open>nil\<close>.\<close>

definition getLimiter :: "('l, 'b, 'w) post_libs \<Rightarrow> ('l, 'w) http_poster \<Rightarrow> string \<Rightarrow> 'w \<Rightarrow> 'l \<times> 'w" where
  "getLimiter libs n stack w =
     (case mget (cl_get (po_limiters n) w) stack of
        Some limiter \<Rightarrow> (limiter, w)
      | None \<Rightarrow>
          (let (limiter, w1) = pl_NewLimiter libs (tc_rateInterval (po_timing n)) (tc_rateBurst (po_timing n)) w
           in (limiter, cl_put (po_limiters n) (mput stack limiter (cl_get (po_limiters n) w1)) w1)))"

definition waitForRateLimit ::
  "('l, 'b, 'w) post_libs \<Rightarrow> ('l, 'w) http_poster \<Rightarrow> string \<Rightarrow> 'w \<Rightarrow> goerror option \<times> 'w" where
  "waitForRateLimit libs n stack w =
     (let (limiter, w1) = getLimiter libs n stack w in pl_Wait libs limiter w1)"

section \<open>One request\<close>

definition parseRetryAfter :: "('l, 'b, 'w) post_libs \<Rightarrow> string \<Rightarrow> 'w \<Rightarrow> int option \<times> 'w" where
  "parseRetryAfter libs value w =
     (if value = '''' then (None, w)
      else case Atoi value of
        Inr seconds \<Rightarrow> (if seconds \<le> 0 then None else Some (wrap64 (seconds * Second)), w)
      | Inl _ \<Rightarrow>
          (case pl_ParseTime libs value of
             None \<Rightarrow> (None, w)
           | Some date \<Rightarrow>
               (let (now, w1) = pl_Now libs w; wait = time_Sub date now
                in (if wait \<le> 0 then None else Some wait, w1))))"

definition post_request :: "('l, 'w) http_poster \<Rightarrow> string \<Rightarrow> http_request" where
  "post_request n payload = \<lparr>rq_Method = ''POST'', rq_URL = po_webhookURL n,
     rq_Header = [(''Content-Type'', po_contentType n)], rq_Body = payload\<rparr>"

text \<open>What \<open>postOnce\<close> makes of a response.\<close>

definition response_error ::
  "('l, 'b, 'w) post_libs \<Rightarrow> ('l, 'w) http_poster \<Rightarrow> http_response \<Rightarrow> 'w \<Rightarrow> goerror option \<times> 'w" where
  "response_error libs n resp w =
     (let bodyText = TrimSpace (take httpErrorBodyLimit (rs_Body resp)) in
      if rs_StatusCode resp \<ge> 200 \<and> rs_StatusCode resp < 300 then (None, w)
      else if rs_StatusCode resp = 429 then
        (let err = PlainErr (po_serviceName n @ '' rate limited: '' @ rs_Status resp)
         in case parseRetryAfter libs (rs_Header resp ''Retry-After'') w of
              (Some wait, w1) \<Rightarrow> (Some (RetryAfterError wait err), w1)
            | (None, w1) \<Rightarrow> (Some (RetryableError err), w1))
      else if rs_StatusCode resp \<ge> 500 then
        (Some (RetryableError (PlainErr (po_serviceName n @ '' server error: '' @ rs_Status resp))), w)
      else if bodyText \<noteq> '''' then
        (Some (PlainErr (po_serviceName n @ '' request failed: '' @ rs_Status resp @ '' ('' @ bodyText @ '')'')), w)
      else (Some (PlainErr (po_serviceName n @ '' request failed: '' @ rs_Status resp)), w))"

definition postOnce ::
  "('l, 'b, 'w) post_libs \<Rightarrow> ('l, 'w) http_poster \<Rightarrow> string \<Rightarrow> 'w \<Rightarrow> goerror option \<times> 'w" where
  "postOnce libs n payload w =
     (let ctx = pl_ctx libs; api = pl_http libs (po_client n);
          w0 = ce_with_timeout ctx (tc_timeout (po_timing n)) w
      in case ha_NewRequest api (po_webhookURL n) of
           Some err \<Rightarrow>
             (Some (WrapErr (''build '' @ po_serviceName n @ '' request: '') err), ce_cancel ctx w0)
         | None \<Rightarrow>
             (case ha_Do api (post_request n payload) w0 of
                (Inl err, w1) \<Rightarrow>
                  (Some (RetryableError (WrapErr (po_serviceName n @ '' request failed: '') err)), ce_cancel ctx w1)
              | (Inr resp, w1) \<Rightarrow>
                  (case response_error libs n resp w1 of
                     (res, w2) \<Rightarrow> (res, ce_cancel ctx (ha_CloseBody api w2)))))"

section \<open>The retry loop\<close>

text \<open>\<open>sleepWithContext\<close> is false when the context is done first; the loop then returns \<open>ctx.Err()\<close>.\<close>

definition sleepWithContext :: "'w ctx_env \<Rightarrow> int \<Rightarrow> 'w \<Rightarrow> bool \<times> 'w" where
  "sleepWithContext ctx wait w = (let (e, w1) = ce_wait ctx wait w in (e = None, w1))"

partial_function (option) postLoop ::
  "('l, 'b, 'w) post_libs \<Rightarrow> ('l, 'w) http_poster \<Rightarrow> string \<Rightarrow> 'b \<Rightarrow> 'w \<Rightarrow> (goerror option \<times> 'w) option" where
  "postLoop libs n payload backoffCfg w =
     (case postOnce libs n payload w of
        (None, w1) \<Rightarrow> Some (None, w1)
      | (Some err, w1) \<Rightarrow>
          (case as_retry_after err of
             Some d \<Rightarrow>
               (case sleepWithContext (pl_ctx libs) d w1 of
                  (slept, w2) \<Rightarrow>
                    if \<not> slept then Some (ce_err (pl_ctx libs) w2, w2)
                    else postLoop libs n payload backoffCfg w2)
           | None \<Rightarrow>
               if \<not> as_retryable err then Some (Some err, w1)
               else
                 (case pl_NextBackOff libs backoffCfg w1 of
                    (None, w2) \<Rightarrow> Some (Some err, w2)
                  | (Some wait, w2) \<Rightarrow>
                      (case sleepWithContext (pl_ctx libs) wait w2 of
                         (slept, w3) \<Rightarrow>
                           if \<not> slept then Some (ce_err (pl_ctx libs) w3, w3)
                           else postLoop libs n payload backoffCfg w3))))"

definition postWithRetry ::
  "('l, 'b, 'w) post_libs \<Rightarrow> ('l, 'w) http_poster \<Rightarrow> string \<Rightarrow> 'w \<Rightarrow> (goerror option \<times> 'w) option" where
  "postWithRetry libs n payload w =
     (let (backoffCfg, w1) = pl_NewBackOff libs (tc_backoffInitial (po_timing n)) (tc_backoffMax (po_timing n))
            (tc_backoffMaxElapsed (po_timing n)) w
      in postLoop libs n payload backoffCfg w1)"

section \<open>Rounds\<close>

text \<open>One turn of the loop that goes on, and the world after its wait; \<open>None\<close> when the loop returns.\<close>

definition retry_wait :: "('l, 'b, 'w) post_libs \<Rightarrow> 'b \<Rightarrow> goerror \<Rightarrow> 'w \<Rightarrow> int option \<times> 'w" where
  "retry_wait libs b err w =
     (case as_retry_after err of
        Some d \<Rightarrow> (Some d, w)
      | None \<Rightarrow> if as_retryable err then pl_NextBackOff libs b w else (None, w))"

definition retry_round ::
  "('l, 'b, 'w) post_libs \<Rightarrow> ('l, 'w) http_poster \<Rightarrow> string \<Rightarrow> 'b \<Rightarrow> 'w \<Rightarrow> 'w option" where
  "retry_round libs n payload b w =
     (case postOnce libs n payload w of
        (None, w1) \<Rightarrow> None
      | (Some err, w1) \<Rightarrow>
          (case retry_wait libs b err w1 of
             (None, w2) \<Rightarrow> None
           | (Some d, w2) \<Rightarrow>
               (case ce_wait (pl_ctx libs) d w2 of (None, w3) \<Rightarrow> Some w3 | (Some e, w3) \<Rightarrow> None)))"

fun rounds ::
  "('l, 'b, 'w) post_libs \<Rightarrow> ('l, 'w) http_poster \<Rightarrow> string \<Rightarrow> 'b \<Rightarrow> nat \<Rightarrow> 'w \<Rightarrow> 'w option" where
  "rounds libs n payload b 0 w = Some w"
| "rounds libs n payload b (Suc k) w =
     (case retry_round libs n payload b w of None \<Rightarrow> None | Some w' \<Rightarrow> rounds libs n payload b k w')"

lemma postLoop_round:
  "retry_round libs n payload b w = Some w' \<Longrightarrow> postLoop libs n payload b w = postLoop libs n payload b w'"
  by (subst postLoop.simps)
    (auto simp: retry_round_def retry_wait_def sleepWithContext_def split: prod.splits option.splits if_splits)

lemma postLoop_stop:
  "retry_round libs n payload b w = None \<Longrightarrow> \<exists>r. postLoop libs n payload b w = Some r"
  by (subst postLoop.simps)
    (auto simp: retry_round_def retry_wait_def sleepWithContext_def split: prod.splits option.splits)

lemma postLoop_returned:
  fixes libs :: "('l, 'b, 'w) post_libs"
  assumes "postLoop libs n payload b w = Some r"
  shows "\<exists>k. rounds libs n payload b k w = None"
proof (rule postLoop.raw_induct [where P = "\<lambda>libs n payload b w r. \<exists>k. rounds libs n payload b k w = None",
      OF _ assms])
  fix f and libs :: "('l, 'b, 'w) post_libs" and n :: "('l, 'w) http_poster" and payload b w r
  assume IH: "\<And>libs n payload b w r. f libs n payload b w = Some r \<Longrightarrow> \<exists>k. rounds libs n payload b k w = None"
    and body: "(case postOnce libs n payload w of
        (None, w1) \<Rightarrow> Some (None, w1)
      | (Some err, w1) \<Rightarrow>
          (case as_retry_after err of
             Some d \<Rightarrow>
               (case sleepWithContext (pl_ctx libs) d w1 of
                  (slept, w2) \<Rightarrow>
                    if \<not> slept then Some (ce_err (pl_ctx libs) w2, w2)
                    else f libs n payload b w2)
           | None \<Rightarrow>
               if \<not> as_retryable err then Some (Some err, w1)
               else
                 (case pl_NextBackOff libs b w1 of
                    (None, w2) \<Rightarrow> Some (Some err, w2)
                  | (Some wait, w2) \<Rightarrow>
                      (case sleepWithContext (pl_ctx libs) wait w2 of
                         (slept, w3) \<Rightarrow>
                           if \<not> slept then Some (ce_err (pl_ctx libs) w3, w3)
                           else f libs n payload b w3)))) = Some r"
  show "\<exists>k. rounds libs n payload b k w = None"
  proof (cases "retry_round libs n payload b w")
    case None
    then have "rounds libs n payload b (Suc 0) w = None" by simp
    then show ?thesis by blast
  next
    case (Some w')
    with body have "f libs n payload b w' = Some r"
      by (auto simp: retry_round_def retry_wait_def sleepWithContext_def split: prod.splits option.splits if_splits)
    from IH [OF this] Some have "\<exists>k. rounds libs n payload b (Suc k) w = None" by simp
    then show ?thesis by blast
  qed
qed

lemma rounds_returned:
  "rounds libs n payload b k w = None \<Longrightarrow> \<exists>r. postLoop libs n payload b w = Some r"
proof (induction k arbitrary: w)
  case (Suc k)
  show ?case
  proof (cases "retry_round libs n payload b w")
    case (Some w')
    with Suc postLoop_round [OF Some] show ?thesis by auto
  qed (rule postLoop_stop)
qed simp

text \<open>The loop returns exactly when one of its turns does not go on.\<close>

lemma postLoop_returns_iff:
  "(\<exists>r. postLoop libs n payload b w = Some r) \<longleftrightarrow> (\<exists>k. rounds libs n payload b k w = None)"
  using postLoop_returned [of libs n payload b w] rounds_returned [of libs n payload b _ w] by blast

lemma postLoop_induct [consumes 1, case_names stop round]:
  assumes "postLoop libs n payload b w = Some r"
    and "\<And>v. retry_round libs n payload b v = None \<Longrightarrow> postLoop libs n payload b v = Some r \<Longrightarrow> Q v"
    and "\<And>v v'. retry_round libs n payload b v = Some v' \<Longrightarrow> Q v' \<Longrightarrow> Q v"
  shows "Q w"
proof -
  obtain k where "rounds libs n payload b k w = None" using postLoop_returned [OF assms(1)] by blast
  with assms(1) show ?thesis
  proof (induction k arbitrary: w)
    case (Suc k)
    show ?case
    proof (cases "retry_round libs n payload b w")
      case None
      with Suc.prems(1) show ?thesis by (intro assms(2))
    next
      case (Some w')
      with Suc.prems postLoop_round [OF Some] have "Q w'" by (intro Suc.IH) simp_all
      with Some show ?thesis by (rule assms(3))
    qed
  qed simp
qed

lemma decreasing_rounds_end:
  assumes "\<And>v v'. retry_round libs n payload b v = Some v' \<Longrightarrow> remaining v' < (remaining v :: nat)"
  shows "\<exists>k. rounds libs n payload b k w = None"
proof (induction "remaining w" arbitrary: w rule: less_induct)
  case less
  show ?case
  proof (cases "retry_round libs n payload b w")
    case None
    then have "rounds libs n payload b (Suc 0) w = None" by simp
    then show ?thesis by blast
  next
    case (Some w')
    from less [OF assms [OF Some]] Some have "\<exists>k. rounds libs n payload b (Suc k) w = None" by simp
    then show ?thesis by blast
  qed
qed

lemma endless_rounds:
  assumes "\<And>v. P v \<Longrightarrow> \<exists>v'. retry_round libs n payload b v = Some v' \<and> P v'" "P w"
  shows "postLoop libs n payload b w = None"
proof -
  have "rounds libs n payload b k w \<noteq> None" for k
    using assms(2) by (induction k arbitrary: w) (use assms(1) in fastforce)+
  moreover have "\<exists>k. rounds libs n payload b k w = None" if "postLoop libs n payload b w = Some r" for r
    using postLoop_returned [OF that] .
  ultimately show ?thesis by (meson not_Some_eq)
qed

section \<open>How the loop ends\<close>

text \<open>A wait that is cut short leaves a context that is done, as \<open>context\<close> documents.\<close>

definition ctx_ok :: "'w ctx_env \<Rightarrow> bool" where
  "ctx_ok ctx \<longleftrightarrow> (\<forall>d w. fst (ce_wait ctx d w) \<noteq> None \<longrightarrow> ce_err ctx (snd (ce_wait ctx d w)) \<noteq> None)"

lemma postLoop_unfold:
  "postLoop libs n payload b w =
     (case postOnce libs n payload w of
        (None, w1) \<Rightarrow> Some (None, w1)
      | (Some err, w1) \<Rightarrow>
          (case retry_wait libs b err w1 of
             (None, w2) \<Rightarrow> Some (Some err, w2)
           | (Some d, w2) \<Rightarrow>
               (case ce_wait (pl_ctx libs) d w2 of
                  (None, w3) \<Rightarrow> postLoop libs n payload b w3
                | (Some e, w3) \<Rightarrow> Some (ce_err (pl_ctx libs) w3, w3))))"
  by (subst postLoop.simps)
    (auto simp: retry_wait_def sleepWithContext_def split: prod.split option.split)

lemma stopped_outcome:
  assumes "retry_round libs n payload b v = None" "postLoop libs n payload b v = Some (res, w')"
  shows "(postOnce libs n payload v = (None, w') \<and> res = None)
    \<or> (\<exists>e v1. postOnce libs n payload v = (Some e, v1) \<and> retry_wait libs b e v1 = (None, w') \<and> res = Some e)
    \<or> (\<exists>e v1 d v2 x. postOnce libs n payload v = (Some e, v1) \<and> retry_wait libs b e v1 = (Some d, v2)
        \<and> ce_wait (pl_ctx libs) d v2 = (Some x, w') \<and> res = ce_err (pl_ctx libs) w')"
proof -
  obtain p v1 where p: "postOnce libs n payload v = (p, v1)" by fastforce
  show ?thesis
  proof (cases p)
    case None
    with p assms show ?thesis by (simp add: postLoop_unfold [of libs n payload b v])
  next
    case (Some e)
    obtain q v2 where q: "retry_wait libs b e v1 = (q, v2)" by fastforce
    show ?thesis
    proof (cases q)
      case None
      with p q Some assms show ?thesis by (auto simp: postLoop_unfold [of libs n payload b v])
    next
      case d: (Some d)
      obtain x v3 where x: "ce_wait (pl_ctx libs) d v2 = (x, v3)" by fastforce
      with p q Some d assms(1) obtain y where y: "x = Some y"
        by (auto simp: retry_round_def split: option.splits)
      with p q Some d x assms(2) have "res = ce_err (pl_ctx libs) v3" "w' = v3"
        by (auto simp: postLoop_unfold [of libs n payload b v])
      with p q Some d x y show ?thesis by auto
    qed
  qed
qed

lemma postLoop_rounds:
  "rounds libs n payload b k w = Some v \<Longrightarrow> postLoop libs n payload b w = postLoop libs n payload b v"
  by (induction k arbitrary: w) (auto dest: postLoop_round split: option.splits)

lemma postLoop_success:
  "postOnce libs n payload v = (None, w') \<Longrightarrow> postLoop libs n payload b v = Some (None, w')"
  by (subst postLoop.simps) simp

section \<open>Waits\<close>

lemma retry_after_node [simp]: "as_retry_after (RetryAfterError d e) = Some d"
  "as_retry_after (RetryableError e) = None" "as_retry_after (PlainErr s) = None"
  by (simp_all add: as_retry_after_def)

lemma Second_pos [simp]: "0 < Second"
  by (simp add: Second_def)

text \<open>
  The wait a server asks for is positive, unless its number of seconds overflows nanoseconds.
\<close>

lemma parseRetryAfter_positive:
  assumes "parseRetryAfter libs value w = (Some d, w')"
    and "\<And>s. Atoi value = Inr s \<Longrightarrow> s \<le> 9223372036"
  shows "0 < d"
proof (cases "Atoi value")
  case (Inr s)
  with assms have s: "0 < s" "s \<le> 9223372036" "d = wrap64 (s * Second)"
    by (auto simp: parseRetryAfter_def split: if_splits)
  then have "s * Second < 9223372036854775808" by (simp add: Second_def)
  with s show ?thesis by (simp add: Second_def)
next
  case (Inl e)
  with assms(1) show ?thesis
    by (auto simp: parseRetryAfter_def Let_def split: if_splits option.splits prod.splits)
qed

lemma retry_after_overflow:
  "parseRetryAfter libs ''9223372037'' w = (Some (- 9223372036709551616), w)"
  by (simp add: parseRetryAfter_def Atoi_def is_digit_def digits_value_def in_int64_def wrap64_def Second_def)


text \<open>What the code gets to see of the libraries' documented behaviour, for the theorems below.\<close>

lemma postOnce_retry_after:
  assumes "postOnce libs n payload w = (Some e, w')" "as_retry_after e = Some d"
    and "\<And>req v resp v' s. ha_Do (pl_http libs (po_client n)) req v = (Inr resp, v') \<Longrightarrow>
        Atoi (rs_Header resp ''Retry-After'') = Inr s \<Longrightarrow> s \<le> 9223372036"
    and "\<And>err. ha_NewRequest (pl_http libs (po_client n)) (po_webhookURL n) = Some err \<Longrightarrow> as_retry_after err = None"
  shows "0 < d"
proof (cases "ha_NewRequest (pl_http libs (po_client n)) (po_webhookURL n)")
  case (Some err)
  with assms(1,2) assms(4) [OF Some] show ?thesis
    by (auto simp: postOnce_def Let_def as_retry_after_def)
next
  case None
  let ?w0 = "ce_with_timeout (pl_ctx libs) (tc_timeout (po_timing n)) w"
  obtain r v1 where r: "ha_Do (pl_http libs (po_client n)) (post_request n payload) ?w0 = (r, v1)" by fastforce
  show ?thesis
  proof (cases r)
    case (Inl err)
    with None r assms(1,2) show ?thesis by (auto simp: postOnce_def Let_def)
  next
    case (Inr resp)
    obtain q v2 where q: "parseRetryAfter libs (rs_Header resp ''Retry-After'') v1 = (q, v2)" by fastforce
    from None r Inr assms(1,2) q have "q = Some d"
      by (auto simp: postOnce_def response_error_def Let_def split: if_splits option.splits)
    with q parseRetryAfter_positive [of libs "rs_Header resp ''Retry-After''" v1 d v2] assms(3) [OF r [unfolded Inr]]
    show ?thesis by simp
  qed
qed

text \<open>
  A clock that runs out: \<open>left\<close> is the time the context has left. A wait that is not cut short takes
  some of it, and nothing gives any back.
\<close>

definition deadline :: "('l, 'b, 'w) post_libs \<Rightarrow> ('w \<Rightarrow> nat) \<Rightarrow> bool" where
  "deadline libs left \<longleftrightarrow>
     (\<forall>d w w'. ce_wait (pl_ctx libs) d w = (None, w') \<and> 0 < d \<longrightarrow> left w' < left w)
     \<and> (\<forall>b d w w'. pl_NextBackOff libs b w = (Some d, w') \<longrightarrow> 0 < d \<and> left w' \<le> left w)
     \<and> (\<forall>d w. left (ce_with_timeout (pl_ctx libs) d w) \<le> left w)
     \<and> (\<forall>w. left (ce_cancel (pl_ctx libs) w) \<le> left w)
     \<and> (\<forall>c req w. left (snd (ha_Do (pl_http libs c) req w)) \<le> left w)
     \<and> (\<forall>c w. left (ha_CloseBody (pl_http libs c) w) \<le> left w)
     \<and> (\<forall>w. left (snd (pl_Now libs w)) \<le> left w)"

lemma response_error_world:
  "snd (response_error libs n resp w) = w \<or> snd (response_error libs n resp w) = snd (pl_Now libs w)"
proof -
  have "snd (parseRetryAfter libs v w) = w \<or> snd (parseRetryAfter libs v w) = snd (pl_Now libs w)" for v
    by (auto simp: parseRetryAfter_def Let_def split: sum.splits option.splits prod.splits)
  from this [of "rs_Header resp ''Retry-After''"] show ?thesis
    by (auto simp: response_error_def Let_def split: prod.splits option.splits)
qed

lemma postOnce_time:
  assumes "deadline libs left"
  shows "left (snd (postOnce libs n payload w)) \<le> left w"
proof -
  let ?api = "pl_http libs (po_client n)" and ?ctx = "pl_ctx libs"
  let ?w0 = "ce_with_timeout ?ctx (tc_timeout (po_timing n)) w"
  let ?w1 = "snd (ha_Do ?api (post_request n payload) ?w0)"
  have le: "left (ce_with_timeout ?ctx d v) \<le> left v" "left (ce_cancel ?ctx v) \<le> left v"
    "left (snd (ha_Do ?api req v)) \<le> left v" "left (ha_CloseBody ?api v) \<le> left v"
    "left (snd (pl_Now libs v)) \<le> left v" for d v req
    using assms unfolding deadline_def by blast+
  have w1: "left ?w1 \<le> left w" using le(3) le(1) by (rule le_trans)
  have resp: "left (snd (response_error libs n resp v)) \<le> left v" for resp v
    using response_error_world [of libs n resp v] le(5) [of v] by auto
  have step: "left (ce_cancel ?ctx v) \<le> left w" if "left v \<le> left w" for v
    using le(2) that by (rule le_trans)
  show ?thesis
    using step [OF le(1)] step [OF w1] step [OF le_trans [OF le(4) le_trans [OF resp w1]]]
    by (auto simp: postOnce_def Let_def case_prod_beta split: option.split sum.split)
qed

lemma round_takes_time:
  assumes "deadline libs left" "retry_round libs n payload b v = Some v'"
    and "\<And>w e w' d. postOnce libs n payload w = (Some e, w') \<Longrightarrow> as_retry_after e = Some d \<Longrightarrow> 0 < d"
  shows "left v' < left v"
proof -
  obtain e v1 d v2 where r: "postOnce libs n payload v = (Some e, v1)" "retry_wait libs b e v1 = (Some d, v2)"
    "ce_wait (pl_ctx libs) d v2 = (None, v')"
    using assms(2) by (auto simp: retry_round_def split: prod.splits option.splits)
  from postOnce_time [OF assms(1), of n payload v] r(1) have v1: "left v1 \<le> left v" by simp
  have "0 < d \<and> left v2 \<le> left v1"
  proof (cases "as_retry_after e")
    case None
    with r(2) have "pl_NextBackOff libs b v1 = (Some d, v2)" by (simp add: retry_wait_def split: if_splits)
    with assms(1) show ?thesis unfolding deadline_def by blast
  next
    case (Some d')
    with r(2) assms(3) [OF r(1) Some] show ?thesis by (simp add: retry_wait_def)
  qed
  moreover from this r(3) assms(1) have "left v' < left v2" unfolding deadline_def by blast
  ultimately show ?thesis using v1 by linarith
qed

section \<open>Properties\<close>

text \<open>
  A busy server for the witnesses below: it answers every request with \<open>429\<close>. The world is the map
  of limiters and a clock; the context is done when \<open>over\<close> says so.
\<close>

definition busy_response :: http_response where
  "busy_response = \<lparr>rs_StatusCode = 429, rs_Status = ''429 Too Many Requests'',
     rs_Header = (\<lambda>h. if h = ''Retry-After'' then ''1'' else ''''), rs_Body = '''', rs_BodyError = None\<rparr>"

type_synonym busy_world = "nat gmap \<times> nat \<times> string list"

definition busy_libs :: "(nat \<Rightarrow> bool) \<Rightarrow> http_response \<Rightarrow> (nat, unit, busy_world) post_libs" where
  "busy_libs over resp = \<lparr>
     pl_ctx = \<lparr>ce_err = (\<lambda>(m, t, a). if over t then Some CtxDeadline else None),
       ce_wait = (\<lambda>d (m, t, a). if over t then (Some CtxDeadline, (m, t, a)) else (None, (m, t + 1, a))),
       ce_with_timeout = (\<lambda>d w. w), ce_cancel = (\<lambda>w. w)\<rparr>,
     pl_http = (\<lambda>c. \<lparr>ha_NewRequest = (\<lambda>u. None),
       ha_Do = (\<lambda>req (m, t, a). (Inr resp, (m, t, if response_ok resp then a @ [rq_Body req] else a))),
       ha_CloseBody = (\<lambda>w. w)\<rparr>),
     pl_NewLimiter = (\<lambda>i b (m, t, a). (t, (m, t + 1, a))), pl_Wait = (\<lambda>l w. (None, w)),
     pl_NewBackOff = (\<lambda>i m e w. ((), w)), pl_NextBackOff = (\<lambda>b w. (Some Second, w)),
     pl_Now = (\<lambda>(m, t, a). (int t, (m, t, a))), pl_ParseTime = (\<lambda>s. None)\<rparr>"

definition pair_cell :: "(nat gmap, busy_world) cell" where
  "pair_cell = \<lparr>cl_get = fst, cl_put = (\<lambda>m (m', t, a). (m, t, a))\<rparr>"

definition busy_poster :: "(nat, busy_world) http_poster" where
  "busy_poster = fst (newHTTPPoster (\<lambda>e w. w) ''slack'' ''https://hooks'' ''application/json''
     defaultTiming pair_cell ([], 0, []))"

lemma Atoi_one: "Atoi ''1'' = Inr 1"
  by (simp add: Atoi_def is_digit_def digits_value_def in_int64_def)

lemma busy_deadline: "deadline (busy_libs (\<lambda>t. 5 \<le> t) resp) (\<lambda>(m, t, a). 5 - t)"
  by (auto simp: deadline_def busy_libs_def split: if_splits)

text \<open>
  C23. Posting ends when the context has a deadline. If every wait that is not cut short takes some of
  the time that is left and nothing gives time back (\<open>deadline\<close>), and no server asks for more
  seconds than fit in a duration, \<open>postWithRetry\<close> returns.
\<close>

theorem postWithRetry_returns:
  assumes "deadline libs left"
    and "\<And>req v resp v' s. ha_Do (pl_http libs (po_client n)) req v = (Inr resp, v') \<Longrightarrow>
        Atoi (rs_Header resp ''Retry-After'') = Inr s \<Longrightarrow> s \<le> 9223372036"
    and "\<And>err. ha_NewRequest (pl_http libs (po_client n)) (po_webhookURL n) = Some err \<Longrightarrow> as_retry_after err = None"
  shows "\<exists>r. postWithRetry libs n payload w = Some r"
proof -
  obtain b w1 where b: "pl_NewBackOff libs (tc_backoffInitial (po_timing n)) (tc_backoffMax (po_timing n))
      (tc_backoffMaxElapsed (po_timing n)) w = (b, w1)" by fastforce
  have "\<exists>k. rounds libs n payload b k w1 = None"
    by (rule decreasing_rounds_end [where remaining = left], rule round_takes_time [OF assms(1)], assumption)
      (rule postOnce_retry_after [OF _ _ assms(2,3)])
  then have "\<exists>r. postLoop libs n payload b w1 = Some r" by (simp only: postLoop_returns_iff)
  with b show ?thesis by (simp add: postWithRetry_def)
qed

lemma postWithRetry_returns_witness:
  "\<exists>r. postWithRetry (busy_libs (\<lambda>t. 5 \<le> t) busy_response) busy_poster ''{}'' ([], 0, []) = Some r"
  by (rule postWithRetry_returns [OF busy_deadline])
    (auto simp: busy_libs_def busy_response_def Atoi_one)

lemma rate_limited_loops:
  assumes "ha_NewRequest (pl_http libs (po_client n)) (po_webhookURL n) = None"
    and "\<And>req v. \<exists>resp v'. ha_Do (pl_http libs (po_client n)) req v = (Inr resp, v')
        \<and> rs_StatusCode resp = 429 \<and> rs_Header resp ''Retry-After'' = after"
    and "Atoi after = Inr s" "0 < s"
    and "\<And>d v. \<exists>v'. ce_wait (pl_ctx libs) d v = (None, v')"
  shows "postWithRetry libs n payload w = None"
proof -
  have "after \<noteq> ''''" using assms(3) by (auto simp: Atoi_def Let_def)
  then have once: "\<exists>e d v'. postOnce libs n payload v = (Some e, v') \<and> as_retry_after e = Some d" for v
    using assms(1,3,4) assms(2) [of "post_request n payload" "ce_with_timeout (pl_ctx libs) (tc_timeout (po_timing n)) v"]
    by (auto simp: postOnce_def response_error_def parseRetryAfter_def Let_def)
  have "\<exists>v'. retry_round libs n payload b v = Some v'" for b v
  proof -
    obtain e d v1 where e: "postOnce libs n payload v = (Some e, v1)" "as_retry_after e = Some d"
      using once by blast
    moreover obtain v' where "ce_wait (pl_ctx libs) d v1 = (None, v')" using assms(5) by blast
    ultimately show ?thesis by (simp add: retry_round_def retry_wait_def)
  qed
  then have "postLoop libs n payload b v = None" for b v
    by (intro endless_rounds [where P = "\<lambda>v. True"]) simp_all
  then show ?thesis by (simp add: postWithRetry_def case_prod_beta Let_def)
qed

text \<open>
  C24. Posting need not end without one. Against a server that answers every request with \<open>429\<close> and a
  positive \<open>Retry-After\<close>, and with a context that nobody ends, \<open>postWithRetry\<close> does not return: the
  limit on the elapsed time is only checked on the other branch.
\<close>

theorem rate_limited_forever:
  assumes "ha_NewRequest (pl_http libs (po_client n)) (po_webhookURL n) = None"
    and "\<And>req v. \<exists>resp v'. ha_Do (pl_http libs (po_client n)) req v = (Inr resp, v')
        \<and> rs_StatusCode resp = 429 \<and> rs_Header resp ''Retry-After'' = after"
    and "Atoi after = Inr s" "0 < s"
    and "\<And>d v. \<exists>v'. ce_wait (pl_ctx libs) d v = (None, v')"
  shows "postWithRetry libs n payload w = None"
  by (rule rate_limited_loops) (fact assms)+

lemma rate_limited_forever_witness:
  "postWithRetry (busy_libs (\<lambda>t. False) busy_response) busy_poster ''{}'' ([], 0, []) = None"
  by (rule rate_limited_forever [OF _ _ Atoi_one]) (auto simp: busy_libs_def busy_response_def)

section \<open>Acknowledged payloads\<close>

text \<open>
  \<open>ack\<close> records the bodies of the requests that were answered with success; nothing but \<open>Do\<close>
  changes it.
\<close>

definition acknowledges :: "('l, 'b, 'w) post_libs \<Rightarrow> ('w \<Rightarrow> string list) \<Rightarrow> bool" where
  "acknowledges libs ack \<longleftrightarrow>
     (\<forall>c req w. ack (snd (ha_Do (pl_http libs c) req w)) = ack w @
        (case fst (ha_Do (pl_http libs c) req w) of
           Inl err \<Rightarrow> [] | Inr resp \<Rightarrow> if response_ok resp then [rq_Body req] else []))
     \<and> (\<forall>c w. ack (ha_CloseBody (pl_http libs c) w) = ack w)
     \<and> (\<forall>d w. ack (snd (ce_wait (pl_ctx libs) d w)) = ack w)
     \<and> (\<forall>d w. ack (ce_with_timeout (pl_ctx libs) d w) = ack w)
     \<and> (\<forall>w. ack (ce_cancel (pl_ctx libs) w) = ack w) \<and> (\<forall>w. ack (snd (pl_Now libs w)) = ack w)
     \<and> (\<forall>i b w. ack (snd (pl_NewLimiter libs i b w)) = ack w) \<and> (\<forall>l w. ack (snd (pl_Wait libs l w)) = ack w)
     \<and> (\<forall>i m e w. ack (snd (pl_NewBackOff libs i m e w)) = ack w)
     \<and> (\<forall>b w. ack (snd (pl_NextBackOff libs b w)) = ack w)"

lemma acknowledges_simps:
  assumes "acknowledges libs ack"
  shows "ack (snd (ha_Do (pl_http libs c) req w)) = ack w @
        (case fst (ha_Do (pl_http libs c) req w) of
           Inl err \<Rightarrow> [] | Inr resp \<Rightarrow> if response_ok resp then [rq_Body req] else [])"
    "ack (ha_CloseBody (pl_http libs c) w) = ack w"
    "ack (snd (ce_wait (pl_ctx libs) d w)) = ack w"
    "ack (ce_with_timeout (pl_ctx libs) d w) = ack w"
    "ack (ce_cancel (pl_ctx libs) w) = ack w" "ack (snd (pl_Now libs w)) = ack w"
    "ack (snd (pl_NewLimiter libs i b w)) = ack w" "ack (snd (pl_Wait libs l w)) = ack w"
    "ack (snd (pl_NewBackOff libs i m e w)) = ack w"
    "ack (snd (pl_NextBackOff libs b' w)) = ack w"
  using assms unfolding acknowledges_def by simp_all

lemma response_error_result: "fst (response_error libs n resp w) = None \<longleftrightarrow> response_ok resp"
  by (auto simp: response_error_def response_ok_def Let_def split: prod.splits option.splits)

lemma postOnce_ack:
  assumes "acknowledges libs ack"
  shows "ack (snd (postOnce libs n payload w)) =
    ack w @ (if fst (postOnce libs n payload w) = None then [payload] else [])"
proof -
  note ack = acknowledges_simps [OF assms]
  have resp: "ack (snd (response_error libs n resp v)) = ack v" for resp v
    using response_error_world [of libs n resp v] ack(6) [of v] by auto
  have body: "rq_Body (post_request n payload) = payload" by (simp add: post_request_def)
  let ?api = "pl_http libs (po_client n)"
  let ?w0 = "ce_with_timeout (pl_ctx libs) (tc_timeout (po_timing n)) w"
  obtain r v1 where r: "ha_Do ?api (post_request n payload) ?w0 = (r, v1)" by fastforce
  with ack(1) [of "po_client n" "post_request n payload" ?w0] have
    "ack v1 = ack w @ (case r of Inl err \<Rightarrow> [] | Inr resp \<Rightarrow> if response_ok resp then [payload] else [])"
    by (cases r) (simp_all add: ack body)
  with r show ?thesis
    by (auto simp: postOnce_def Let_def case_prod_beta ack resp response_error_result
        split: option.split sum.split)
qed

lemma retry_wait_ack: "acknowledges libs ack \<Longrightarrow> ack (snd (retry_wait libs b e w)) = ack w"
  by (simp add: retry_wait_def acknowledges_simps split: option.split)

lemma retry_round_ack:
  assumes "acknowledges libs ack" "retry_round libs n payload b v = Some v'"
  shows "ack v' = ack v"
proof -
  obtain e v1 d v2 where r: "postOnce libs n payload v = (Some e, v1)" "retry_wait libs b e v1 = (Some d, v2)"
    "ce_wait (pl_ctx libs) d v2 = (None, v')"
    using assms(2) by (auto simp: retry_round_def split: prod.splits option.splits)
  with postOnce_ack [OF assms(1), of n payload v] retry_wait_ack [OF assms(1), of b e v1]
    acknowledges_simps(3) [OF assms(1), of d v2] show ?thesis by simp
qed

lemma postLoop_ack:
  assumes "acknowledges libs ack" "ctx_ok (pl_ctx libs)" "postLoop libs n payload b w = Some (res, w')"
  shows "ack w' = ack w @ (if res = None then [payload] else [])"
  using assms(3)
proof (induction rule: postLoop_induct)
  case (stop v)
  from stopped_outcome [OF stop] show ?case
  proof (elim disjE exE conjE)
    assume "postOnce libs n payload v = (None, w')" "res = None"
    with postOnce_ack [OF assms(1), of n payload v] show ?thesis by simp
  next
    fix e v1 assume "postOnce libs n payload v = (Some e, v1)" "retry_wait libs b e v1 = (None, w')" "res = Some e"
    with postOnce_ack [OF assms(1), of n payload v] retry_wait_ack [OF assms(1), of b e v1] show ?thesis by simp
  next
    fix e v1 d v2 x assume "postOnce libs n payload v = (Some e, v1)" "retry_wait libs b e v1 = (Some d, v2)"
      "ce_wait (pl_ctx libs) d v2 = (Some x, w')" "res = ce_err (pl_ctx libs) w'"
    moreover from this assms(2) have "res \<noteq> None" unfolding ctx_ok_def by (metis fst_conv option.simps(3) snd_conv)
    ultimately show ?thesis
      using postOnce_ack [OF assms(1), of n payload v] retry_wait_ack [OF assms(1), of b e v1]
        acknowledges_simps(3) [OF assms(1), of d v2] by simp
  qed
next
  case (round v v')
  with retry_round_ack [OF assms(1)] show ?case by simp
qed

lemma postWithRetry_ack:
  assumes "acknowledges libs ack" "ctx_ok (pl_ctx libs)" "postWithRetry libs n payload w = Some (res, w')"
  shows "ack w' = ack w @ (if res = None then [payload] else [])"
  using assms(3) postLoop_ack [OF assms(1,2)] acknowledges_simps(9) [OF assms(1)]
  by (simp add: postWithRetry_def case_prod_beta Let_def)

text \<open>
  C16. A payload is delivered exactly once or not at all. When \<open>postWithRetry\<close> returns without an error,
  exactly one of its requests was answered with success, and it carried the payload; when it returns
  an error, none was.
\<close>

theorem postWithRetry_acknowledged:
  assumes "acknowledges libs ack" "ctx_ok (pl_ctx libs)" "postWithRetry libs n payload w = Some (res, w')"
  shows "ack w' = ack w @ (if res = None then [payload] else [])"
  using assms by (rule postWithRetry_ack)

lemma busy_ack: "acknowledges (busy_libs over resp) (\<lambda>(m, t, a). a)"
  by (auto simp: acknowledges_def busy_libs_def)

lemma busy_ctx_ok: "ctx_ok (pl_ctx (busy_libs over resp))"
  by (auto simp: ctx_ok_def busy_libs_def)

lemma postWithRetry_acknowledged_witness:
  "postWithRetry (busy_libs (\<lambda>t. False) (busy_response\<lparr>rs_StatusCode := 200\<rparr>)) busy_poster ''{}'' ([], 0, [])
     = Some (None, ([], 0, [''{}'']))
   \<and> (\<lambda>(m, t, a). a) (([], 0, [''{}'']) :: busy_world) = [] @ [''{}'']"
proof -
  let ?libs = "busy_libs (\<lambda>t. False) (busy_response\<lparr>rs_StatusCode := 200\<rparr>)"
  have run: "postWithRetry ?libs busy_poster ''{}'' ([], 0, []) = Some (None, ([], 0, [''{}'']))"
    by (simp add: postWithRetry_def postLoop.simps postOnce_def response_error_def busy_libs_def busy_response_def
        response_ok_def post_request_def)
  with postWithRetry_acknowledged [OF busy_ack busy_ctx_ok run] show ?thesis by simp
qed

section \<open>One limiter per stack\<close>

text \<open>
  All notifications of a stack wait for one limiter: once a stack has got its limiter, it gets the
  same one again, whatever other stacks ask for theirs in between. (The map is only written by
  \<open>getLimiter\<close>: \<open>pl_NewLimiter\<close> leaves it alone.)
\<close>

theorem limiter_per_stack:
  assumes "lawful (po_limiters n)"
    and "\<And>i b w. cl_get (po_limiters n) (snd (pl_NewLimiter libs i b w)) = cl_get (po_limiters n) w"
  shows "fst (getLimiter libs n stack
      (fold (\<lambda>other w. snd (getLimiter libs n other w)) others (snd (getLimiter libs n stack w))))
    = fst (getLimiter libs n stack w)"
proof -
  let ?get = "\<lambda>w. mget (cl_get (po_limiters n) w) stack"
  have first: "?get (snd (getLimiter libs n stack w)) = Some (fst (getLimiter libs n stack w))"
    using assms(1) by (auto simp: getLimiter_def lawful_def Let_def case_prod_beta split: option.split)
  have keep: "?get (snd (getLimiter libs n other v)) = Some l" if "?get v = Some l" for other v l
    using that assms by (auto simp: getLimiter_def lawful_def Let_def case_prod_beta split: option.split)
  have "?get (fold (\<lambda>other w. snd (getLimiter libs n other w)) others v) = Some l" if "?get v = Some l" for v l
    using that by (induction others arbitrary: v) (simp_all add: keep)
  from this [OF first] show ?thesis by (simp add: getLimiter_def)
qed

lemma limiter_per_stack_witness:
  "fst (getLimiter (busy_libs over resp) busy_poster ''a''
      (snd (getLimiter (busy_libs over resp) busy_poster ''b''
        (snd (getLimiter (busy_libs over resp) busy_poster ''a'' ([], 0, [])))))) = 0"
proof -
  have "lawful (po_limiters busy_poster)"
    by (simp add: lawful_def busy_poster_def newHTTPPoster_def pair_cell_def case_prod_beta)
  moreover have "cl_get (po_limiters busy_poster) (snd (pl_NewLimiter (busy_libs over resp) i b w))
      = cl_get (po_limiters busy_poster) w" for i b w
    by (simp add: busy_poster_def newHTTPPoster_def pair_cell_def busy_libs_def case_prod_beta)
  ultimately show ?thesis
    using limiter_per_stack [of busy_poster "busy_libs over resp" "''a''" "[''b'']" "([], 0, [])"]
    by (simp add: getLimiter_def busy_poster_def newHTTPPoster_def pair_cell_def busy_libs_def)
qed

end
