(* ===== verification/Slack.thy ===== *)
theory Slack
  imports Http_Poster Notifier
begin

text \<open>
  \<open>internal/notify/slack.go\<close>: the Slack notifier. A message is what the code passes to the
  constructors of \<open>slack-go\<close>; its JSON encoding (\<open>marshal\<close>) is a parameter. Characters outside
  ASCII are their UTF-8 bytes.
\<close>

section \<open>Messages\<close>

definition slackMaxBlocks :: nat where
  "slackMaxBlocks = 50"

definition slackReservedBlocks :: nat where
  "slackReservedBlocks = 2"

definition slackMaxTransitions :: nat where
  "slackMaxTransitions = slackMaxBlocks - slackReservedBlocks"

datatype slack_text = SlackText (sx_Type: string) (sx_Text: string)

datatype slack_block =
    HeaderBlock slack_text
  | ContextBlock "slack_text list"
  | SectionBlock slack_text "slack_text list"

record slack_message =
  wm_Text :: string
  wm_Blocks :: "slack_block list"

definition newline :: string where
  "newline = [char_of (10 :: nat)]"

definition utf8_arrow :: string where
  "utf8_arrow = map char_of [226, 134, 146 :: nat]"

definition utf8_delta :: string where
  "utf8_delta = map char_of [206, 148 :: nat]"

definition utf8_bullet :: string where
  "utf8_bullet = map char_of [226, 128, 162 :: nat]"

definition statusLabel :: "string \<Rightarrow> string" where
  "statusLabel status = (if status = '''' then ''UNKNOWN'' else status)"

definition formatReplicaChange :: "replica_change \<Rightarrow> string" where
  "formatReplicaChange change =
     ''*Replicas:*'' @ newline @ ''Desired '' @ itoa (rc_CurrentDesired change) @ '' ('' @ utf8_delta @ '' ''
     @ itoa (rc_DesiredDelta change) @ ''), Running '' @ itoa (rc_CurrentRunning change) @ '' ('' @ utf8_delta
     @ '' '' @ itoa (rc_RunningDelta change) @ '')''"

definition formatImageChange :: "image_change \<Rightarrow> string" where
  "formatImageChange change =
     (let desired = (if ic_CurrentDesired change = '''' then ''unknown'' else ic_CurrentDesired change);
          actual = (if ic_CurrentActual change = '''' then ''unknown'' else ic_CurrentActual change)
      in ''*Image:*'' @ newline @ ''Desired `'' @ desired @ ''`'' @ newline @ ''Actual `'' @ actual @ ''`'')"

definition drift_part :: "drift_detail \<Rightarrow> string" where
  "drift_part detail =
     (if dd_Resource detail \<noteq> '''' \<and> dd_Name detail \<noteq> ''''
      then dd_Kind detail @ '' '' @ dd_Resource detail @ ''/'' @ dd_Name detail
      else if dd_Name detail \<noteq> '''' then dd_Kind detail @ '' '' @ dd_Name detail
      else dd_Kind detail)"

definition formatDrift :: "drift_detail list \<Rightarrow> string" where
  "formatDrift drift = ''*Drift:*'' @ newline @ utf8_bullet @ '' ''
     @ Join (map drift_part drift) (newline @ utf8_bullet @ '' '')"

definition buildTransitionBlock :: "service_transition \<Rightarrow> slack_block" where
  "buildTransitionBlock change =
     (let title = ''*'' @ tr_Name change @ ''*: `'' @ statusLabel (tr_PreviousStatus change) @ ''` '' @ utf8_arrow
            @ '' `'' @ statusLabel (tr_CurrentStatus change) @ ''`'';
          fields =
            (if length (tr_Reasons change) > 0
             then [SlackText ''mrkdwn'' (''*Reasons:*'' @ newline @ Join (tr_Reasons change) '', '')] else [])
            @ (case tr_ReplicaChange change of None \<Rightarrow> [] | Some rc \<Rightarrow> [SlackText ''mrkdwn'' (formatReplicaChange rc)])
            @ (case tr_ImageChange change of None \<Rightarrow> [] | Some ic \<Rightarrow> [SlackText ''mrkdwn'' (formatImageChange ic)])
            @ (if length (tr_Drift change) > 0 then [SlackText ''mrkdwn'' (formatDrift (tr_Drift change))] else [])
      in SectionBlock (SlackText ''mrkdwn'' title) fields)"

definition slack_summary :: "string \<Rightarrow> nat \<Rightarrow> nat \<Rightarrow> nat \<Rightarrow> string" where
  "slack_summary stack tot partIndex partTotal =
     (let summary = ''Stack '' @ stack @ '': '' @ itoa (int tot) @ '' service transition(s)''
      in if partTotal > 1
         then summary @ '' (part '' @ itoa (int partIndex) @ ''/'' @ itoa (int partTotal) @ '')'' else summary)"

definition buildSlackMessage ::
  "string \<Rightarrow> service_transition list \<Rightarrow> nat \<Rightarrow> nat \<Rightarrow> nat \<Rightarrow> slack_message" where
  "buildSlackMessage stack transitions tot partIndex partTotal =
     (let summary = slack_summary stack tot partIndex partTotal;
          header = HeaderBlock (SlackText ''plain_text'' summary);
          contextElements = [SlackText ''mrkdwn'' (''Stack: *'' @ stack @ ''*'')]
            @ (if partTotal > 1 then
                 [SlackText ''mrkdwn'' (''Batch: '' @ itoa (int partIndex) @ ''/'' @ itoa (int partTotal))] else [])
      in \<lparr>wm_Text = summary,
          wm_Blocks = [header, ContextBlock contextElements] @ map buildTransitionBlock transitions\<rparr>)"

function message_loop :: "string \<Rightarrow> service_transition list \<Rightarrow> nat \<Rightarrow> nat \<Rightarrow> slack_message list" where
  "message_loop stack transitions chunkTotal i =
     (let tot = length transitions in
      if i < tot then
        (let stop = (if i + slackMaxTransitions > tot then tot else i + slackMaxTransitions);
             partIndex = i div slackMaxTransitions + 1
         in buildSlackMessage stack (take (stop - i) (drop i transitions)) tot partIndex chunkTotal
            # message_loop stack transitions chunkTotal (i + slackMaxTransitions))
      else [])"
  by pat_completeness auto
termination
  by (relation "measure (\<lambda>(stack, transitions, chunkTotal, i). length transitions - i)")
    (auto simp: slackMaxTransitions_def slackMaxBlocks_def slackReservedBlocks_def)

definition buildSlackMessages :: "string \<Rightarrow> service_transition list \<Rightarrow> slack_message list" where
  "buildSlackMessages stack transitions =
     (if length transitions = 0 then []
      else if slackMaxTransitions \<le> 0 then [buildSlackMessage stack transitions (length transitions) 1 1]
      else
        let tot = length transitions;
            chunkTotal = (tot + slackMaxTransitions - 1) div slackMaxTransitions
        in message_loop stack transitions chunkTotal 0)"

section \<open>The notifier\<close>

record ('l, 'w) slack_notifier =
  sl_logger :: "log_event \<Rightarrow> 'w \<Rightarrow> 'w"
  sl_webhookURL :: string
  sl_timing :: timing_config
  sl_poster :: "('l, 'w) http_poster option"

definition WithSlackTiming ::
  "int \<Rightarrow> int \<Rightarrow> int \<Rightarrow> int \<Rightarrow> int \<Rightarrow> ('l, 'w) slack_notifier \<Rightarrow> ('l, 'w) slack_notifier" where
  "WithSlackTiming rateInterval rateBurst backoffInitial backoffMax backoffMaxElapsed s =
     s\<lparr>sl_timing := (sl_timing s)\<lparr>tc_rateInterval := rateInterval, tc_rateBurst := rateBurst,
       tc_backoffInitial := backoffInitial, tc_backoffMax := backoffMax,
       tc_backoffMaxElapsed := backoffMaxElapsed\<rparr>\<rparr>"

fun post_messages ::
  "('l, 'b, 'w) post_libs \<Rightarrow> ('m \<Rightarrow> goerror + string) \<Rightarrow> ('l, 'w) http_poster \<Rightarrow> 'm list \<Rightarrow> 'w \<Rightarrow>
   (goerror option \<times> 'w) option" where
  "post_messages libs marshal poster [] w = Some (None, w)"
| "post_messages libs marshal poster (message # messages) w =
     (case marshal message of
        Inl err \<Rightarrow> Some (Some (WrapErr ''marshal slack payload: '' err), w)
      | Inr payload \<Rightarrow>
          (case postWithRetry libs poster payload w of
             None \<Rightarrow> None
           | Some (Some err, w1) \<Rightarrow> Some (Some err, w1)
           | Some (None, w1) \<Rightarrow> post_messages libs marshal poster messages w1))"

definition default_stack :: "string \<Rightarrow> string" where
  "default_stack stack = (if stack = '''' then ''default'' else stack)"

text \<open>\<open>NewSlackNotifier\<close> always sets the poster; with a \<open>nil\<close> one, \<open>Notify\<close> would panic.\<close>

definition Slack_Notify ::
  "('l, 'b, 'w) post_libs \<Rightarrow> (slack_message \<Rightarrow> goerror + string) \<Rightarrow> ('l, 'w) slack_notifier \<Rightarrow> 'w notifier" where
  "Slack_Notify libs marshal n stack transitions w =
     (if length transitions = 0 then Some (None, w)
      else case sl_poster n of
        None \<Rightarrow> None
      | Some poster \<Rightarrow>
          (let stackName = default_stack stack
           in case waitForRateLimit libs poster stackName w of
                (Some err, w1) \<Rightarrow> Some (Some err, w1)
              | (None, w1) \<Rightarrow>
                  (let messages = buildSlackMessages stackName transitions
                   in case post_messages libs marshal poster messages w1 of
                        None \<Rightarrow> None
                      | Some (Some err, w2) \<Rightarrow> Some (Some err, w2)
                      | Some (None, w2) \<Rightarrow> Some (None, sl_logger n (log_event_of LDebug ''slack notification sent''
                          [(''stack'', LStr stackName), (''transitions'', LInt (int (length transitions))),
                           (''messages'', LInt (int (length messages)))]) w2))))"

definition Slack_postOnce ::
  "('l, 'b, 'w) post_libs \<Rightarrow> ('l, 'w) slack_notifier \<Rightarrow> string \<Rightarrow> 'w \<Rightarrow> (goerror option \<times> 'w) option" where
  "Slack_postOnce libs n payload w = map_option (\<lambda>poster. postOnce libs poster payload w) (sl_poster n)"

definition NewSlackNotifier ::
  "('l, 'b, 'w) post_libs \<Rightarrow> (slack_message \<Rightarrow> goerror + string) \<Rightarrow> ('l gmap, 'w) cell \<Rightarrow>
   (log_event \<Rightarrow> 'w \<Rightarrow> 'w) \<Rightarrow> string \<Rightarrow> (('l, 'w) slack_notifier \<Rightarrow> ('l, 'w) slack_notifier) list \<Rightarrow> 'w \<Rightarrow>
   'w notifier \<times> 'w" where
  "NewSlackNotifier libs marshal limiters logger webhookURL opts w =
     (if webhookURL = '''' then
        (let (n, w1) = NewNoop logger ''slack webhook not configured; notifications disabled'' w
         in (Noop_Notify n, w1))
      else
        (let n0 = \<lparr>sl_logger = logger, sl_webhookURL = webhookURL, sl_timing = defaultTiming, sl_poster = None\<rparr>;
             n1 = fold (\<lambda>opt n. opt n) opts n0;
             (poster, w1) = newHTTPPoster logger ''slack'' webhookURL ''application/json'' (sl_timing n1) limiters w
         in (Slack_Notify libs marshal (n1\<lparr>sl_poster := Some poster\<rparr>), w1)))"

interpretation slack: transition_notifier "Slack_Notify libs marshal n" for libs marshal n
  by unfold_locales (simp add: Slack_Notify_def)

section \<open>Chunks\<close>

text \<open>The blocks of a message after the header and the context.\<close>

definition transition_blocks :: "slack_message \<Rightarrow> slack_block list" where
  "transition_blocks m = drop 2 (wm_Blocks m)"

lemma slackMaxTransitions_48 [simp]: "slackMaxTransitions = 48"
  by (simp add: slackMaxTransitions_def slackMaxBlocks_def slackReservedBlocks_def)

lemma buildSlackMessage_simps [simp]:
  "transition_blocks (buildSlackMessage stack ts tot i n) = map buildTransitionBlock ts"
  "length (wm_Blocks (buildSlackMessage stack ts tot i n)) = length ts + 2"
  "wm_Text (buildSlackMessage stack ts tot i n) = slack_summary stack tot i n"
  by (simp_all add: buildSlackMessage_def transition_blocks_def Let_def)

declare message_loop.simps [simp del]

text \<open>The loop from the start of chunk \<open>j\<close>: the chunks are consecutive pieces of the list.\<close>

lemma message_loop_chunks:
  "message_loop stack ts n (48 * j) =
     map (\<lambda>p. buildSlackMessage stack (take 48 (drop (48 * p) ts)) (length ts) (p + 1) n)
       [j..<(length ts + 47) div 48]"
proof (induction "length ts - 48 * j" arbitrary: j rule: less_induct)
  case less
  show ?case
  proof (cases "48 * j < length ts")
    case False
    then have "\<not> j < (length ts + 47) div 48" by linarith
    with False show ?thesis by (simp add: message_loop.simps [of stack ts n "48 * j"])
  next
    case True
    then have j: "j < (length ts + 47) div 48" by linarith
    have "take ((if 48 * j + 48 > length ts then length ts else 48 * j + 48) - 48 * j) (drop (48 * j) ts)
        = take 48 (drop (48 * j) ts)"
      using True by simp
    moreover have "message_loop stack ts n (48 * j + 48) =
        map (\<lambda>p. buildSlackMessage stack (take 48 (drop (48 * p) ts)) (length ts) (p + 1) n)
          [Suc j..<(length ts + 47) div 48]"
      using less [of "Suc j"] True by (simp add: algebra_simps)
    ultimately show ?thesis using True j
      by (subst message_loop.simps) (simp add: upt_conv_Cons Let_def)
  qed
qed

lemma concat_chunks:
  "concat (map (\<lambda>p. take 48 (drop (48 * p) xs)) [j..<(length xs + 47) div 48]) = drop (48 * j) xs"
proof (induction "length xs - 48 * j" arbitrary: j rule: less_induct)
  case less
  show ?case
  proof (cases "48 * j < length xs")
    case False
    then have "\<not> j < (length xs + 47) div 48" by linarith
    with False show ?thesis by simp
  next
    case True
    then have j: "j < (length xs + 47) div 48" by linarith
    have "concat (map (\<lambda>p. take 48 (drop (48 * p) xs)) [Suc j..<(length xs + 47) div 48]) = drop (48 * Suc j) xs"
      by (rule less) (use True in simp)
    moreover have "drop (48 * j) xs = take 48 (drop (48 * j) xs) @ drop (48 * Suc j) xs"
      by (simp add: add.commute flip: drop_drop)
    ultimately show ?thesis using j by (simp add: upt_conv_Cons)
  qed
qed

text \<open>The messages in closed form.\<close>

lemma buildSlackMessages_chunks:
  "buildSlackMessages stack ts =
     (let n = (length ts + 47) div 48
      in map (\<lambda>p. buildSlackMessage stack (take 48 (drop (48 * p) ts)) (length ts) (p + 1) n) [0..<n])"
  using message_loop_chunks [of stack ts "(length ts + 47) div 48" 0]
  by (cases ts) (simp_all add: buildSlackMessages_def Let_def add.commute)

section \<open>Properties\<close>

text \<open>
  C22. The messages hold all transitions, each once, in order, and no message is too long for Slack:
  every one has at least one transition and at most fifty blocks, there are as few as that allows,
  and the \<open>i\<close>-th of \<open>n > 1\<close> says that it is part \<open>i\<close> of \<open>n\<close>.
\<close>

theorem buildSlackMessages_chunked:
  "let ms = buildSlackMessages stack ts; n = (length ts + 47) div 48 in
     concat (map transition_blocks ms) = map buildTransitionBlock ts
     \<and> list_all (\<lambda>m. transition_blocks m \<noteq> [] \<and> length (wm_Blocks m) \<le> slackMaxBlocks) ms
     \<and> length ms = n
     \<and> map wm_Text ms = map (\<lambda>i. slack_summary stack (length ts) (i + 1) n) [0..<n]"
proof -
  let ?n = "(length ts + 47) div 48"
  have "concat (map (\<lambda>p. take 48 (drop (48 * p) (map buildTransitionBlock ts))) [0..<?n]) = map buildTransitionBlock ts"
    using concat_chunks [of "map buildTransitionBlock ts" 0] by simp
  moreover have "48 * p < length ts" if "p < ?n" for p using that by linarith
  ultimately show ?thesis
    by (auto simp: buildSlackMessages_chunks Let_def list_all_iff comp_def take_map drop_map slackMaxBlocks_def)
qed

section \<open>Delivery\<close>

lemma waitForRateLimit_ack:
  assumes "acknowledges libs ack" "\<And>s w. ack (cl_put (po_limiters n) s w) = ack w"
  shows "ack (snd (waitForRateLimit libs n stack w)) = ack w"
  using assms(2) acknowledges_simps(7,8) [OF assms(1)]
  by (simp add: waitForRateLimit_def getLimiter_def Let_def case_prod_beta split: option.split)

lemma post_messages_ack:
  assumes "acknowledges libs ack" "ctx_ok (pl_ctx libs)" "\<And>m. marshal m = Inr (js m)"
  shows "post_messages libs marshal poster ms w = Some (res, w') \<Longrightarrow>
    \<exists>k \<le> length ms. ack w' = ack w @ map js (take k ms) \<and> (res = None \<longleftrightarrow> k = length ms)"
proof (induction ms arbitrary: w)
  case (Cons m ms)
  have m: "marshal m = Inr (js m)" by (rule assms(3))
  obtain e w1 where p: "postWithRetry libs poster (js m) w = Some (e, w1)"
    using Cons.prems m by (auto split: option.splits)
  note a = postWithRetry_ack [OF assms(1,2) p]
  show ?case
  proof (cases e)
    case (Some err)
    with Cons.prems p a m show ?thesis by (intro exI [of _ 0]) auto
  next
    case None
    with Cons.prems p m have "post_messages libs marshal poster ms w1 = Some (res, w')" by simp
    from Cons.IH [OF this] obtain k where "k \<le> length ms" "ack w' = ack w1 @ map js (take k ms)"
      "(res = None) = (k = length ms)" by blast
    with a None show ?thesis by (intro exI [of _ "Suc k"]) simp
  qed
qed simp

text \<open>The world a Slack notifier lives in: what was acknowledged changes by answered requests only.\<close>

definition slack_world ::
  "('l, 'b, 'w) post_libs \<Rightarrow> ('l, 'w) slack_notifier \<Rightarrow> ('l, 'w) http_poster \<Rightarrow> ('w \<Rightarrow> string list) \<Rightarrow> bool" where
  "slack_world libs n poster ack \<longleftrightarrow> acknowledges libs ack \<and> ctx_ok (pl_ctx libs) \<and> sl_poster n = Some poster
     \<and> (\<forall>s w. ack (cl_put (po_limiters poster) s w) = ack w) \<and> (\<forall>e w. ack (sl_logger n e w) = ack w)"

lemma slack_delivering:
  assumes "slack_world libs n poster ack" "\<And>m. marshal m = Inr (js m)"
  shows "delivering_notifier (Slack_Notify libs marshal n) ack
    (\<lambda>stack ts. map js (buildSlackMessages (default_stack stack) ts))"
proof
  fix stack :: string and ts w res w'
  assume run: "Slack_Notify libs marshal n stack ts w = Some (res, w')"
  let ?ms = "buildSlackMessages (default_stack stack) ts"
  note w = assms(1) [unfolded slack_world_def]
  have "\<exists>k \<le> length ?ms. ack w' = ack w @ map js (take k ?ms) \<and> (res = None \<longleftrightarrow> k = length ?ms)"
  proof (cases "ts = []")
    case True
    with run show ?thesis by (simp add: Slack_Notify_def buildSlackMessages_def)
  next
    case False
    then have ms: "0 < length ?ms" by (cases ts) (simp_all add: buildSlackMessages_chunks Let_def)
    obtain e w1 where l: "waitForRateLimit libs poster (default_stack stack) w = (e, w1)" by fastforce
    with waitForRateLimit_ack [of libs ack poster "default_stack stack" w] w have a1: "ack w1 = ack w" by simp
    show ?thesis
    proof (cases e)
      case (Some err)
      with run False l w a1 ms show ?thesis by (intro exI [of _ 0]) (auto simp: Slack_Notify_def Let_def)
    next
      case None
      with run False l w obtain e2 w2 where p: "post_messages libs marshal poster ?ms w1 = Some (e2, w2)"
        and r: "res = e2" "ack w' = ack w2"
        by (auto simp: Slack_Notify_def Let_def split: option.splits)
      from w have "acknowledges libs ack" "ctx_ok (pl_ctx libs)" by simp_all
      from post_messages_ack [OF this assms(2) p] r a1 show ?thesis by simp
    qed
  qed
  then show "\<exists>k \<le> length (map js ?ms). ack w' = ack w @ take k (map js ?ms) \<and> (res = None \<longleftrightarrow> k = length (map js ?ms))"
    by (simp add: take_map)
qed

text \<open>
  C15. When \<open>Notify\<close> of the Slack notifier returns without an error, the messages acknowledged by Slack
  since the call are exactly those built from the transitions, in order; when it returns an error, a
  proper prefix of them is. (\<open>js\<close> is the JSON encoding, which does not fail for messages.)
\<close>

theorem Slack_delivers:
  assumes "slack_world libs n poster ack" "\<And>m. marshal m = Inr (js m)"
    and "Slack_Notify libs marshal n stack ts w = Some (res, w')"
  shows "\<exists>k \<le> length (buildSlackMessages (default_stack stack) ts).
    ack w' = ack w @ map js (take k (buildSlackMessages (default_stack stack) ts))
    \<and> (res = None \<longleftrightarrow> k = length (buildSlackMessages (default_stack stack) ts))"
  using delivering_notifier.delivers [OF slack_delivering [OF assms(1,2)] assms(3)] by (simp add: take_map)

section \<open>Whether it returns\<close>

lemma post_messages_returns:
  assumes "\<And>payload w. \<exists>r. postWithRetry libs poster payload w = Some r"
  shows "\<exists>r. post_messages libs marshal poster ms w = Some r"
proof (induction ms arbitrary: w)
  case (Cons m ms)
  show ?case
  proof (cases "marshal m")
    case (Inr payload)
    obtain e w1 where "postWithRetry libs poster payload w = Some (e, w1)" using assms by fastforce
    with Inr Cons.IH [of w1] show ?thesis by (cases e) auto
  qed simp
qed simp

lemma Slack_returns:
  assumes "\<And>payload w. \<exists>r. postWithRetry libs poster payload w = Some r" "sl_poster n = Some poster"
  shows "returns (Slack_Notify libs marshal n)"
proof -
  have "Slack_Notify libs marshal n stack ts w \<noteq> None" for stack ts w
  proof -
    obtain e w1 where l: "waitForRateLimit libs poster (default_stack stack) w = (e, w1)" by fastforce
    obtain e2 w2 where "post_messages libs marshal poster (buildSlackMessages (default_stack stack) ts) w1 = Some (e2, w2)"
      using post_messages_returns [OF assms(1)] by fastforce
    with l assms(2) show ?thesis by (cases e; cases e2) (simp_all add: Slack_Notify_def Let_def)
  qed
  then show ?thesis by (simp add: returns_def)
qed

text \<open>A server that always asks to come back later: the notifier hangs on the first message.\<close>

lemma Slack_hangs:
  assumes "\<And>payload w. postWithRetry libs poster payload w = None" "sl_poster n = Some poster"
    and "\<And>w. fst (waitForRateLimit libs poster (default_stack stack) w) = None"
    and "\<And>m. marshal m = Inr (js m)" "ts \<noteq> []"
  shows "Slack_Notify libs marshal n stack ts w = None"
proof -
  have "buildSlackMessages (default_stack stack) ts \<noteq> []"
    using assms(5) by (cases ts) (simp_all add: buildSlackMessages_chunks Let_def)
  then obtain m ms where ms: "buildSlackMessages (default_stack stack) ts = m # ms" by (meson list.exhaust)
  obtain e w1 where l: "waitForRateLimit libs poster (default_stack stack) w = (e, w1)" by fastforce
  with assms(3) [of w] have "e = None" by simp
  moreover have "marshal m = Inr (js m)" by (rule assms(4))
  ultimately show ?thesis using l ms assms(1,2,5) by (simp add: Slack_Notify_def Let_def)
qed

definition demo_transition :: service_transition where
  "demo_transition = \<lparr>tr_Name = ''api'', tr_PreviousStatus = ''OK'', tr_CurrentStatus = ''FAILED'',
     tr_Reasons = [], tr_Drift = [], tr_ReplicaChange = None, tr_ImageChange = None\<rparr>"

definition demo_slack :: "(nat, busy_world) slack_notifier" where
  "demo_slack = \<lparr>sl_logger = (\<lambda>e w. w), sl_webhookURL = ''https://hooks'', sl_timing = defaultTiming,
     sl_poster = Some busy_poster\<rparr>"

definition ok_libs :: "(nat, unit, busy_world) post_libs" where
  "ok_libs = busy_libs (\<lambda>t. False) (busy_response\<lparr>rs_StatusCode := 200\<rparr>)"

lemma demo_slack_world: "slack_world ok_libs demo_slack busy_poster (\<lambda>(m, t, a). a)"
  unfolding slack_world_def ok_libs_def
  using busy_ack [of "\<lambda>t. False" "busy_response\<lparr>rs_StatusCode := 200\<rparr>"]
    busy_ctx_ok [of "\<lambda>t. False" "busy_response\<lparr>rs_StatusCode := 200\<rparr>"]
  by (auto simp: demo_slack_def busy_poster_def newHTTPPoster_def pair_cell_def)

lemma ok_libs_post: "postWithRetry ok_libs busy_poster payload (m, t, a) = Some (None, (m, t, a @ [payload]))"
  by (simp add: postWithRetry_def postLoop.simps postOnce_def response_error_def ok_libs_def busy_libs_def
      busy_response_def response_ok_def post_request_def)

lemma Slack_delivers_witness:
  "\<exists>w'. Slack_Notify ok_libs (\<lambda>m. Inr (wm_Text m)) demo_slack '''' [demo_transition] ([], 0, []) = Some (None, w')
    \<and> (\<lambda>(m, t, a). a) w' = [slack_summary ''default'' 1 1 1]"
proof -
  have ms: "buildSlackMessages (default_stack '''') [demo_transition]
      = [buildSlackMessage ''default'' [demo_transition] 1 1 1]"
    by (simp add: buildSlackMessages_chunks default_stack_def)
  have "\<exists>w'. Slack_Notify ok_libs (\<lambda>m. Inr (wm_Text m)) demo_slack '''' [demo_transition] ([], 0, []) = Some (None, w')"
  proof -
    have wait: "waitForRateLimit ok_libs busy_poster (default_stack '''') ([], 0, []) = (None, ([(''default'', 0)], 1, []))"
      by (simp add: waitForRateLimit_def getLimiter_def default_stack_def ok_libs_def busy_libs_def busy_poster_def
          newHTTPPoster_def pair_cell_def)
    have post: "\<exists>w'. post_messages ok_libs (\<lambda>m. Inr (wm_Text m)) busy_poster
        [buildSlackMessage ''default'' [demo_transition] 1 1 1] ([(''default'', 0)], 1, []) = Some (None, w')"
      by (simp add: ok_libs_post)
    have "sl_poster demo_slack = Some busy_poster" "sl_logger demo_slack e w = w" for e w
      by (simp_all add: demo_slack_def)
    with wait post show ?thesis by (auto simp add: Slack_Notify_def ms Let_def)
  qed
  then obtain w' where run: "Slack_Notify ok_libs (\<lambda>m. Inr (wm_Text m)) demo_slack '''' [demo_transition] ([], 0, [])
      = Some (None, w')" by blast
  from Slack_delivers [OF demo_slack_world, of "\<lambda>m. Inr (wm_Text m)" wm_Text, OF refl run] run show ?thesis
    by (auto simp: ms)
qed

end
