(* ===== verification/Webhook.thy ===== *)
theory Webhook
  imports Slack
begin

text \<open>
  \<open>internal/notify/webhook.go\<close>: the notifier for a generic webhook. \<open>text/template\<close> and
  \<open>encoding/json\<close> are parameters. The code may hold a \<open>nil\<close> \<open>*WebhookNotifier\<close>, which is \<open>None\<close>.
\<close>

definition defaultWebhookTemplate :: string where
  "defaultWebhookTemplate = ''{\"stack\":\"{{ .Stack }}\",\"transitions\":{{ toJson .Transitions }}}''"

record webhook_payload =
  wp_Stack :: string
  wp_Transitions :: "service_transition list"
  wp_GeneratedAt :: gotime

text \<open>\<open>tl_Parse\<close> gets the function \<open>toJson\<close> of the template's function map; \<open>'v\<close> are its arguments.\<close>

record ('v, 't) template_lib =
  tl_Marshal :: "'v \<Rightarrow> goerror + string"
  tl_Parse :: "('v \<Rightarrow> goerror + string) \<Rightarrow> string \<Rightarrow> goerror + 't"
  tl_Execute :: "'t \<Rightarrow> webhook_payload \<Rightarrow> goerror + string"

record ('l, 't, 'w) webhook_notifier =
  wn_logger :: "log_event \<Rightarrow> 'w \<Rightarrow> 'w"
  wn_template :: 't
  wn_poster :: "('l, 'w) http_poster"

definition toJson :: "('v, 't) template_lib \<Rightarrow> 'v \<Rightarrow> goerror + string" where
  "toJson lib v = (case tl_Marshal lib v of Inl err \<Rightarrow> Inl err | Inr encoded \<Rightarrow> Inr encoded)"

definition NewWebhookNotifier ::
  "('v, 't) template_lib \<Rightarrow> ('l gmap, 'w) cell \<Rightarrow> (log_event \<Rightarrow> 'w \<Rightarrow> 'w) \<Rightarrow> string \<Rightarrow> string \<Rightarrow> 'w \<Rightarrow>
   (goerror + ('l, 't, 'w) webhook_notifier option) \<times> 'w" where
  "NewWebhookNotifier lib limiters logger webhookURL tmpl w =
     (if webhookURL = '''' then (Inr None, w)
      else case tl_Parse lib (toJson lib) (if tmpl = '''' then defaultWebhookTemplate else tmpl) of
        Inl err \<Rightarrow> (Inl (WrapErr ''parse webhook template: '' err), w)
      | Inr parsed \<Rightarrow>
          (let (poster, w1) = newHTTPPoster logger ''webhook'' webhookURL ''application/json'' defaultTiming limiters w
           in (Inr (Some \<lparr>wn_logger = logger, wn_template = parsed, wn_poster = poster\<rparr>), w1)))"

definition Webhook_Notify ::
  "('l, 'b, 'w) post_libs \<Rightarrow> ('v, 't) template_lib \<Rightarrow> ('l, 't, 'w) webhook_notifier option \<Rightarrow> 'w notifier" where
  "Webhook_Notify libs lib wn stack transitions w =
     (if length transitions = 0 then Some (None, w)
      else case wn of
        None \<Rightarrow> Some (None, w)
      | Some n \<Rightarrow>
          (let stackName = default_stack stack
           in case waitForRateLimit libs (wn_poster n) stackName w of
                (Some err, w1) \<Rightarrow> Some (Some err, w1)
              | (None, w1) \<Rightarrow>
                  (let (now, w2) = pl_Now libs w1;
                       payload = \<lparr>wp_Stack = stackName, wp_Transitions = transitions, wp_GeneratedAt = now\<rparr>
                   in case tl_Execute lib (wn_template n) payload of
                        Inl err \<Rightarrow> Some (Some (WrapErr ''render webhook template: '' err), w2)
                      | Inr buf \<Rightarrow>
                          (case postWithRetry libs (wn_poster n) buf w2 of
                             None \<Rightarrow> None
                           | Some (Some err, w3) \<Rightarrow> Some (Some err, w3)
                           | Some (None, w3) \<Rightarrow> Some (None, wn_logger n (log_event_of LDebug ''webhook notification sent''
                               [(''stack'', LStr stackName), (''transitions'', LInt (int (length transitions)))]) w3)))))"

interpretation webhook: transition_notifier "Webhook_Notify libs lib wn" for libs lib wn
  by unfold_locales (simp add: Webhook_Notify_def)

lemma nil_webhook: "Webhook_Notify libs lib None stack ts w = Some (None, w)"
  by (simp add: Webhook_Notify_def)

section \<open>Properties\<close>

text \<open>
  C26. The webhook gets one request per call. When \<open>Notify\<close> returns without an error, exactly one
  payload has been acknowledged since the call, and it is what the template makes of the name of the
  stack and all the transitions; when it returns an error, none has.
\<close>

theorem Webhook_delivers:
  assumes "acknowledges libs ack" "ctx_ok (pl_ctx libs)"
    and "\<And>s w. ack (cl_put (po_limiters (wn_poster n)) s w) = ack w" "\<And>e w. ack (wn_logger n e w) = ack w"
    and "Webhook_Notify libs lib (Some n) stack ts w = Some (res, w')" "ts \<noteq> []"
  shows "if res = None
    then \<exists>now buf. tl_Execute lib (wn_template n)
        \<lparr>wp_Stack = default_stack stack, wp_Transitions = ts, wp_GeneratedAt = now\<rparr> = Inr buf
      \<and> ack w' = ack w @ [buf]
    else ack w' = ack w"
proof -
  obtain e w1 where l: "waitForRateLimit libs (wn_poster n) (default_stack stack) w = (e, w1)" by fastforce
  with waitForRateLimit_ack [OF assms(1,3), of "default_stack stack" w] have a1: "ack w1 = ack w" by simp
  obtain now w2 where now: "pl_Now libs w1 = (now, w2)" by fastforce
  with acknowledges_simps(6) [OF assms(1), of w1] a1 have a2: "ack w2 = ack w" by simp
  let ?p = "\<lparr>wp_Stack = default_stack stack, wp_Transitions = ts, wp_GeneratedAt = now\<rparr>"
  show ?thesis
  proof (cases e)
    case (Some err)
    with assms(5,6) l a1 show ?thesis by (auto simp: Webhook_Notify_def Let_def)
  next
    case e: None
    show ?thesis
    proof (cases "tl_Execute lib (wn_template n) ?p")
      case (Inl err)
      with e assms(5,6) l now a2 show ?thesis by (auto simp: Webhook_Notify_def Let_def)
    next
      case (Inr buf)
      with e assms(5,6) l now obtain e3 w3 where p: "postWithRetry libs (wn_poster n) buf w2 = Some (e3, w3)"
        and r: "res = e3" "ack w' = ack w3"
        by (auto simp: Webhook_Notify_def Let_def assms(4) split: option.splits)
      from postWithRetry_ack [OF assms(1,2) p] r a2 Inr show ?thesis by auto
    qed
  qed
qed

definition demo_templates :: "(unit, unit) template_lib" where
  "demo_templates = \<lparr>tl_Marshal = (\<lambda>v. Inr ''[]''), tl_Parse = (\<lambda>f s. Inr ()), tl_Execute = (\<lambda>t p. Inr (wp_Stack p))\<rparr>"

definition demo_webhook :: "(nat, unit, busy_world) webhook_notifier" where
  "demo_webhook = \<lparr>wn_logger = (\<lambda>e w. w), wn_template = (), wn_poster = busy_poster\<rparr>"

lemma Webhook_delivers_witness:
  "\<exists>w'. Webhook_Notify ok_libs demo_templates (Some demo_webhook) ''prod'' [demo_transition] ([], 0, []) = Some (None, w')
    \<and> (\<lambda>(m, t, a). a) w' = [''prod'']"
proof -
  have wait: "waitForRateLimit ok_libs busy_poster ''prod'' ([], 0, []) = (None, ([(''prod'', 0)], 1, []))"
    by (simp add: waitForRateLimit_def getLimiter_def ok_libs_def busy_libs_def busy_poster_def
        newHTTPPoster_def pair_cell_def)
  have now: "pl_Now ok_libs ([(''prod'', 0)], 1, []) = (1, ([(''prod'', 0)], 1, []))"
    by (simp add: ok_libs_def busy_libs_def)
  have "\<exists>w'. Webhook_Notify ok_libs demo_templates (Some demo_webhook) ''prod'' [demo_transition] ([], 0, []) = Some (None, w')"
    using wait now
    by (simp add: Webhook_Notify_def demo_webhook_def demo_templates_def default_stack_def ok_libs_post Let_def)
  then obtain w' where run: "Webhook_Notify ok_libs demo_templates (Some demo_webhook) ''prod'' [demo_transition] ([], 0, [])
      = Some (None, w')" by blast
  have "acknowledges ok_libs (\<lambda>(m, t, a). a)" "ctx_ok (pl_ctx ok_libs)"
    using demo_slack_world by (simp_all add: slack_world_def)
  from Webhook_delivers [OF this _ _ run] run show ?thesis
    by (auto simp: demo_webhook_def demo_templates_def default_stack_def busy_poster_def newHTTPPoster_def pair_cell_def)
qed

end
