(* ===== verification/Sentinel_Main.thy ===== *)
theory Sentinel_Main
  imports Coordinator Server Webhook
begin

text \<open>
  \<open>cmd/swarm-sentinel/main.go\<close>: how the components are put together. The libraries and the outside
  world are the record \<open>main_env\<close>; variables that goroutines share (the tracker, the collectors, the
  file system, the limiters of the two posters) are cells of the world. \<open>boot\<close> is \<open>main\<close> up to the
  call that blocks, and \<open>main_run\<close> that call. \<open>logger.Fatal()\<close> ends the process.
\<close>

section \<open>The libraries and the world\<close>

text \<open>\<open>me_env\<close> has the variables of a \<open>.env\<close> file, which only \<open>Load\<close> reads; \<open>me_process_env\<close> has not.\<close>

record ('l, 'b, 'v, 't, 'x, 'w) main_env =
  me_env :: sys_env
  me_process_env :: sys_env
  me_zerolog :: "'w zerolog"
  me_sys :: "'w sys"
  me_http :: "'w http_api"
  me_post :: "('l, 'b, 'w) post_libs"
  me_templates :: "('v, 't) template_lib"
  me_marshal :: "slack_message \<Rightarrow> goerror + string"
  me_parse_url :: "string \<Rightarrow> goerror + go_url"
  me_tls_client :: "tls_options \<Rightarrow> goerror + 'x"
  me_new_client :: "'x client_opts \<Rightarrow> goerror + 'w docker_api"
  me_time_ok :: "string \<Rightarrow> bool"
  me_ticker :: "'w ticker_factory"
  me_mutex :: "'w mutex"
  me_private_mutex :: "string \<Rightarrow> 'w mutex"
  me_files :: "(file_world, 'w) cell"
  me_tracker :: "(tracker option, 'w) cell"
  me_metrics :: "(metrics option, 'w) cell"
  me_slack :: "('l gmap, 'w) cell"
  me_webhook :: "('l gmap, 'w) cell"
  me_handlers :: "'w handler_env"

definition modify :: "('s, 'w) cell \<Rightarrow> ('s \<Rightarrow> 's) \<Rightarrow> 'w \<Rightarrow> 'w" where
  "modify c f w = cl_put c (f (cl_get c w)) w"

definition in_cell :: "('s, 'w) cell \<Rightarrow> ('s \<Rightarrow> 'a \<times> 's) \<Rightarrow> 'w \<Rightarrow> 'a \<times> 'w" where
  "in_cell c f w = (let (a, s) = f (cl_get c w) in (a, cl_put c s w))"

text \<open>The file store of this world, the tracker and the collectors as the runner calls them.\<close>

definition main_store :: "('l, 'b, 'v, 't, 'x, 'w) main_env \<Rightarrow> config \<Rightarrow> 'w store" where
  "main_store e cfg =
     (let fstore = NewFileStore (me_time_ok e) (cg_StatePath cfg)
      in \<lparr>st_Load = in_cell (me_files e) (st_Load fstore),
          st_Save = (\<lambda>s. in_cell (me_files e) (st_Save fstore s))\<rparr>)"

definition main_tracker :: "('l, 'b, 'v, 't, 'x, 'w) main_env \<Rightarrow> config \<Rightarrow> (int \<Rightarrow> int \<Rightarrow> 'w \<Rightarrow> 'w) option" where
  "main_tracker e cfg =
     (if cg_HealthPort cfg \<noteq> 0
      then Some (\<lambda>d n w. let (now, w1) = sy_now (me_sys e) w in modify (me_tracker e) (RecordCycle now d n) w1)
      else None)"

definition main_metrics :: "('l, 'b, 'v, 't, 'x, 'w) main_env \<Rightarrow> config \<Rightarrow> 'w metrics_ops option" where
  "main_metrics e cfg =
     (if cg_MetricsPort cfg \<noteq> 0
      then Some \<lparr>mo_IncDockerAPIErrors = modify (me_metrics e) IncDockerAPIErrors,
        mo_SetServicesTotal = (\<lambda>stack status n. modify (me_metrics e) (SetServicesTotal stack status n)),
        mo_IncAlertsTotal = (\<lambda>stack sev. modify (me_metrics e) (IncAlertsTotal stack sev)),
        mo_ObserveCycleDuration = (\<lambda>d. modify (me_metrics e) (ObserveCycleDuration d)),
        mo_SetLastSuccessfulCycleTimestamp = (\<lambda>t. modify (me_metrics e) (SetLastSuccessfulCycleTimestamp t))\<rparr>
      else None)"

section \<open>Starting up\<close>

definition secretStatus :: "string \<Rightarrow> string" where
  "secretStatus value = (if value = '''' then ''unset'' else ''set'')"

definition config_event :: "config \<Rightarrow> log_event" where
  "config_event cfg = log_event_of LInfo ''config loaded''
     [(''compose_url'', LStr (cg_ComposeURL cfg)), (''compose_timeout'', LDur (cg_ComposeTimeout cfg)),
      (''docker_proxy_url'', LStr (cg_DockerProxyURL cfg)), (''docker_api_timeout'', LDur (cg_DockerAPITimeout cfg)),
      (''stack_name'', LStr (cg_StackName cfg)), (''docker_tls_enabled'', LBool (cg_DockerTLSEnabled cfg)),
      (''poll_interval'', LDur (cg_PollInterval cfg)),
      (''alert_stabilization_cycles'', LInt (cg_AlertStabilizationCycles cfg)),
      (''log_level'', LStr (cg_LogLevel cfg)), (''state_path'', LStr (cg_StatePath cfg)),
      (''slack_webhook'', LStr (secretStatus (cg_SlackWebhookURL cfg))),
      (''webhook_url'', LStr (secretStatus (cg_WebhookURL cfg))),
      (''health_port'', LInt (cg_HealthPort cfg)), (''metrics_port'', LInt (cg_MetricsPort cfg)),
      (''dry_run'', LBool (cg_DryRun cfg))]"

definition docker_tls_config :: "config \<Rightarrow> tls_config" where
  "docker_tls_config cfg = \<lparr>tls_Enabled = cg_DockerTLSEnabled cfg, tls_Verify = cg_DockerTLSVerify cfg,
     tls_CAFile = cg_DockerTLSCA cfg, tls_CertFile = cg_DockerTLSCert cfg, tls_KeyFile = cg_DockerTLSKey cfg\<rparr>"

definition main_docker ::
  "('l, 'b, 'v, 't, 'x, 'w) main_env \<Rightarrow> config \<Rightarrow> goerror + 'w docker_client" where
  "main_docker e cfg = NewDockerClient (me_parse_url e) (me_tls_client e) (me_new_client e)
     (cg_DockerProxyURL cfg) (cg_DockerAPITimeout cfg) (docker_tls_config cfg)"

text \<open>The client as the runner calls it.\<close>

definition main_swarm ::
  "('l, 'b, 'v, 't, 'x, 'w) main_env \<Rightarrow> 'w docker_client \<Rightarrow> string \<Rightarrow> 'w \<Rightarrow> (goerror + actual_state option) \<times> 'w" where
  "main_swarm e client stack w =
     (let (r, w1) = GetActualState (sy_ctx (me_sys e)) (Some client) stack w
      in (map_sum (\<lambda>err. err) Some r, w1))"

text \<open>
  The notifier: Slack and webhook behind the fan-out, or the dry run. The second argument of the
  fan-out is an interface value that holds a \<open>*WebhookNotifier\<close>: never \<open>nil\<close> itself, even when the
  pointer is.
\<close>

definition main_notifier ::
  "('l, 'b, 'v, 't, 'x, 'w) main_env \<Rightarrow> (log_event \<Rightarrow> 'w \<Rightarrow> 'w) \<Rightarrow> config \<Rightarrow> 'w \<Rightarrow> (goerror + 'w notifier) \<times> 'w" where
  "main_notifier e logger cfg w =
     (let (slackNotifier, w1) =
            NewSlackNotifier (me_post e) (me_marshal e) (me_slack e) logger (cg_SlackWebhookURL cfg) [] w
      in case NewWebhookNotifier (me_templates e) (me_webhook e) logger (cg_WebhookURL cfg) (cg_WebhookTemplate cfg) w1 of
           (Inl err, w2) \<Rightarrow> (Inl err, w2)
         | (Inr webhookNotifier, w2) \<Rightarrow>
             (let notifier = Multi_Notify (NewMultiNotifier
                    [Some slackNotifier, Some (Webhook_Notify (me_post e) (me_templates e) webhookNotifier)])
              in (Inr (if cg_DryRun cfg then DryRun_Notify (NewDryRunNotifier logger notifier) else notifier), w2)))"

datatype 'w job = SingleStack "'w runner" | MultiStack "'w coordinator"

text \<open>\<open>Dead\<close>: the message of the call of \<open>Fatal\<close>. The error is \<open>None\<close> where it is not logged.\<close>

datatype 'w boot_result =
    Dead string "goerror option" 'w
  | Alive "'w job" "'w server list" 'w

definition fatal :: "(log_event \<Rightarrow> 'w \<Rightarrow> 'w) \<Rightarrow> string \<Rightarrow> goerror option \<Rightarrow> 'w \<Rightarrow> 'w boot_result" where
  "fatal logger msg err w = Dead msg err (logger (log_event_of LFatal msg
     (case err of None \<Rightarrow> [] | Some x \<Rightarrow> [(''error'', LErr x)])) w)"

definition main_coordinator ::
  "('l, 'b, 'v, 't, 'x, 'w) main_env \<Rightarrow> (log_event \<Rightarrow> 'w \<Rightarrow> 'w) \<Rightarrow> config \<Rightarrow> stack_mapping list \<Rightarrow>
   'w docker_client \<Rightarrow> 'w notifier \<Rightarrow> 'w coordinator" where
  "main_coordinator e logger cfg mappings client notifier =
     NewCoordinator logger cfg mappings (Some (main_swarm e client))
       [CoWithStateStore (Some (main_store e cfg)) (Some (me_mutex e)), CoWithNotifier (Some notifier),
        CoWithAlertStabilizationCycles (cg_AlertStabilizationCycles cfg),
        CoWithCycleTracker (main_tracker e cfg), CoWithMetrics (main_metrics e cfg)]"

definition main_runner ::
  "('l, 'b, 'v, 't, 'x, 'w) main_env \<Rightarrow> (log_event \<Rightarrow> 'w \<Rightarrow> 'w) \<Rightarrow> config \<Rightarrow> http_fetcher \<Rightarrow>
   'w docker_client \<Rightarrow> 'w notifier \<Rightarrow> 'w runner" where
  "main_runner e logger cfg f client notifier =
     NewRunner logger (cg_PollInterval cfg) (me_ticker e) (me_private_mutex e (cg_StackName cfg))
       [WithComposeFetcher (Some (Fetch (sy_ctx (me_sys e)) (me_http e) f)),
        WithSwarmClient (Some (main_swarm e client)), WithStackName (cg_StackName cfg),
        WithStateStore (Some (main_store e cfg)) (Some (me_mutex e)), WithNotifier (Some notifier),
        WithAlertStabilizationCycles (cg_AlertStabilizationCycles cfg),
        WithCycleTracker (main_tracker e cfg), WithMetrics (main_metrics e cfg)]"

text \<open>From the choice of the mode on.\<close>

definition boot_mode ::
  "('l, 'b, 'v, 't, 'x, 'w) main_env \<Rightarrow> (log_event \<Rightarrow> 'w \<Rightarrow> 'w) \<Rightarrow> config \<Rightarrow> 'w docker_client \<Rightarrow> 'w notifier \<Rightarrow>
   'w server list \<Rightarrow> 'w \<Rightarrow> 'w boot_result" where
  "boot_mode e logger cfg client notifier servers w =
     (case FindMappingFile (me_env e) of
        Inl err \<Rightarrow> fatal logger ''failed to find mapping file'' (Some err) w
      | Inr mappingPath \<Rightarrow>
          if mappingPath \<noteq> '''' then
            (case LoadMappingFile (me_env e) mappingPath of
               Inl err \<Rightarrow> fatal logger ''failed to load mapping file'' (Some err) w
             | Inr mappings \<Rightarrow>
                 Alive (MultiStack (main_coordinator e logger cfg mappings client notifier)) servers
                   (logger (log_event_of LInfo ''multi-stack mode''
                      [(''stacks'', LInt (int (length mappings))), (''mapping_file'', LStr mappingPath)]) w))
          else if cg_ComposeURL cfg = '''' then
            fatal logger ''SS_COMPOSE_URL is required in single-stack mode'' None w
          else
            (let w1 = logger (log_event_of LInfo ''single-stack mode''
                   [(''compose_url'', LStr (cg_ComposeURL cfg)), (''stack_name'', LStr (cg_StackName cfg))]) w
             in case NewHTTPFetcher (cg_ComposeURL cfg) (cg_ComposeTimeout cfg) 0 [] of
                  Inl err \<Rightarrow> fatal logger ''failed to initialize compose fetcher'' (Some err) w1
                | Inr f \<Rightarrow> Alive (SingleStack (main_runner e logger cfg f client notifier)) servers w1))"

text \<open>The tracker and the collectors exist when their port is set.\<close>

definition main_cells :: "('l, 'b, 'v, 't, 'x, 'w) main_env \<Rightarrow> config \<Rightarrow> 'w \<Rightarrow> 'w" where
  "main_cells e cfg w =
     (let w1 = cl_put (me_tracker e) (if cg_HealthPort cfg \<noteq> 0 then Some NewTracker else None) w
      in cl_put (me_metrics e) (if cg_MetricsPort cfg \<noteq> 0 then Some NewMetrics else None) w1)"

definition main_servers :: "('l, 'b, 'v, 't, 'x, 'w) main_env \<Rightarrow> config \<Rightarrow> 'w server list" where
  "main_servers e cfg =
     Start ((me_handlers e)\<lparr>hn_tracker := cl_get (me_tracker e),
         hn_metrics := (if cg_MetricsPort cfg \<noteq> 0 then Some (\<lambda>w. the (cl_get (me_metrics e) w)) else None)\<rparr>)
       (cg_PollInterval cfg) (cg_HealthPort cfg) (cg_MetricsPort cfg)"

definition boot :: "('l, 'b, 'v, 't, 'x, 'w) main_env \<Rightarrow> 'w \<Rightarrow> 'w boot_result" where
  "boot e w =
     (case LoadConfig (me_env e) of
        Inl err \<Rightarrow> (let (logger, w1) = NewLogger (me_zerolog e) w
                  in fatal logger ''failed to load config'' (Some err) w1)
      | Inr cfg \<Rightarrow>
          (let (logger, w1) = NewWithLevel (me_zerolog e) (cg_LogLevel cfg) w;
               w2 = logger (log_event_of LInfo ''swarm-sentinel starting'' []) (logger (config_event cfg) w1)
           in case main_docker e cfg of
                Inl err \<Rightarrow> fatal logger ''failed to initialize docker client'' (Some err) w2
              | Inr client \<Rightarrow>
                  (case Ping (sy_ctx (me_sys e)) (Some client) w2 of
                     (Inl err, w3) \<Rightarrow> fatal logger ''docker api unreachable'' (Some err) w3
                   | (Inr _, w3) \<Rightarrow>
                       (case main_notifier e logger cfg (main_cells e cfg w3) of
                          (Inl err, w4) \<Rightarrow> fatal logger ''failed to initialize webhook notifier'' (Some err) w4
                        | (Inr notifier, w4) \<Rightarrow>
                            boot_mode e logger cfg client notifier (main_servers e cfg) w4))))"

section \<open>Running\<close>

definition main_spawn :: "('l, 'b, 'v, 't, 'x, 'w) main_env \<Rightarrow> 'w spawn_env" where
  "main_spawn e = \<lparr>se_sys = me_sys e, se_api = me_http e, se_ticker = me_ticker e, se_mutex = me_private_mutex e\<rparr>"

text \<open>The call that blocks; \<open>events k\<close> is what the selects of the runner of stack \<open>k\<close> receive.\<close>

definition main_run ::
  "('l, 'b, 'v, 't, 'x, 'w) main_env \<Rightarrow> (string \<Rightarrow> run_event list) \<Rightarrow> 'w job \<Rightarrow> 'w \<Rightarrow>
   ('w job \<times> 'w) run_result" where
  "main_run e events job w =
     (case job of
        SingleStack r \<Rightarrow> map_run_result (\<lambda>(r, w). (SingleStack r, w)) (Run (me_sys e) (events (stackKey r)) r w)
      | MultiStack c \<Rightarrow> map_run_result (\<lambda>(c, w). (MultiStack c, w)) (coordinator_Run (main_spawn e) events c w))"

text \<open>The end of \<open>main\<close>: the exit code, when it gets there; the deferred \<open>Close\<close> only logs.\<close>

definition main_exit ::
  "(log_event \<Rightarrow> 'w \<Rightarrow> 'w) \<Rightarrow> 'w docker_client \<Rightarrow> ('w job \<times> 'w) run_result \<Rightarrow> (int \<times> 'w) option" where
  "main_exit logger client res =
     (case res of
        Hanging \<Rightarrow> None
      | Waiting s \<Rightarrow> None
      | Returned (Some err) (job, w) \<Rightarrow>
          Some (1, logger (log_event_of LFatal
            (case job of SingleStack r \<Rightarrow> ''runner exited with error'' | MultiStack c \<Rightarrow> ''coordinator exited with error'')
            [(''error'', LErr err)]) w)
      | Returned None (job, w) \<Rightarrow>
          (case Close (Some client) w of
             (Some err, w1) \<Rightarrow>
               Some (0, logger (log_event_of LWarn ''error closing docker client'' [(''error'', LErr err)]) w1)
           | (None, w1) \<Rightarrow> Some (0, w1)))"

section \<open>The health check of the container\<close>

definition runHealthcheck :: "sys_env \<Rightarrow> 'w http_api \<Rightarrow> 'w \<Rightarrow> int \<times> 'w" where
  "runHealthcheck env api w =
     (let port = (if Getenv env ''SS_HEALTH_PORT'' = '''' then ''8080'' else Getenv env ''SS_HEALTH_PORT'');
          url = ''http://localhost:'' @ port @ ''/healthz''
      in case ha_NewRequest api url of
           Some err \<Rightarrow> (1, w)
         | None \<Rightarrow>
             (case ha_Do api \<lparr>rq_Method = ''GET'', rq_URL = url, rq_Header = [], rq_Body = ''''\<rparr> w of
                (Inl err, w1) \<Rightarrow> (1, w1)
              | (Inr resp, w1) \<Rightarrow> (if rs_StatusCode resp \<noteq> 200 then 1 else 0, ha_CloseBody api w1)))"

text \<open>The flags come first: they exit, or the program starts.\<close>

datatype 'w main_result =
    Printed string
  | Probed int 'w
  | Booted "'w boot_result"

definition sentinel_main ::
  "('l, 'b, 'v, 't, 'x, 'w) main_env \<Rightarrow> string \<Rightarrow> bool \<Rightarrow> bool \<Rightarrow> 'w \<Rightarrow> 'w main_result" where
  "sentinel_main e version versionFlag healthcheckFlag w =
     (if versionFlag then Printed (''swarm-sentinel '' @ version)
      else if healthcheckFlag then (let (code, w1) = runHealthcheck (me_process_env e) (me_http e) w in Probed code w1)
      else Booted (boot e w))"

section \<open>After an accepted configuration\<close>

lemma NewHTTPFetcher_prefix:
  assumes "HasPrefix url ''http://'' \<or> HasPrefix url ''https://''" "0 < timeout"
  shows "\<exists>f. NewHTTPFetcher url timeout m [] = Inr f"
proof -
  from assms(1) obtain rest where url: "url = ''h'' @ rest" by (auto simp: HasPrefix_iff)
  have "TrimSpace url \<noteq> ''''"
    using url by (auto simp: TrimSpace_def space_char_def Let_def dropWhile_eq_Nil_conv)
  with assms show ?thesis by (auto simp: NewHTTPFetcher_def Let_def)
qed

lemma fatal_not_Alive [simp]: "fatal logger msg err w \<noteq> Alive job servers w'"
  by (simp add: fatal_def)

lemma boot_Alive:
  assumes "boot e w = Alive job servers w'"
  shows "\<exists>cfg logger client notifier w1 w2. LoadConfig (me_env e) = Inr cfg \<and> servers = main_servers e cfg
    \<and> main_notifier e logger cfg w1 = (Inr notifier, w2)
    \<and> boot_mode e logger cfg client notifier servers w2 = Alive job servers w'"
proof -
  obtain cfg where cfg: "LoadConfig (me_env e) = Inr cfg"
    using assms by (auto simp: boot_def Let_def split: sum.splits prod.splits)
  then obtain logger client notifier w1 w2 where b:
    "main_notifier e logger cfg w1 = (Inr notifier, w2)"
    "boot_mode e logger cfg client notifier (main_servers e cfg) w2 = Alive job servers w'"
    using assms by (auto simp: boot_def Let_def split: sum.splits prod.splits)
  from b(2) have "servers = main_servers e cfg"
    by (auto simp: boot_mode_def Let_def split: sum.splits if_splits)
  with cfg b show ?thesis by blast
qed

text \<open>Whatever the mode, the job of an accepted configuration uses this store, mutex and notifier.\<close>

lemma boot_mode_Alive:
  assumes "boot_mode e logger cfg client notifier servers w = Alive job s w'"
  shows "(\<exists>f. job = SingleStack (main_runner e logger cfg f client notifier))
    \<or> (\<exists>path ms. FindMappingFile (me_env e) = Inr path \<and> LoadMappingFile (me_env e) path = Inr ms \<and> path \<noteq> ''''
        \<and> job = MultiStack (main_coordinator e logger cfg ms client notifier))"
  using assms by (auto simp: boot_mode_def Let_def split: sum.splits if_splits)

lemma main_runner_fields:
  "rn_stateStore (main_runner e logger cfg f client notifier) = Some (main_store e cfg)"
  "rn_stateMu (main_runner e logger cfg f client notifier) = Some (me_mutex e)"
  "rn_notifier (main_runner e logger cfg f client notifier) = Some notifier"
  "rn_runOnce (main_runner e logger cfg f client notifier) = None"
  "rn_stackName (main_runner e logger cfg f client notifier) = cg_StackName cfg"
  "rn_alertStabilizationCycles (main_runner e logger cfg f client notifier) = cg_AlertStabilizationCycles cfg"
  by (simp_all add: main_runner_def NewRunner_def runner_option_defs Let_def)

lemma main_coordinator_fields:
  "co_stateStore (main_coordinator e logger cfg ms client notifier) = Some (main_store e cfg)"
  "co_stateMu (main_coordinator e logger cfg ms client notifier) = Some (me_mutex e)"
  "co_notifier (main_coordinator e logger cfg ms client notifier) = Some notifier"
  "co_mappings (main_coordinator e logger cfg ms client notifier) = ms"
  "co_cfg (main_coordinator e logger cfg ms client notifier) = cfg"
  "co_alertStabilizationCycles (main_coordinator e logger cfg ms client notifier) = cg_AlertStabilizationCycles cfg"
  by (simp_all add: main_coordinator_def NewCoordinator_def CoWithStateStore_def CoWithNotifier_def
      CoWithAlertStabilizationCycles_def CoWithCycleTracker_def CoWithMetrics_def)

section \<open>Notifiers that return\<close>

lemma Noop_returns: "returns (Noop_Notify n)"
  by (simp add: returns_def Noop_Notify_def)

lemma DryRun_returns: "returns (DryRun_Notify n)"
  by (simp add: returns_def DryRun_Notify_def)

lemma nil_webhook_returns: "returns (Webhook_Notify libs lib None)"
  by (simp add: returns_def Webhook_Notify_def)

definition local_alerts :: "config \<Rightarrow> bool" where
  "local_alerts cfg \<longleftrightarrow> cg_DryRun cfg \<or> cg_SlackWebhookURL cfg = '''' \<and> cg_WebhookURL cfg = ''''"

lemma main_notifier_returns:
  assumes "main_notifier e logger cfg w = (Inr notifier, w')" "local_alerts cfg"
  shows "returns notifier"
proof (cases "cg_DryRun cfg")
  case True
  with assms(1) show ?thesis
    by (auto simp: main_notifier_def Let_def DryRun_returns split: prod.splits sum.splits)
next
  case False
  with assms(2) have urls: "cg_SlackWebhookURL cfg = ''''" "cg_WebhookURL cfg = ''''"
    by (simp_all add: local_alerts_def)
  from assms(1) False urls obtain n where
    "notifier = Multi_Notify (NewMultiNotifier [Some (Noop_Notify n), Some (Webhook_Notify (me_post e) (me_templates e) None)])"
    by (auto simp: main_notifier_def NewSlackNotifier_def NewWebhookNotifier_def Let_def split: prod.splits)
  moreover have "returns (Multi_Notify (NewMultiNotifier ns))"
    if "ns = [Some (Noop_Notify n), Some (Webhook_Notify (me_post e) (me_templates e) None)]" for ns
    by (rule Multi_returns) (use that in \<open>auto simp: Noop_returns nil_webhook_returns\<close>)
  ultimately show ?thesis by simp
qed

lemma main_notifier_quiet:
  assumes "main_notifier e logger cfg w = (Inr notifier, w')"
  shows "transition_notifier notifier"
proof -
  let ?webhook = "\<lambda>wn. Webhook_Notify (me_post e) (me_templates e) wn"
  have slack: "transition_notifier (fst (NewSlackNotifier (me_post e) (me_marshal e) (me_slack e) logger url opts v))" for url opts v
    by (simp add: NewSlackNotifier_def Let_def case_prod_beta noop.transition_notifier_axioms
        slack.transition_notifier_axioms)
  have "transition_notifier (Multi_Notify (NewMultiNotifier [Some s, Some (?webhook wn)]))"
    if "transition_notifier s" for s wn
    by (rule Multi_quiet) (use that webhook.transition_notifier_axioms in auto)
  with slack assms show ?thesis
    by (auto simp: main_notifier_def Let_def case_prod_beta dry_run.transition_notifier_axioms
        split: sum.splits prod.splits)
qed

section \<open>How starting up can fail\<close>

definition docker_tls_options :: "config \<Rightarrow> tls_options" where
  "docker_tls_options cfg = \<lparr>to_CAFile = cg_DockerTLSCA cfg, to_CertFile = cg_DockerTLSCert cfg,
     to_KeyFile = cg_DockerTLSKey cfg, to_ExclusiveRootPools = cg_DockerTLSVerify cfg,
     to_InsecureSkipVerify = \<not> cg_DockerTLSVerify cfg\<rparr>"

text \<open>The world in which the daemon is pinged: the logger is made, and two lines are written.\<close>

definition started :: "('l, 'b, 'v, 't, 'x, 'w) main_env \<Rightarrow> config \<Rightarrow> 'w \<Rightarrow> 'w" where
  "started e cfg w =
     (let (logger, w1) = NewWithLevel (me_zerolog e) (cg_LogLevel cfg) w
      in logger (log_event_of LInfo ''swarm-sentinel starting'' []) (logger (config_event cfg) w1))"

text \<open>The daemon answered the ping of the client of this configuration.\<close>

definition daemon_answers :: "('l, 'b, 'v, 't, 'x, 'w) main_env \<Rightarrow> config \<Rightarrow> 'w \<Rightarrow> bool" where
  "daemon_answers e cfg w \<longleftrightarrow> (\<exists>client v. main_docker e cfg = Inr client \<and>
     Ping (sy_ctx (me_sys e)) (Some client) (started e cfg w) = (Inr (), v))"

text \<open>
  \<open>boot_cause e cfg w msg x\<close>: in this run, the call that \<open>msg\<close> names has been reached, was made with
  the values of the configuration, and has failed with \<open>x\<close>.
\<close>

inductive boot_cause ::
  "('l, 'b, 'v, 't, 'x, 'w) main_env \<Rightarrow> config \<Rightarrow> 'w \<Rightarrow> string \<Rightarrow> goerror \<Rightarrow> bool"
  for e :: "('l, 'b, 'v, 't, 'x, 'w) main_env" and cfg :: config and w :: 'w where
  tls_files: "cg_DockerTLSEnabled cfg \<Longrightarrow> me_tls_client e (docker_tls_options cfg) = Inl x \<Longrightarrow>
    boot_cause e cfg w ''failed to initialize docker client'' x"
| tls_socket: "cg_DockerTLSEnabled cfg \<Longrightarrow> me_parse_url e (cg_DockerProxyURL cfg) = Inr u \<Longrightarrow>
    u_Scheme u \<in> {''unix'', ''npipe''} \<Longrightarrow>
    boot_cause e cfg w ''failed to initialize docker client''
      (PlainErr ''docker tls is not supported for unix or npipe hosts'')"
| client: "docker_options (me_parse_url e) (me_tls_client e) (cg_DockerProxyURL cfg)
      (cg_DockerAPITimeout cfg) (docker_tls_config cfg) = Inr opts \<Longrightarrow> me_new_client e opts = Inl x \<Longrightarrow>
    boot_cause e cfg w ''failed to initialize docker client'' x"
| daemon: "main_docker e cfg = Inr client \<Longrightarrow>
    Ping (sy_ctx (me_sys e)) (Some client) (started e cfg w) = (Inl x, v) \<Longrightarrow>
    boot_cause e cfg w ''docker api unreachable'' x"
| template: "daemon_answers e cfg w \<Longrightarrow> cg_WebhookURL cfg \<noteq> '''' \<Longrightarrow>
    tl_Parse (me_templates e) (toJson (me_templates e))
      (if cg_WebhookTemplate cfg = '''' then defaultWebhookTemplate else cg_WebhookTemplate cfg) = Inl x \<Longrightarrow>
    boot_cause e cfg w ''failed to initialize webhook notifier'' (WrapErr ''parse webhook template: '' x)"
| mapping_file: "daemon_answers e cfg w \<Longrightarrow> FindMappingFile (me_env e) = Inr path \<Longrightarrow> path \<noteq> '''' \<Longrightarrow>
    LoadMappingFile (me_env e) path = Inl x \<Longrightarrow>
    boot_cause e cfg w ''failed to load mapping file'' x"
| url_scheme: "daemon_answers e cfg w \<Longrightarrow> FindMappingFile (me_env e) = Inr '''' \<Longrightarrow>
    \<not> HasPrefix (cg_ComposeURL cfg) ''http://'' \<Longrightarrow> \<not> HasPrefix (cg_ComposeURL cfg) ''https://'' \<Longrightarrow>
    NewHTTPFetcher (cg_ComposeURL cfg) (cg_ComposeTimeout cfg) 0 [] = Inl x \<Longrightarrow>
    boot_cause e cfg w ''failed to initialize compose fetcher'' x"

lemma docker_tls_fails:
  assumes "tls_complete env cfg" "docker_tls tls_client (docker_tls_config cfg) = Inl x"
  shows "cg_DockerTLSEnabled cfg \<and> tls_client (docker_tls_options cfg) = Inl x"
  using assms by (auto simp: docker_tls_def docker_tls_config_def docker_tls_options_def tls_complete_def
      split: if_splits sum.splits)

lemma main_docker_fails:
  assumes "LoadConfig (me_env e) = Inr cfg" "ev_ParseURL (me_env e) = me_parse_url e"
    and "main_docker e cfg = Inl x"
  shows "boot_cause e cfg w ''failed to initialize docker client'' x"
proof (cases "docker_options (me_parse_url e) (me_tls_client e) (cg_DockerProxyURL cfg)
      (cg_DockerAPITimeout cfg) (docker_tls_config cfg)")
  case (Inr opts)
  with assms(3) have "me_new_client e opts = Inl x"
    by (auto simp: main_docker_def NewDockerClient_def split: sum.splits)
  with Inr show ?thesis by (rule client)
next
  case (Inl x')
  with assms(3) have x: "x' = x" by (simp add: main_docker_def NewDockerClient_def)
  from LoadConfig_facts [OF assms(1)] have tls: "tls_complete (me_env e) cfg" by simp
  obtain u where u: "me_parse_url e (cg_DockerProxyURL cfg) = Inr u" "u_Scheme u \<noteq> ''''" "u_Host u \<noteq> ''''"
    using LoadConfig_docker_url [OF assms(1)] assms(2) by auto
  show ?thesis
  proof (cases "docker_tls (me_tls_client e) (docker_tls_config cfg)")
    case tls_err: (Inl y)
    with Inl x have "y = x" by (simp add: docker_options_def)
    with docker_tls_fails [OF tls, of "me_tls_client e" y] tls_err show ?thesis by (auto intro: tls_files)
  next
    case (Inr c)
    have "tls_Enabled (docker_tls_config cfg) = cg_DockerTLSEnabled cfg" by (simp add: docker_tls_config_def)
    with Inl Inr have n: "normalizeDockerHost (me_parse_url e) (cg_DockerProxyURL cfg) (cg_DockerTLSEnabled cfg) = Inl x'"
      by (auto simp: docker_options_def Let_def split: sum.splits if_splits)
    have https: "u_Scheme u = ''https'' \<Longrightarrow> cg_DockerTLSEnabled cfg"
      using tls u(1) assms(2) by (auto simp: tls_complete_def split: if_splits)
    with n u have "cg_DockerTLSEnabled cfg" "u_Scheme u \<in> {''unix'', ''npipe''}"
      "x' = PlainErr ''docker tls is not supported for unix or npipe hosts''"
      by (auto simp: normalizeDockerHost_def split: if_splits)
    with x u(1) show ?thesis by (auto intro: tls_socket)
  qed
qed

lemma boot_mode_Dead:
  assumes "LoadConfig (me_env e) = Inr cfg" "daemon_answers e cfg w"
    and "boot_mode e logger cfg client notifier servers v = Dead msg err w'"
  shows "\<exists>x. err = Some x \<and> boot_cause e cfg w msg x"
proof -
  from LoadConfig_facts [OF assms(1)] obtain path where
    path: "FindMappingFile (me_env e) = Inr path" "(path = '''') = (cg_ComposeURL cfg \<noteq> '''')"
    and t: "0 < cg_ComposeTimeout cfg"
    by (auto simp: sources_ok_def numbers_ok_def)
  show ?thesis
  proof (cases "path = ''''")
    case False
    with path assms(3) obtain x where "LoadMappingFile (me_env e) path = Inl x" "err = Some x"
      "msg = ''failed to load mapping file''"
      by (auto simp: boot_mode_def fatal_def split: sum.splits)
    with mapping_file [OF assms(2) path(1) False] show ?thesis by auto
  next
    case True
    with path assms(3) obtain x where x: "NewHTTPFetcher (cg_ComposeURL cfg) (cg_ComposeTimeout cfg) 0 [] = Inl x"
      and m: "err = Some x" "msg = ''failed to initialize compose fetcher''"
      by (auto simp: boot_mode_def fatal_def Let_def split: sum.splits)
    from x NewHTTPFetcher_prefix [OF _ t, of "cg_ComposeURL cfg" 0]
    have "\<not> HasPrefix (cg_ComposeURL cfg) ''http://''" "\<not> HasPrefix (cg_ComposeURL cfg) ''https://''" by auto
    with url_scheme [OF assms(2)] path(1) True x m show ?thesis by auto
  qed
qed

lemma main_notifier_fails:
  assumes "daemon_answers e cfg w" "main_notifier e logger cfg v = (Inl x, v')"
  shows "boot_cause e cfg w ''failed to initialize webhook notifier'' x"
proof -
  from assms(2) obtain y where y: "cg_WebhookURL cfg \<noteq> ''''"
    "tl_Parse (me_templates e) (toJson (me_templates e))
      (if cg_WebhookTemplate cfg = '''' then defaultWebhookTemplate else cg_WebhookTemplate cfg) = Inl y"
    and x: "x = WrapErr ''parse webhook template: '' y"
    by (auto simp: main_notifier_def NewWebhookNotifier_def Let_def split: prod.splits sum.splits if_splits)
  show ?thesis unfolding x by (rule template [OF assms(1) y])
qed

lemma boot_Dead:
  assumes "LoadConfig (me_env e) = Inr cfg" "ev_ParseURL (me_env e) = me_parse_url e"
    and "boot e w = Dead msg err w'"
  shows "\<exists>x. err = Some x \<and> boot_cause e cfg w msg x"
proof -
  obtain logger w1 where l: "NewWithLevel (me_zerolog e) (cg_LogLevel cfg) w = (logger, w1)" by fastforce
  have w2: "logger (log_event_of LInfo ''swarm-sentinel starting'' []) (logger (config_event cfg) w1) = started e cfg w"
    using l by (simp add: started_def)
  note b = assms(3) [unfolded boot_def assms(1) sum.case Let_def l prod.case w2]
  show ?thesis
  proof (cases "main_docker e cfg")
    case (Inl x)
    with b have "msg = ''failed to initialize docker client''" "err = Some x" by (simp_all add: fatal_def)
    with main_docker_fails [OF assms(1,2) Inl] show ?thesis by simp
  next
    case (Inr c)
    obtain p w3 where p: "Ping (sy_ctx (me_sys e)) (Some c) (started e cfg w) = (p, w3)" by fastforce
    show ?thesis
    proof (cases p)
      case (Inl x)
      with b Inr p have "msg = ''docker api unreachable''" "err = Some x" by (simp_all add: fatal_def)
      with daemon [OF Inr p [unfolded Inl]] show ?thesis by simp
    next
      case ok: (Inr u)
      with Inr p have answers: "daemon_answers e cfg w" by (simp add: daemon_answers_def)
      obtain n w4 where n: "main_notifier e logger cfg (main_cells e cfg w3) = (n, w4)" by fastforce
      show ?thesis
      proof (cases n)
        case (Inl x)
        with b Inr p ok n have "msg = ''failed to initialize webhook notifier''" "err = Some x"
          by (simp_all add: fatal_def)
        with main_notifier_fails [OF answers n [unfolded Inl]] show ?thesis by simp
      next
        case notifier: (Inr notifier)
        with b Inr p ok n have "boot_mode e logger cfg c notifier (main_servers e cfg) w4 = Dead msg err w'" by simp
        from boot_mode_Dead [OF assms(1) answers this] show ?thesis .
      qed
    qed
  qed
qed

end
