(* ===== verification/Spec2Isabelle.thy ===== *)
theory Spec2Isabelle
  imports Cycle Sentinel_Main
begin

text \<open>
  \<^bold>\<open>swarm-sentinel\<close> watches the stacks of a Docker Swarm. Once per interval it fetches the compose file of
  a stack over HTTP, asks the Swarm API what is running, judges every service, compares the verdict
  with the one stored in a JSON file, and notifies Slack and a webhook of the changes.

  \<^bold>\<open>The parts, in the order of the code, and the theories that model them.\<close>

  \<^item> \<open>Go_Prelude\<close>, \<open>Go_Errors\<close>, \<open>Go_Json\<close>, \<open>Go_Http\<close>: what the program uses of Go. A map is an association
    list without duplicates (\<open>gmap\<close>); an \<open>int\<close> is an integer, and \<open>wrap64\<close> is written out where it can
    overflow; an \<open>error\<close> is a value of \<open>goerror\<close> with its chain, so that \<open>errors.Is\<close> and \<open>errors.As\<close> are
    functions; a fallible operation returns a sum; a variable that is \<open>nil\<close> is \<open>None\<close>.
  \<^item> \<open>Compose_State\<close> and \<open>Compose_Fetch\<close> (\<open>internal/compose\<close>): the desired state of a parsed project, and the
    fetcher with its retries. The compose loader and \<open>net/http\<close> are parameters.
  \<^item> \<open>Swarm_State\<close>, \<open>Swarm_Pagination\<close>, \<open>Swarm_Docker\<close> (\<open>internal/swarm\<close>): the actual state from the lists
    of services and tasks, the pagination by ID prefixes, retries and the set-up of the client. The
    Docker SDK is the record \<open>docker_api\<close>.
  \<^item> \<open>Health\<close> and \<open>Transition\<close> (\<open>internal/health\<close>, \<open>internal/transition\<close>): the verdict on a service and on
    a stack, the drift of configs and secrets, and the transitions between two verdicts.
  \<^item> \<open>State_Store\<close> (\<open>internal/state\<close>): the JSON of the state, loading with migration and quarantine, the
    atomic save. The file system is a map from paths to contents; what the operating system answers
    is a parameter, call by call.
  \<^item> \<open>Healthcheck\<close>, \<open>Metrics\<close>, \<open>Server\<close> (\<open>internal/healthcheck\<close>, \<open>internal/metrics\<close>, \<open>internal/server\<close>): the
    tracker and the handlers of the probes, the values of the collectors, and which server has which
    route. Serving HTTP and the text format of Prometheus are parameters.
  \<^item> \<open>Logging\<close> (\<open>internal/logging\<close>): the levels; a logger is the function that writes an event.
  \<^item> \<open>Notifier\<close>, \<open>Http_Poster\<close>, \<open>Slack\<close>, \<open>Webhook\<close> (\<open>internal/notify\<close>): the interface and its
    implementations, the retry loop that posts, and the messages.
  \<^item> \<open>Config\<close> (\<open>internal/config\<close>): reading and validating the settings and the mapping file.
  \<^item> \<open>Runner\<close> (\<open>internal/runner\<close>): one cycle and the loop, the stabilisation of alerts; \<open>Cycle\<close> proves what
    a whole cycle does to the stored map of snapshots.
  \<^item> \<open>Coordinator\<close> (\<open>internal/coordinator\<close>): one runner per stack, \<open>Stop\<close>, and, as a step relation, the
    interleaving of the runners on the shared state file.
  \<^item> \<open>Sentinel_Main\<close> (\<open>cmd/swarm-sentinel\<close>): how \<open>main\<close> puts the parts together.

  \<^bold>\<open>How they interact.\<close> Everything that can have an effect takes a world \<open>'w\<close> and returns the next one;
  the components are polymorphic in it, and what one uses of another is a function or a record of
  functions (\<open>store\<close>, \<open>notifier\<close>, \<open>metrics_ops\<close>, \<open>docker_api\<close>, \<open>http_api\<close>). In \<open>main\<close> the variables that
  goroutines share are cells of the world. The promises between components are locales, each
  interpreted on the code's own definitions: \<open>state_store\<close> (what a load returns after a save, by the file
  store), \<open>transition_notifier\<close> and \<open>delivering_notifier\<close> (by the notifiers) and those of the other
  theories.

  \<^bold>\<open>What the properties show.\<close> A status change that lasts is reported once, in the right cycle, and what
  is reported was stable; an update of the file is atomic, survives a load, and is not lost under any
  interleaving with a shared mutex; the verdicts and transitions are those of a declarative
  specification (which says where they differ from \<open>TASKS.md\<close>); the actual state is exact although the
  lists of the Docker API may be truncated; the retry policy is characterised attempt by attempt; the
  desired state is that of a current compose file, whatever cycles failed before; failing cycles never
  stop the loop; accepted configurations are usable; the notifiers deliver each message once or report
  an error. This theory holds those that span components: which failures can end the start of the
  program, that all runners share file and mutex, that the program shuts down, that the container's
  health check is right, what a whole cycle does to the file, and two flaws: an alert that fails is
  lost, and a rate-limited server stops the runner.

  \<^bold>\<open>Bounds and loops.\<close> Loops over a budget (attempts, back-offs, pages) are total functions with a measure;
  the pagination splits prefixes up to two characters, as in the code. The loop of \<open>run_loop\<close>
  consumes the list of what its \<open>select\<close> receives, and says whether it has returned, waits for more, or
  hangs. The loop that posts has no bound in the code: it is a partial function, \<open>None\<close> is a run that
  does not end, and when it ends is proved (\<open>postWithRetry_returns\<close>, \<open>rate_limited_forever\<close>).

  \<^bold>\<open>Not modelled.\<close> Parsing of YAML, URLs, durations, dates and templates, SHA-256, the Docker SDK, \<open>net/http\<close>,
  zerolog, the Prometheus client and the rate limiter are libraries, so parameters; what a property
  assumes of one (an honest HTTP server, which lists may be truncated) is a named predicate. The file
  system has no directories and no crash of the machine. Signals are the
  events that end a context. The goroutines of the coordinator run one after the other, except that
  their critical sections interleave (\<open>cstep\<close>); log lines without data of the run are left out of
  the runner. The fakes of the tests are not part of the program.
\<close>

section \<open>A world to start in\<close>

text \<open>The cells of \<open>main\<close>, for the witnesses below, and libraries that always succeed.\<close>

record main_world =
  dw_files :: file_world
  dw_tracker :: "tracker option"
  dw_metrics :: "metrics option"
  dw_slack :: "nat gmap"
  dw_webhook :: "nat gmap"

definition main_ctx :: "main_world ctx_env" where
  "main_ctx = \<lparr>ce_err = (\<lambda>w. None), ce_wait = (\<lambda>d w. (None, w)), ce_with_timeout = (\<lambda>d w. w), ce_cancel = (\<lambda>w. w)\<rparr>"

definition main_http :: "http_response \<Rightarrow> main_world http_api" where
  "main_http resp = \<lparr>ha_NewRequest = (\<lambda>u. None), ha_Do = (\<lambda>req w. (Inr resp, w)), ha_CloseBody = (\<lambda>w. w)\<rparr>"

definition main_libs :: "http_response \<Rightarrow> (nat, unit, main_world) post_libs" where
  "main_libs resp = \<lparr>pl_ctx = main_ctx, pl_http = (\<lambda>c. main_http resp), pl_NewLimiter = (\<lambda>i b w. (0, w)),
     pl_Wait = (\<lambda>l w. (None, w)), pl_NewBackOff = (\<lambda>i m e w. ((), w)),
     pl_NextBackOff = (\<lambda>b w. (Some Second, w)), pl_Now = (\<lambda>w. (0, w)), pl_ParseTime = (\<lambda>s. None)\<rparr>"

definition main_sys :: "main_world sys" where
  "main_sys = \<lparr>sy_ctx = main_ctx, sy_now = (\<lambda>w. (1, w)), sy_rfc3339 = (\<lambda>t. ''t''),
     sy_load = (\<lambda>b. Inr \<lparr>cp_Services = [], cp_Configs = [], cp_Secrets = []\<rparr>), sy_sha256 = (\<lambda>b. b)\<rparr>"

definition main_daemon :: "main_world docker_api" where
  "main_daemon = \<lparr>da_Ping = (\<lambda>w. (Inr (), w)), da_ServiceList = (\<lambda>f s w. (Inr [], w)),
     da_TaskList = (\<lambda>f w. (Inr [], w)), da_Close = (\<lambda>w. (None, w))\<rparr>"

definition ok_response :: http_response where
  "ok_response = busy_response\<lparr>rs_StatusCode := 200\<rparr>"

definition demo_main :: "(nat, unit, unit, unit, unit, main_world) main_env" where
  "demo_main = \<lparr>me_env = demo_env, me_process_env = demo_env,
     me_zerolog = \<lparr>zl_SetGlobalLevel = (\<lambda>lvl w. w), zl_Stdout = (\<lambda>lvl ev w. w)\<rparr>,
     me_sys = main_sys, me_http = main_http ok_response, me_post = main_libs busy_response,
     me_templates = demo_templates, me_marshal = (\<lambda>m. Inr (wm_Text m)), me_parse_url = demo_parse_url,
     me_tls_client = (\<lambda>opts. Inr ()), me_new_client = (\<lambda>opts. Inr main_daemon), me_time_ok = (\<lambda>t. True),
     me_ticker = \<lparr>tf_New = (\<lambda>d w. w), tf_Stop = (\<lambda>w. w)\<rparr>, me_mutex = demo_mutex,
     me_private_mutex = (\<lambda>k. demo_mutex),
     me_files = \<lparr>cl_get = dw_files, cl_put = (\<lambda>s w. w\<lparr>dw_files := s\<rparr>)\<rparr>,
     me_tracker = \<lparr>cl_get = dw_tracker, cl_put = (\<lambda>s w. w\<lparr>dw_tracker := s\<rparr>)\<rparr>,
     me_metrics = \<lparr>cl_get = dw_metrics, cl_put = (\<lambda>s w. w\<lparr>dw_metrics := s\<rparr>)\<rparr>,
     me_slack = \<lparr>cl_get = dw_slack, cl_put = (\<lambda>s w. w\<lparr>dw_slack := s\<rparr>)\<rparr>,
     me_webhook = \<lparr>cl_get = dw_webhook, cl_put = (\<lambda>s w. w\<lparr>dw_webhook := s\<rparr>)\<rparr>,
     me_handlers = \<lparr>hn_tracker = (\<lambda>w. None), hn_metrics = None, hn_now = (\<lambda>w. 100), hn_rfc3339 = (\<lambda>t. ''t''),
       hn_promDefault = '''', hn_promFor = (\<lambda>m. '''')\<rparr>\<rparr>"

definition start_world :: main_world where
  "start_world = \<lparr>dw_files = demo_world, dw_tracker = None, dw_metrics = None, dw_slack = [], dw_webhook = []\<rparr>"

definition demo_cfg :: config where
  "demo_cfg = default_config\<lparr>cg_ComposeURL := ''http://c/x.yml''\<rparr>"

lemma demo_cfg_simps [simp]:
  "cg_ComposeURL demo_cfg = ''http://c/x.yml''" "cg_HealthPort demo_cfg = 8080" "cg_MetricsPort demo_cfg = 9090"
  "cg_PollInterval demo_cfg = 30 * Second" "cg_SlackWebhookURL demo_cfg = ''''" "cg_WebhookURL demo_cfg = ''''"
  "cg_DryRun demo_cfg = False" "cg_StackName demo_cfg = ''''" "cg_ComposeTimeout demo_cfg = 10 * Second"
  "cg_DockerTLSEnabled demo_cfg = False" "cg_DockerProxyURL demo_cfg = ''http://localhost:2375''"
  by (simp_all add: demo_cfg_def default_config_def)

lemma demo_load_config: "LoadConfig (me_env demo_main) = Inr demo_cfg"
  by (simp add: demo_main_def demo_env_config demo_cfg_def)

lemma demo_docker: "\<exists>c. main_docker demo_main demo_cfg = Inr c \<and> dc_api c = Some (dockerClientAdapter main_daemon)"
  by (simp add: main_docker_def NewDockerClient_def docker_options_def docker_tls_def docker_tls_config_def
      normalizeDockerHost_def demo_main_def demo_parse_url_def Let_def)

lemma demo_ping: "dc_api c = Some (dockerClientAdapter main_daemon) \<Longrightarrow> Ping main_ctx (Some c) w = (Inr (), w)"
  by (simp add: Ping_def withRetry_def withRetry_from.simps maxAttempts_def main_ctx_def dockerClientAdapter_def main_daemon_def)

lemma demo_boot: "\<exists>job servers w. boot demo_main start_world = Alive job servers w"
proof -
  obtain c where c: "main_docker demo_main demo_cfg = Inr c" "dc_api c = Some (dockerClientAdapter main_daemon)"
    using demo_docker by blast
  have ctx: "sy_ctx (me_sys demo_main) = main_ctx" by (simp add: demo_main_def main_sys_def)
  obtain logger w1 where l: "NewWithLevel (me_zerolog demo_main) (cg_LogLevel demo_cfg) start_world = (logger, w1)"
    by fastforce
  have mapping: "FindMappingFile (me_env demo_main) = Inr ''''"
  proof -
    from LoadConfig_facts [OF demo_load_config] obtain path where
      "FindMappingFile (me_env demo_main) = Inr path" "(path = '''') = (cg_ComposeURL demo_cfg \<noteq> '''')"
      by (auto simp: sources_ok_def)
    then show ?thesis by simp
  qed
  have notifier: "\<exists>n w'. main_notifier demo_main logger demo_cfg v = (Inr n, w')" for v
    by (simp add: main_notifier_def NewSlackNotifier_def NewWebhookNotifier_def case_prod_beta Let_def)
  obtain f where f: "NewHTTPFetcher ''http://c/x.yml'' (10 * Second) 0 [] = Inr f"
    using NewHTTPFetcher_prefix [of "''http://c/x.yml''" "10 * Second" 0] by (auto simp: HasPrefix_def Second_def)
  then have mode: "\<exists>job servers w. boot_mode demo_main logger demo_cfg c n s v = Alive job servers w" for n s v
    using mapping by (simp add: boot_mode_def Let_def)
  from l c ctx demo_load_config notifier mode demo_ping [OF c(2)] show ?thesis
    by (auto simp: boot_def split: prod.splits sum.splits) (metis Inr_not_Inl prod.inject)+
qed

section \<open>Starting up\<close>

text \<open>
  C25. Once \<open>Load\<close> has accepted the configuration, starting up fails only for what \<open>Load\<close> cannot see.
  Each call of \<open>Fatal\<close> then logs an error, and is due to the failure, in this run and with the values
  of this configuration, of one of these: reading the configured TLS files; making the client from
  the options of the configuration (or TLS was asked for over a socket); the ping of that client;
  parsing the configured or default template, with a webhook configured; loading the mapping file
  that was found; or making the fetcher, when there is no mapping file and the compose URL does not
  begin with one of the two schemes as written. Only a client that was made is pinged, and the
  last three happen only after the daemon has answered. The other checks of \<open>main\<close> (incomplete TLS
  settings, \<open>https\<close> without TLS, an invalid timeout or URL, a missing or ambiguous source of compose
  files) never fail.
\<close>

theorem boot_fails_only_for:
  assumes "LoadConfig (me_env e) = Inr cfg" "ev_ParseURL (me_env e) = me_parse_url e"
    and "boot e w = Dead msg err w'"
  shows "\<exists>x. err = Some x \<and> boot_cause e cfg w msg x"
  using assms by (rule boot_Dead)

lemma boot_fails_only_for_witness:
  "\<exists>err w'. boot (demo_main\<lparr>me_new_client := \<lambda>opts. Inl (PlainErr ''no client'')\<rparr>) start_world
     = Dead ''failed to initialize docker client'' (Some err) w'
   \<and> boot_cause (demo_main\<lparr>me_new_client := \<lambda>opts. Inl (PlainErr ''no client'')\<rparr>) demo_cfg start_world
       ''failed to initialize docker client'' err"
proof -
  let ?e = "demo_main\<lparr>me_new_client := \<lambda>opts. Inl (PlainErr ''no client'')\<rparr>"
  have load: "LoadConfig (me_env ?e) = Inr demo_cfg" using demo_load_config by simp
  have "\<exists>x. main_docker ?e demo_cfg = Inl x"
    by (simp add: main_docker_def NewDockerClient_def split: sum.split)
  then obtain err w' where b: "boot ?e start_world = Dead ''failed to initialize docker client'' err w'"
    using load by (auto simp: boot_def fatal_def Let_def case_prod_beta)
  have "ev_ParseURL (me_env ?e) = me_parse_url ?e" by (simp add: demo_main_def demo_env_def)
  from boot_fails_only_for [OF load this b] b show ?thesis by auto
qed

text \<open>The runners of a job: the one it is, or those the coordinator can build.\<close>

definition job_runners :: "'w spawn_env \<Rightarrow> 'w job \<Rightarrow> 'w runner set" where
  "job_runners env job = (case job of
      SingleStack r \<Rightarrow> {r}
    | MultiStack c \<Rightarrow> {r. \<exists>m \<in> set (co_mappings c). build_runner env c m = Inr r})"

text \<open>What every one of them uses.\<close>

definition runs_with ::
  "('l, 'b, 'v, 't, 'x, 'w) main_env \<Rightarrow> config \<Rightarrow> 'w notifier \<Rightarrow> 'w runner \<Rightarrow> bool" where
  "runs_with e cfg notifier r \<longleftrightarrow> rn_stateStore r = Some (main_store e cfg) \<and> rn_stateMu r = Some (me_mutex e)
     \<and> rn_notifier r = Some notifier \<and> rn_pollInterval r = cg_PollInterval cfg
     \<and> rn_alertStabilizationCycles r = cg_AlertStabilizationCycles cfg \<and> rn_runOnce r = None"

lemma main_runner_poll: "rn_pollInterval (main_runner e logger cfg f client notifier) = cg_PollInterval cfg"
  by (simp add: main_runner_def NewRunner_def runner_option_defs Let_def)

lemma boot_runs_with:
  assumes "boot e w = Alive job servers w'"
  shows "\<exists>cfg logger notifier w1 w2. LoadConfig (me_env e) = Inr cfg
    \<and> main_notifier e logger cfg w1 = (Inr notifier, w2)
    \<and> (\<forall>env. \<forall>r \<in> job_runners env job. runs_with e cfg notifier r)"
proof -
  obtain cfg logger client notifier w1 w2 where b: "LoadConfig (me_env e) = Inr cfg"
    "main_notifier e logger cfg w1 = (Inr notifier, w2)"
    "boot_mode e logger cfg client notifier servers w2 = Alive job servers w'"
    using boot_Alive [OF assms] by blast
  have n: "0 < cg_AlertStabilizationCycles cfg" using LoadConfig_facts [OF b(1)] by (simp add: numbers_ok_def)
  have "runs_with e cfg notifier r" if "r \<in> job_runners env job" for env r
    using boot_mode_Alive [OF b(3)] that n
    by (auto simp: job_runners_def runs_with_def main_runner_fields main_runner_poll main_coordinator_fields
        build_runner_fields)
  with b show ?thesis by blast
qed

text \<open>
  C9. Whatever the mode, all the runners of a started program use the same state file under the same
  mutex, the same notifier and the configured interval and number of stabilisation cycles; and in
  multi-stack mode each has the name of its mapping as its key in that file, and no two mappings
  share a name. (The step relation of the coordinator then says that no update is lost.)
\<close>

theorem boot_shares_state:
  assumes "boot e w = Alive job servers w'"
  shows "\<exists>cfg notifier. LoadConfig (me_env e) = Inr cfg \<and> transition_notifier notifier
    \<and> (\<forall>r \<in> job_runners env job. runs_with e cfg notifier r)
    \<and> (case job of SingleStack r \<Rightarrow> True
       | MultiStack c \<Rightarrow> distinct (map sm_Name (co_mappings c))
           \<and> (\<forall>m \<in> set (co_mappings c). case build_runner env c m of Inl err \<Rightarrow> True | Inr r \<Rightarrow> stackKey r = sm_Name m))"
proof -
  obtain cfg logger notifier w1 w2 where b: "LoadConfig (me_env e) = Inr cfg"
    "main_notifier e logger cfg w1 = (Inr notifier, w2)" "\<forall>r \<in> job_runners env job. runs_with e cfg notifier r"
    using boot_runs_with [OF assms] by blast
  have keys: "distinct (map sm_Name (co_mappings c))
      \<and> (\<forall>m \<in> set (co_mappings c). case build_runner env c m of Inl err \<Rightarrow> True | Inr r \<Rightarrow> stackKey r = sm_Name m)"
    if job: "job = MultiStack c" for c
  proof -
    from boot_Alive [OF assms] job obtain path where "LoadMappingFile (me_env e) path = Inr (co_mappings c)" "path \<noteq> ''''"
      by (auto dest!: boot_mode_Alive simp: main_coordinator_fields)
    then have "validateMappings (me_env e) (co_mappings c) = None"
      by (auto simp: LoadMappingFile_def split: sum.splits option.splits)
    then have ok: "distinct (map sm_Name (co_mappings c))" "list_all (mapping_ok (me_env e)) (co_mappings c)"
      using validate_loop_None [of "me_env e" 0 "[]" "co_mappings c"] by (auto simp: validateMappings_def split: if_splits)
    then show ?thesis
      using build_runner_fields(1) by (fastforce simp: list_all_iff mapping_ok_def stackKey_def split: sum.splits)
  qed
  show ?thesis
    by (intro exI [of _ cfg] exI [of _ notifier]) (use b main_notifier_quiet [OF b(2)] keys in \<open>auto split: job.split\<close>)
qed

lemma boot_shares_state_witness:
  "\<exists>job servers w. boot demo_main start_world = Alive job servers w
     \<and> (\<forall>r \<in> job_runners (main_spawn demo_main) job. rn_stateMu r = Some demo_mutex)"
proof -
  obtain job servers w where b: "boot demo_main start_world = Alive job servers w" using demo_boot by blast
  from boot_shares_state [OF b, of "main_spawn demo_main"] b show ?thesis
    by (auto simp: runs_with_def demo_main_def)
qed

section \<open>Shutting down\<close>

lemma run_loop_no_error: "run_loop sys events r w \<noteq> Returned (Some err) s"
  by (induction sys events r w rule: run_loop.induct) (auto split: option.split)

text \<open>A runner that is told to stop returns without an error.\<close>

lemma Run_stops:
  assumes "live r" "0 < rn_pollInterval r" "CtxDone \<in> set events"
  shows "\<exists>s. Run sys events r w = Returned None s"
proof -
  from Run_returns [OF assms(1), of sys events w] assms(3) obtain e s where r: "Run sys events r w = Returned e s"
    by (auto simp: run_ended_def split: run_result.splits)
  have "e = None"
    using r assms(2) run_loop_no_error [of sys events _ _ _ s] by (cases e) (auto simp: Run_def split: option.splits)
  with r show ?thesis by blast
qed

text \<open>
  C12. A started program that delivers its alerts locally (a dry run, or no URL configured) shuts down:
  when every runner receives the end of its context, after any number of cycles and whatever
  failed in them, \<open>main\<close> comes to its end with exit code 0.
\<close>

theorem graceful_shutdown:
  assumes "boot e w = Alive job servers w1" "LoadConfig (me_env e) = Inr cfg" "local_alerts cfg"
    and "\<And>stack. CtxDone \<in> set (events stack)"
  shows "\<exists>w2. main_exit logger client (main_run e events job w1) = Some (0, w2)"
proof -
  obtain cfg' logger' client' notifier v1 v2 where b: "LoadConfig (me_env e) = Inr cfg'"
    "main_notifier e logger' cfg' v1 = (Inr notifier, v2)"
    "boot_mode e logger' cfg' client' notifier servers v2 = Alive job servers w1"
    using boot_Alive [OF assms(1)] by blast
  with assms(2) have cfg: "cfg' = cfg" by simp
  have ret: "returns notifier" using main_notifier_returns [OF b(2)] assms(3) cfg by simp
  have poll: "0 < cg_PollInterval cfg" using LoadConfig_facts [OF assms(2)] by (simp add: numbers_ok_def)
  have exit: "\<exists>w2. main_exit logger client (Returned None s) = Some (0, w2)" for s
    by (cases s) (auto simp: main_exit_def split: prod.split option.split)
  have "\<exists>s. main_run e events job w1 = Returned None s"
    using boot_mode_Alive [OF b(3)]
  proof (elim disjE exE conjE)
    fix f assume job: "job = SingleStack (main_runner e logger' cfg' f client' notifier)"
    let ?r = "main_runner e logger' cfg' f client' notifier"
    have "live ?r" using ret by (simp add: live_def main_runner_fields)
    with Run_stops [of ?r] poll cfg assms(4) obtain r2 w2 where
      "Run (me_sys e) (events (stackKey ?r)) ?r w1 = Returned None (r2, w2)"
      by (force simp: main_runner_poll)
    then show ?thesis by (simp add: main_run_def job)
  next
    fix path ms assume job: "job = MultiStack (main_coordinator e logger' cfg' ms client' notifier)"
    let ?c = "main_coordinator e logger' cfg' ms client' notifier"
    have "alerts_return ?c" using ret by (simp add: alerts_return_def main_coordinator_fields)
    moreover have "list_all (ends (main_spawn e) ?c events) (co_mappings ?c)"
      using assms(4) by (simp add: ends_def list_all_iff)
    ultimately obtain c2 w2 where "coordinator_Run (main_spawn e) events ?c w1 = Returned None (c2, w2)"
      using coordinator_Run_ends [of ?c "main_spawn e" events w1] by auto
    then show ?thesis by (simp add: main_run_def job)
  qed
  then show ?thesis using exit by auto
qed

lemma graceful_shutdown_witness:
  "\<exists>job servers w1 client w2. boot demo_main start_world = Alive job servers w1
     \<and> main_exit demo_logger client (main_run demo_main (\<lambda>k. [Tick, CtxDone]) job w1) = Some (0, w2)"
proof -
  obtain job servers w1 where b: "boot demo_main start_world = Alive job servers w1" using demo_boot by blast
  have "local_alerts demo_cfg" by (simp add: local_alerts_def)
  from graceful_shutdown [OF b demo_load_config this, of "\<lambda>k. [Tick, CtxDone]"] b show ?thesis by simp
qed

section \<open>The health check of the container\<close>

definition healthz_url :: "int \<Rightarrow> string" where
  "healthz_url port = ''http://localhost:'' @ itoa port @ ''/healthz''"

lemma itoa_8080: "itoa 8080 = ''8080''"
proof -
  have "char_of (56 :: nat) = CHR ''8''" "char_of (48 :: nat) = CHR ''0''" by (simp_all add: char_of_def bit_0)
  then show ?thesis by (simp add: itoa_def show_nat.simps)
qed

lemma healthz_answer:
  assumes "0 < cg_HealthPort cfg"
  shows "answer (main_servers e cfg) (cg_HealthPort cfg) ''/healthz'' w =
    Some (JsonReply (HealthHandler (hn_rfc3339 (me_handlers e)) (cl_get (me_tracker e) w) (cg_PollInterval cfg)
      (hn_now (me_handlers e) w)))"
  using assms by (auto simp: main_servers_def Start_def answer_def registerHealthRoutes_def registerMetricsRoute_def
      split: option.split)

text \<open>
  C11. The health check of the container tells the truth about the last cycle. It is run with the
  configured port in \<open>SS_HEALTH_PORT\<close>, or with none where \<open>Load\<close> found none either; then, on a machine
  where the request for \<open>/healthz\<close> on that port reaches the servers of the program, the exit code is
  0 exactly when a cycle has succeeded and the last one did at most two poll intervals ago.
\<close>

theorem healthcheck_truthful:
  assumes "LoadConfig (me_env e) = Inr cfg" "0 < cg_HealthPort cfg" "cg_PollInterval cfg < 2 ^ 62"
    and "Getenv penv ''SS_HEALTH_PORT'' = itoa (cg_HealthPort cfg)
      \<or> Getenv penv ''SS_HEALTH_PORT'' = '''' \<and> lookupTrimmed (me_env e) ''SS_HEALTH_PORT'' = None"
    and "ha_NewRequest api (healthz_url (cg_HealthPort cfg)) = None"
    and "ha_Do api \<lparr>rq_Method = ''GET'', rq_URL = healthz_url (cg_HealthPort cfg), rq_Header = [], rq_Body = ''''\<rparr> w
      = (Inr resp, w1)"
    and "\<And>reply. answer (main_servers e cfg) (cg_HealthPort cfg) ''/healthz'' w = Some (JsonReply reply)
      \<Longrightarrow> rs_StatusCode resp = hr_Status reply"
  shows "(fst (runHealthcheck penv api w) = 0) = (case cl_get (me_tracker e) w of
      None \<Rightarrow> False
    | Some t \<Rightarrow> tk_lastCycle t \<noteq> 0 \<and> hn_now (me_handlers e) w - tk_lastCycle t \<le> 2 * cg_PollInterval cfg)"
proof -
  have url: "''http://localhost:'' @ (if Getenv penv ''SS_HEALTH_PORT'' = '''' then ''8080'' else Getenv penv ''SS_HEALTH_PORT'')
      @ ''/healthz'' = healthz_url (cg_HealthPort cfg)"
  proof (cases "Getenv penv ''SS_HEALTH_PORT'' = ''''")
    case True
    have ne: "itoa (cg_HealthPort cfg) \<noteq> ''''" using assms(2) by (subst itoa_def) (simp add: show_nat.simps)
    with True assms(4) have "lookupTrimmed (me_env e) ''SS_HEALTH_PORT'' = None" by auto
    with LoadConfig_health_port [OF assms(1)] True show ?thesis by (simp add: healthz_url_def itoa_8080)
  next
    case False
    with assms(4) show ?thesis by (auto simp: healthz_url_def)
  qed
  have "fst (runHealthcheck penv api w) = (if rs_StatusCode resp \<noteq> 200 then 1 else 0)"
    unfolding runHealthcheck_def Let_def url using assms(5,6) by simp
  moreover have "rs_StatusCode resp = hr_Status (HealthHandler (hn_rfc3339 (me_handlers e)) (cl_get (me_tracker e) w)
      (cg_PollInterval cfg) (hn_now (me_handlers e) w))"
    by (rule assms(7)) (rule healthz_answer [OF assms(2)])
  moreover have "0 < cg_PollInterval cfg" using LoadConfig_facts [OF assms(1)] by (simp add: numbers_ok_def)
  ultimately show ?thesis using assms(3)
    by (auto simp: HealthHandler_def Healthy_def writeJSON_def time_Sub_le split: option.split)
qed

definition cycled_world :: main_world where
  "cycled_world = start_world\<lparr>dw_tracker := tracked [(50, 5, 1)]\<rparr>"

lemma healthcheck_truthful_witness:
  "fst (runHealthcheck demo_env (main_http ok_response) cycled_world) = 0"
proof -
  have env: "Getenv demo_env ''SS_HEALTH_PORT'' = ''''" "lookupTrimmed (me_env demo_main) ''SS_HEALTH_PORT'' = None"
    by (simp_all add: Getenv_def lookupTrimmed_def demo_main_def demo_env_def)
  have t: "tracked [(50, 5, 1)] = Some \<lparr>tk_lastCycle = 50, tk_cycleDuration = 5, tk_stacksEvaluated = 1, tk_ready = True\<rparr>"
    using tracked_snoc [of "[]" 50 5 1] by simp
  have a: "answer (main_servers demo_main demo_cfg) (cg_HealthPort demo_cfg) ''/healthz'' w =
      Some (JsonReply (HealthHandler (hn_rfc3339 (me_handlers demo_main)) (dw_tracker w) (30 * Second) 100))" for w
    using healthz_answer [of demo_cfg demo_main w] by (simp add: demo_main_def)
  have 1: "rs_StatusCode ok_response = hr_Status (HealthHandler r (dw_tracker cycled_world) (30 * Second) 100)" for r
    by (simp add: ok_response_def cycled_world_def t HealthHandler_def Healthy_def writeJSON_def time_Sub_def Second_def)
  have "(fst (runHealthcheck demo_env (main_http ok_response) cycled_world) = 0) =
     (case cl_get (me_tracker demo_main) cycled_world of None \<Rightarrow> False
      | Some t \<Rightarrow> tk_lastCycle t \<noteq> 0
          \<and> hn_now (me_handlers demo_main) cycled_world - tk_lastCycle t \<le> 2 * cg_PollInterval demo_cfg)"
    by (rule healthcheck_truthful [OF demo_load_config, where resp = ok_response and ?w1.0 = cycled_world])
      (use env 1 a [of cycled_world] in \<open>auto simp: main_http_def Second_def\<close>)
  then show ?thesis by (simp add: demo_main_def cycled_world_def t Second_def)
qed

section \<open>Alerts that are lost, and alerts that never end\<close>

text \<open>
  C20. An alert that could not be sent is not sent again. When the notifier fails on the transitions of
  a cycle, that is logged and nothing else; the state file already says that they were notified, so
  that the next cycle with the same status of a service does not report it.
\<close>

theorem failed_alert_not_retried:
  assumes "file_inv time_ok path w" "time_ok now" "time_ok now'"
    and "wf_gmap (stk_Services h)" "list_all (\<lambda>(n, s). health_ok s) (stk_Services h)"
    and "wf_gmap (stk_Services h')" "list_all (\<lambda>(n, s). health_ok s) (stk_Services h')"
    and "persist r (NewFileStore time_ok path) now h w = (Inr ts, w1)"
    and "rn_notifier r = Some notify" "notify (stackKey r) ts v = Some (Some err, v')"
    and "persist r (NewFileStore time_ok path) now' h' w1 = (Inr ts', w2)"
    and "name \<in> tr_Name ` set ts"
    and "map_option sh_Status (mget (stk_Services h') name) = map_option sh_Status (mget (stk_Services h) name)"
  shows "notify_transitions r ts v =
      Some (rn_logger r (log_event_of LError ''failed to send notifications'' [(''error'', LErr err)]) v')
    \<and> name \<notin> tr_Name ` set ts'"
proof
  have "ts \<noteq> []" using assms(12) by auto
  with assms(9,10) show "notify_transitions r ts v =
      Some (rn_logger r (log_event_of LError ''failed to send notifications'' [(''error'', LErr err)]) v')"
    by (simp add: notify_transitions_def)
next
  let ?N = "rn_alertStabilizationCycles r" and ?view = "file_view time_ok path"
  obtain upd where st: "stabilizeTransitions ?N (?view w (stackKey r)) h = (upd, ts)"
    and v1: "?view w1 (stackKey r) = Some (norm_snapshot (snapshot_of (rn_composeHash r) upd now))"
    and inv1: "file_inv time_ok path w1"
    using file_store.persist_spec [OF assms(1,4) _ assms(8)] stabilised_snapshot_ok [of h time_ok now, OF assms(4,5,2)]
    by (auto simp: case_prod_beta Let_def intro!: that [OF prod_eqI])
  have ts': "ts' = snd (stabilizeTransitions ?N (?view w1 (stackKey r)) h')"
    using file_store.persist_spec [OF inv1 assms(6) _ assms(11)] stabilised_snapshot_ok [of h' time_ok now', OF assms(6,7,3)]
    by (simp add: case_prod_beta Let_def)
  have "ts' = snd (stabilizeTransitions ?N (Some (snapshot_of (rn_composeHash r) upd now)) h')"
    unfolding ts' v1 using stabilizeTransitions_norm [OF assms(6), of ?N "Some (snapshot_of (rn_composeHash r) upd now)"]
    by simp
  note names' = stabilizeTransitions_names [OF assms(6), of name ?N "Some (snapshot_of (rn_composeHash r) upd now)",
      folded this, simplified]
  let ?prevs = "prev_services (?view w (stackKey r))"
  from stabilizeTransitions_names [OF assms(4), of name ?N "?view w (stackKey r)"] assms(12) st obtain s where
    s: "mget (stk_Services h) name = Some s" "alerts ?N ?prevs name s" by auto
  have upd: "upd = map (\<lambda>(n, s). (n, stored ?N ?prevs n s)) (stk_Services h)"
    using st by (simp add: stabilizeTransitions_eq [OF assms(4)])
  let ?p = "stored ?N ?prevs name s"
  have p: "mget upd name = Some ?p" unfolding upd map_stored_mget using s(1) by simp
  have ref: "reference_status ?p = sh_Status s"
    using s(2) by (auto simp: stored_def reference_status_def alerts_def split: option.splits)
  show "name \<notin> tr_Name ` set ts'"
  proof
    assume "name \<in> tr_Name ` set ts'"
    with names' obtain s' where "mget (stk_Services h') name = Some s'" "alerts ?N upd name s'" by auto
    with p ref s(1) assms(13) show False by (simp add: alerts_def)
  qed
qed

lemma demo_persist:
  assumes "fw_answers w = fw_answers demo_world" "fw_fs w ''/data/.state-1.json'' = None"
  shows "\<exists>ts w'. persist r demo_fs now h w = (Inr ts, w') \<and> fw_answers w' = fw_answers demo_world
    \<and> fw_fs w' ''/data/.state-1.json'' = None"
proof -
  obtain st where st: "st_Load demo_fs w = (Inr st, w)" using demo_load [OF assms(1)] by blast
  let ?snap = "mget (nilmap (gs_Stacks st)) (stackKey r)"
  obtain upd ts where s: "stabilizeTransitions (rn_alertStabilizationCycles r) ?snap h = (upd, ts)" by fastforce
  obtain w' where "st_Save demo_fs (put_stack (stackKey r) (snapshot_of (rn_composeHash r) upd now) st) w = (None, w')"
    "fw_answers w' = fw_answers demo_world" "fw_fs w' ''/data/.state-1.json'' = None"
    using demo_save [OF assms] by blast
  with st s show ?thesis by (simp add: persist_def Let_def)
qed

definition mute :: "'w notifier" where
  "mute stack ts w = Some (Some (PlainErr ''connection refused''), w)"

definition mute_runner :: "file_world runner" where
  "mute_runner = demo_runner\<lparr>rn_notifier := Some mute\<rparr>"

lemma demo_stack_web:
  "wf_gmap (stk_Services (demo_stack StatusFailed))"
  "list_all (\<lambda>(n, s). health_ok s) (stk_Services (demo_stack StatusFailed))"
  "''web'' \<in> tr_Name ` set (snd (stabilizeTransitions 1 None (demo_stack StatusFailed)))"
proof -
  show wf: "wf_gmap (stk_Services (demo_stack StatusFailed))" by (simp add: demo_stack_def wf_gmap_def)
  show "list_all (\<lambda>(n, s). health_ok s) (stk_Services (demo_stack StatusFailed))"
    by (simp add: demo_stack_def demo_health_def zero_health_def health_ok_def in_int64_def)
  have "alerts 1 (prev_services None) ''web'' (demo_health StatusFailed)"
    by (simp add: alerts_def prev_services_def demo_health_def StatusFailed_def StatusOK_def)
  with stabilizeTransitions_names [OF wf, of "''web''" 1 None]
  show "''web'' \<in> tr_Name ` set (snd (stabilizeTransitions 1 None (demo_stack StatusFailed)))"
    by (simp add: demo_stack_def)
qed

lemma failed_alert_not_retried_witness:
  "\<exists>ts w1 ts' w2. persist mute_runner demo_fs ''t'' (demo_stack StatusFailed) demo_world = (Inr ts, w1)
     \<and> ''web'' \<in> tr_Name ` set ts
     \<and> persist mute_runner demo_fs ''t'' (demo_stack StatusFailed) w1 = (Inr ts', w2)
     \<and> ''web'' \<notin> tr_Name ` set ts'"
proof -
  let ?h = "demo_stack StatusFailed"
  obtain ts w1 where p: "persist mute_runner demo_fs ''t'' ?h demo_world = (Inr ts, w1)"
    "fw_answers w1 = fw_answers demo_world" "fw_fs w1 ''/data/.state-1.json'' = None"
    using demo_persist [of demo_world mute_runner "''t''" ?h] by (auto simp: demo_world_def)
  obtain ts' w2 where p': "persist mute_runner demo_fs ''t'' ?h w1 = (Inr ts', w2)"
    using demo_persist [OF p(2,3)] by blast
  have "file_view (\<lambda>t. True) ''/data/state.json'' demo_world = Map.empty"
    by (simp add: file_view_def demo_world_def Load_def ReadFile_def quiet_os_def is_not_exist_def
        not_exist_def plain_lib_def fresh_state_def lookup_def fun_eq_iff)
  then have "ts = snd (stabilizeTransitions 1 None ?h)"
    using file_store.persist_spec [OF demo_world_inv demo_stack_web(1) _ p(1)]
      stabilised_snapshot_ok [of ?h "\<lambda>t. True" "''t''", OF demo_stack_web(1,2)]
    by (simp add: case_prod_beta Let_def mute_runner_def)
  with demo_stack_web(3) have web: "''web'' \<in> tr_Name ` set ts" by simp
  have n: "rn_notifier mute_runner = Some mute" by (simp add: mute_runner_def)
  have m: "mute (stackKey mute_runner) ts () = Some (Some (PlainErr ''connection refused''), ())" by (simp add: mute_def)
  from failed_alert_not_retried [OF demo_world_inv _ _ demo_stack_web(1,2) demo_stack_web(1,2) p(1) n _ p' web refl]
  have "''web'' \<notin> tr_Name ` set ts'" by (simp add: mute_def)
  with p(1) p' web show ?thesis by blast
qed

lemma evaluateAndPersist_hangs:
  assumes "sy_now sys (log_updates r w) = (now, w1)" "rn_notifier r = Some notify"
    and "withStateLock r (persist r store (sy_rfc3339 sys now) (verdict_of r desired)) w1 = (Inr ts, w2)"
    and "ts \<noteq> []" "\<And>v. notify (stackKey r) ts v = None"
  shows "evaluateAndPersist sys r store desired w = None"
  using assms by (simp add: evaluateAndPersist_def verdict_of_def notify_transitions_def Let_def)

text \<open>
  C21. A rate-limited Slack server stops the runner. Take the notifier \<open>main\<close> builds when a Slack webhook
  is configured and alerts are not a dry run, and a server that answers every request with \<open>429\<close> and
  a positive \<open>Retry-After\<close>: as soon as a cycle has a transition to report (and its state is saved, as
  notified), that cycle does not return, so neither the alert nor any later cycle happens.
\<close>

theorem rate_limited_alert_hangs:
  assumes "main_notifier e logger cfg v = (Inr notifier, v')" "\<not> cg_DryRun cfg" "cg_SlackWebhookURL cfg \<noteq> ''''"
    and "\<And>c url. ha_NewRequest (pl_http (me_post e) c) url = None"
    and "\<And>c req v. \<exists>resp v'. ha_Do (pl_http (me_post e) c) req v = (Inr resp, v')
        \<and> rs_StatusCode resp = 429 \<and> rs_Header resp ''Retry-After'' = after"
    and "Atoi after = Inr seconds" "0 < seconds"
    and "\<And>d v. \<exists>v'. ce_wait (pl_ctx (me_post e)) d v = (None, v')" "\<And>l v. fst (pl_Wait (me_post e) l v) = None"
    and "\<And>m. me_marshal e m = Inr (js m)"
    and "rn_notifier r = Some notifier" "sy_now sys (log_updates r w) = (now, w1)"
    and "withStateLock r (persist r store (sy_rfc3339 sys now) (verdict_of r desired)) w1 = (Inr ts, w2)" "ts \<noteq> []"
  shows "evaluateAndPersist sys r store desired w = None"
proof (rule evaluateAndPersist_hangs [OF assms(12,11,13,14)])
  fix u
  have "\<exists>sl poster wn. sl_poster sl = Some poster
    \<and> notifier = Multi_Notify (NewMultiNotifier [Some (Slack_Notify (me_post e) (me_marshal e) sl), wn])"
    using assms(1-3)
    by (simp add: main_notifier_def NewSlackNotifier_def Let_def case_prod_beta split: prod.splits sum.splits)
      (metis slack_notifier.select_convs(4))
  then obtain sl poster wn where n: "sl_poster sl = Some poster"
    "notifier = Multi_Notify (NewMultiNotifier [Some (Slack_Notify (me_post e) (me_marshal e) sl), wn])" by blast
  have "postWithRetry (me_post e) poster payload x = None" for payload x
    by (rule rate_limited_loops [where after = after and s = seconds]) (fact assms(4-8))+
  moreover have "fst (waitForRateLimit (me_post e) poster (default_stack (stackKey r)) x) = None" for x
    using assms(9) by (simp add: waitForRateLimit_def case_prod_beta Let_def)
  ultimately have "Slack_Notify (me_post e) (me_marshal e) sl (stackKey r) ts u = None"
    by (intro Slack_hangs [where js = js]) (use n(1) assms(10,14) in simp_all)
  then show "notifier (stackKey r) ts u = None" unfolding n(2) by (simp add: Multi_Notify_def NewMultiNotifier_def)
qed

definition slack_cfg :: config where
  "slack_cfg = demo_cfg\<lparr>cg_SlackWebhookURL := ''https://hooks''\<rparr>"

definition web_desired :: desired_state where
  "web_desired = \<lparr>dst_Services = [(''web'', \<lparr>ds_Image = ''nginx:1'', ds_Mode = ''replicated'', ds_Replicas = 2,
     ds_Configs = [], ds_Secrets = []\<rparr>)]\<rparr>"

definition blank_store :: "'w store" where
  "blank_store = \<lparr>st_Load = (\<lambda>w. (Inr fresh_state, w)), st_Save = (\<lambda>s w. (None, w))\<rparr>"

lemma web_verdict:
  assumes "rn_lastActualState r = None"
  shows "wf_gmap (stk_Services (verdict_of r web_desired))"
    "mget (stk_Services (verdict_of r web_desired)) ''web'' = Some (missing_service ''web'' (snd (hd (dst_Services web_desired))))"
  using EvaluateStackHealth_eq [of web_desired None "rn_stackName r \<noteq> ''''"] assms
  by (auto simp: verdict_of_def web_desired_def wf_gmap_def actual_services_def verdict_def extras_def)

lemma rate_limited_alert_hangs_witness:
  "\<exists>notifier w. evaluateAndPersist main_sys (demo_runner\<lparr>rn_notifier := Some notifier\<rparr>) blank_store web_desired w = None"
proof -
  let ?libs = "me_post demo_main"
  have libs: "?libs = main_libs busy_response" by (simp add: demo_main_def)
  obtain notifier v' where n: "main_notifier demo_main demo_logger slack_cfg start_world = (Inr notifier, v')"
    by (simp add: main_notifier_def NewWebhookNotifier_def slack_cfg_def case_prod_beta Let_def)
  let ?r = "demo_runner\<lparr>rn_notifier := Some notifier\<rparr>"
  have act: "rn_lastActualState ?r = None" by (simp add: demo_runner_def NewRunner_def WithStackName_def Let_def)
  obtain upd ts where st: "stabilizeTransitions 1 None (verdict_of ?r web_desired) = (upd, ts)" by fastforce
  have "alerts 1 (prev_services None) ''web'' (missing_service ''web'' s)" for s
    by (simp add: alerts_def prev_services_def missing_service_def StatusFailed_def StatusOK_def)
  then have "ts \<noteq> []"
    using stabilizeTransitions_names [OF web_verdict(1) [OF act], of "''web''" 1 None] web_verdict(2) [OF act] st by auto
  moreover have "withStateLock ?r (persist ?r blank_store (sy_rfc3339 main_sys 1) (verdict_of ?r web_desired)) start_world
      = (Inr ts, start_world)"
    using st by (simp add: withStateLock_def persist_def blank_store_def fresh_state_def)
  moreover have "sy_now main_sys (log_updates ?r start_world) = (1, start_world)"
    by (simp add: main_sys_def log_updates_def act actual_services_def)
  ultimately have "evaluateAndPersist main_sys ?r blank_store web_desired start_world = None"
    by (intro rate_limited_alert_hangs [OF n, where after = "''1''" and seconds = 1 and js = wm_Text])
      (simp_all add: libs main_libs_def main_http_def main_ctx_def busy_response_def Atoi_one slack_cfg_def demo_main_def)
  then show ?thesis by blast
qed

section \<open>A whole cycle of a started program\<close>

text \<open>The state file in a cell of the world keeps the contract of the store.\<close>

lemma main_store_contract:
  assumes "lawful (me_files e)"
  shows "state_store (main_store e cfg) (\<lambda>w. file_view (me_time_ok e) (cg_StatePath cfg) (cl_get (me_files e) w))
    (\<lambda>w. file_inv (me_time_ok e) (cg_StatePath cfg) (cl_get (me_files e) w))
    (valid_state (me_time_ok e)) (snapshot_ok (me_time_ok e))"
proof -
  let ?get = "cl_get (me_files e)"
  let ?store = "NewFileStore (me_time_ok e) (cg_StatePath cfg)"
  have load: "\<exists>f'. st_Load ?store (?get w) = (res, f') \<and> ?get w' = f'"
    if "st_Load (main_store e cfg) w = (res, w')" for w res w'
    using that assms by (auto simp: main_store_def in_cell_def lawful_def Let_def split: prod.splits)
  have save: "\<exists>f'. st_Save ?store s (?get w) = (res, f') \<and> ?get w' = f'"
    if "st_Save (main_store e cfg) s w = (res, w')" for s w res w'
    using that assms by (auto simp: main_store_def in_cell_def lawful_def Let_def split: prod.splits)
  show ?thesis
  proof
    fix w w' res s er
    assume inv: "file_inv (me_time_ok e) (cg_StatePath cfg) (?get w)"
    show "file_inv (me_time_ok e) (cg_StatePath cfg) (?get w') \<and>
        file_view (me_time_ok e) (cg_StatePath cfg) (?get w') = file_view (me_time_ok e) (cg_StatePath cfg) (?get w)"
      if "st_Load (main_store e cfg) w = (res, w')"
      using load [OF that] file_store.load_inv [OF inv] by blast
    show "valid_state (me_time_ok e) s \<and> lookup s = file_view (me_time_ok e) (cg_StatePath cfg) (?get w)"
      if "st_Load (main_store e cfg) w = (Inr s, w')"
      using load [OF that] file_store.load_view [OF inv] by blast
    show "file_inv (me_time_ok e) (cg_StatePath cfg) (?get w') \<and>
        file_view (me_time_ok e) (cg_StatePath cfg) (?get w') = lookup s"
      if "valid_state (me_time_ok e) s" "st_Save (main_store e cfg) s w = (None, w')"
      using save [OF that(2)] file_store.save_ok [OF inv that(1)] by blast
    show "file_inv (me_time_ok e) (cg_StatePath cfg) (?get w') \<and>
        file_view (me_time_ok e) (cg_StatePath cfg) (?get w') = file_view (me_time_ok e) (cg_StatePath cfg) (?get w)"
      if "st_Save (main_store e cfg) s w = (Some er, w')"
      using save [OF that] file_store.save_error [OF inv] by blast
  qed (rule file_store.valid_put)
qed

text \<open>
  C2. A cycle of a started program, seen from the state file. Nothing but the store touches the file;
  then a cycle that fails, wherever it does, leaves what the file holds for every stack as it was;
  and a cycle that succeeds, once there is a desired state, stores for its own stack the verdict on
  the desired and the actual state it has, stabilised against what the file held before, and leaves
  every other stack as it was. (The values are those of Go: maps without duplicates, integers of
  64 bits; and the store accepts the times that the clock writes.)
\<close>

theorem cycle_stores_verdict:
  assumes "lawful (me_files e)" "runs_with e cfg notifier r"
    and "surroundings_keep (\<lambda>w. True) (cl_get (me_files e)) sys r"
    and "file_inv (me_time_ok e) (cg_StatePath cfg) (cl_get (me_files e) w)"
    and "RunOnce sys r w = Some ((err, r'), w')"
    and "\<And>desired. rn_lastDesiredState r' = Some desired \<Longrightarrow>
      wf_gmap (stk_Services (verdict_of r' desired)) \<and> list_all (\<lambda>(n, s). health_ok s) (stk_Services (verdict_of r' desired))"
    and "\<And>now. me_time_ok e (sy_rfc3339 sys now)"
  shows "let view = (\<lambda>w. file_view (me_time_ok e) (cg_StatePath cfg) (cl_get (me_files e) w)) in
    case err of
      Some x \<Rightarrow> view w' = view w
    | None \<Rightarrow>
        if rn_swarmClient r' = None \<or> rn_lastDesiredState r' = None then view w' = view w
        else \<exists>now. view w' = with_verdict r' (the (rn_lastDesiredState r')) (sy_rfc3339 sys now) (view w)"
proof -
  let ?view = "\<lambda>w. file_view (me_time_ok e) (cg_StatePath cfg) (cl_get (me_files e) w)"
  let ?inv = "\<lambda>w. file_inv (me_time_ok e) (cg_StatePath cfg) (cl_get (me_files e) w)"
  note store = main_store_contract [OF assms(1), of cfg]
  have keep: "surroundings_keep ?inv ?view sys r" by (rule surroundings_by [OF assms(3)])
  have r: "rn_stateStore r = Some (main_store e cfg)" "rn_runOnce r = None"
    using assms(2) by (simp_all add: runs_with_def)
  have "state_store.fits (snapshot_ok (me_time_ok e)) sys r'"
    unfolding state_store.fits_def [OF store] using assms(6,7) stabilised_snapshot_ok
    by (auto split: option.split)
  from state_store.cycle_spec [OF store keep assms(4) r assms(5) this]
  show ?thesis unfolding state_store.cycle_outcome_def [OF store] Let_def by (auto split: option.splits)
qed

definition data_cfg :: config where
  "data_cfg = demo_cfg\<lparr>cg_StatePath := ''/data/state.json''\<rparr>"

definition plain_runner :: "main_world runner" where
  "plain_runner = (main_runner demo_main demo_logger data_cfg demo_fetcher \<lparr>dc_api = None, dc_timeout = 0, dc_retryBackoffs = []\<rparr>
     (Noop_Notify \<lparr>no_logger = demo_logger, no_reason = ''''\<rparr>))
     \<lparr>rn_composeFetcher := None, rn_swarmClient := Some (\<lambda>s w. (Inr None, w)), rn_lastDesiredState := Some web_desired\<rparr>"

lemma cycle_stores_verdict_witness:
  "\<exists>err r' w'. RunOnce main_sys plain_runner start_world = Some ((err, r'), w')
     \<and> file_view (\<lambda>t. True) ''/data/state.json'' (dw_files w')
        = (if err = None
           then with_verdict r' web_desired ''t'' (file_view (\<lambda>t. True) ''/data/state.json'' (dw_files start_world))
           else file_view (\<lambda>t. True) ''/data/state.json'' (dw_files start_world))"
proof -
  let ?r = plain_runner
  have law: "lawful (me_files demo_main)" by (simp add: lawful_def demo_main_def)
  have runs: "runs_with demo_main data_cfg (Noop_Notify \<lparr>no_logger = demo_logger, no_reason = ''''\<rparr>) ?r"
    by (simp add: runs_with_def plain_runner_def main_runner_fields main_runner_poll)
  have live: "live ?r"
    using runs by (simp add: runs_with_def live_def Noop_returns)
  then obtain err r' w' where run: "RunOnce main_sys ?r start_world = Some ((err, r'), w')"
    using RunOnce_live [of ?r main_sys start_world] by (auto simp: live_step_def split: option.splits)
  have f: "rn_composeFetcher ?r = None" "rn_swarmClient ?r = Some (\<lambda>s w. (Inr None, w))"
    "rn_lastDesiredState ?r = Some web_desired" "rn_lastActualState ?r = None" "rn_runOnce ?r = None"
    "rn_logger ?r = demo_logger" "rn_stateMu ?r = Some demo_mutex" "rn_notifier ?r = Some (Noop_Notify \<lparr>no_logger = demo_logger, no_reason = ''''\<rparr>)"
    "rn_metrics ?r = main_metrics demo_main data_cfg" "rn_cycleTracker ?r = main_tracker demo_main data_cfg"
    by (simp_all add: plain_runner_def main_runner_def NewRunner_def runner_option_defs Let_def) (simp add: demo_main_def)
  have r': "rn_lastDesiredState r' = Some web_desired \<and> rn_lastActualState r' = None \<and> rn_swarmClient r' \<noteq> None"
    using run f
    by (auto simp: RunOnce_def defaultRunOnce_def refresh_desired_def collect_and_evaluate_def Let_def
        split: option.splits prod.splits)
  have keep: "surroundings_keep (\<lambda>w. True) (cl_get (me_files demo_main)) main_sys ?r"
    unfolding surroundings_keep_def f
    by (auto simp: keeps_def demo_logger_def main_sys_def demo_mutex_def Noop_Notify_def metrics_keep_def
        main_metrics_def main_tracker_def modify_def demo_main_def data_cfg_def Let_def split: if_splits)
  have inv: "file_inv (me_time_ok demo_main) (cg_StatePath data_cfg) (cl_get (me_files demo_main) start_world)"
    using demo_world_inv by (simp add: demo_main_def data_cfg_def start_world_def)
  have ok: "wf_gmap (stk_Services (verdict_of r' desired)) \<and> list_all (\<lambda>(n, s). health_ok s) (stk_Services (verdict_of r' desired))"
    if "rn_lastDesiredState r' = Some desired" for desired
  proof -
    from that r' have d: "desired = web_desired" "rn_lastActualState r' = None" by auto
    then show ?thesis using EvaluateStackHealth_eq [of web_desired None "rn_stackName r' \<noteq> ''''"]
      by (simp add: verdict_of_def web_desired_def wf_gmap_def actual_services_def verdict_def extras_def
          missing_service_def zero_health_def health_ok_def in_int64_def)
  qed
  have time: "me_time_ok demo_main t" "sy_rfc3339 main_sys now = ''t''" for t now
    by (simp_all add: demo_main_def main_sys_def)
  have cell: "cl_get (me_files demo_main) w = dw_files w" "me_time_ok demo_main = (\<lambda>t. True)"
    "cg_StatePath data_cfg = ''/data/state.json''" for w
    by (simp_all add: demo_main_def data_cfg_def)
  from cycle_stores_verdict [OF law runs keep inv run ok time(1)] r' run show ?thesis
    by (auto simp: Let_def cell time(2) split: option.splits)
qed

end
